(* ===== verification/Prelude.thy ===== *)
theory Prelude
  imports "HOL-Library.Word" "HOL-Library.Char_ord" "HOL-Library.List_Lexorder"
    "HOL-Library.Sublist" "HOL-Library.Signed_Division"
begin

text \<open>
  Shared vocabulary of the development: byte strings, registered errors, the
  error-or-result type every fallible routine returns, the block context, and
  the wrap-around of Go's signed 64-bit integers.  The theorem collections
  \<^verbatim>\<open>ok_simps\<close> (inversion of a successful run) and
  \<^verbatim>\<open>key_simps\<close> (injectivity of the key builders) are declared here and
  filled by the component theories.
\<close>

named_theorems ok_simps "inversion rules for results of the form Inr _"
named_theorems key_simps "injectivity and disjointness of store keys"

section \<open>Byte strings and errors\<close>

type_synonym bytes = string

text \<open>
  An error of the Go code is either one registered under a codespace with a
  code (\<^verbatim>\<open>errors.Register\<close>), an unregistered one (\<^verbatim>\<open>fmt.Errorf\<close>), or a
  panic, which aborts the transaction exactly as a returned error does.
\<close>

datatype err = Registered string nat | Plain string | Panic string

type_synonym 'a res = "err + 'a"

text \<open>The sequencing of the Go idiom \<^verbatim>\<open>x, err := f(); if err != nil { return err }\<close>.\<close>

definition bindE :: "'a res \<Rightarrow> ('a \<Rightarrow> 'b res) \<Rightarrow> 'b res" where
  "bindE m f = (case m of Inl e \<Rightarrow> Inl e | Inr x \<Rightarrow> f x)"

text \<open>\<^verbatim>\<open>errors.Wrap\<close> on a call: a failure is reported as the given error instead.\<close>

definition wrapE :: "err \<Rightarrow> 'a res \<Rightarrow> 'a res" where
  "wrapE e m = (case m of Inl _ \<Rightarrow> Inl e | Inr x \<Rightarrow> Inr x)"

definition isOK :: "'a res \<Rightarrow> bool" where
  "isOK m = (case m of Inl _ \<Rightarrow> False | Inr _ \<Rightarrow> True)"

text \<open>A loop whose body may fail: run the body on each element in order, threading the state.\<close>

primrec foldE :: "('a \<Rightarrow> 's \<Rightarrow> 's res) \<Rightarrow> 'a list \<Rightarrow> 's \<Rightarrow> 's res" where
  "foldE f [] s = Inr s"
| "foldE f (x # xs) s = bindE (f x s) (foldE f xs)"

text \<open>A loop that only checks: every element passes, or the first failure is returned.\<close>

primrec allE :: "('a \<Rightarrow> unit res) \<Rightarrow> 'a list \<Rightarrow> unit res" where
  "allE f [] = Inr ()"
| "allE f (x # xs) = bindE (f x) (\<lambda>_. allE f xs)"

lemma bindE_simps [simp]:
  "bindE (Inl e) f = Inl e"
  "bindE (Inr x) f = f x"
  by (simp_all add: bindE_def)

lemma bindE_assoc: "bindE (bindE m f) g = bindE m (\<lambda>x. bindE (f x) g)"
  by (cases m) simp_all

lemma bindE_Inr_iff [ok_simps]: "bindE m f = Inr y \<longleftrightarrow> (\<exists>x. m = Inr x \<and> f x = Inr y)"
  by (cases m) simp_all

lemma bindE_cong [fundef_cong]:
  "m = m' \<Longrightarrow> (\<And>x. m' = Inr x \<Longrightarrow> f x = f' x) \<Longrightarrow> bindE m f = bindE m' f'"
  by (cases m') simp_all

lemma wrapE_Inr_iff [ok_simps]: "wrapE e m = Inr y \<longleftrightarrow> m = Inr y"
  by (cases m) (simp_all add: wrapE_def)

lemma wrapE_simps [simp]:
  "wrapE e (Inr x) = Inr x"
  "wrapE e (Inl e') = Inl e"
  by (simp_all add: wrapE_def)

lemma isOK_iff: "isOK m \<longleftrightarrow> (\<exists>x. m = Inr x)"
  by (cases m) (simp_all add: isOK_def)

lemma isOK_simps [simp]:
  "isOK (Inr x)"
  "\<not> isOK (Inl e)"
  "isOK (if c then Inl e else r) \<longleftrightarrow> \<not> c \<and> isOK r"
  "isOK (bindE m f) \<longleftrightarrow> (\<exists>x. m = Inr x \<and> isOK (f x))"
  by (cases m; simp add: isOK_def)+

lemma if_Inl_Inr_iff [ok_simps]:
  "(if c then Inl e else r) = Inr y \<longleftrightarrow> \<not> c \<and> r = Inr y"
  "(if c then r else Inl e) = Inr y \<longleftrightarrow> c \<and> r = Inr y"
  by simp_all

lemma case_option_Inl_Inr_iff [ok_simps]:
  "(case m of None \<Rightarrow> Inl e | Some x \<Rightarrow> f x) = Inr y \<longleftrightarrow> (\<exists>x. m = Some x \<and> f x = Inr y)"
  by (cases m) simp_all

lemma foldE_append: "foldE f (xs @ ys) s = bindE (foldE f xs s) (foldE f ys)"
proof (induction xs arbitrary: s)
  case (Cons x xs)
  then show ?case by (cases "f x s") simp_all
qed simp

text \<open>The invariant rule of a fallible loop.\<close>

lemma foldE_invariant:
  assumes "foldE f xs s = Inr s'" and "P s"
    and "\<And>x s s'. x \<in> set xs \<Longrightarrow> P s \<Longrightarrow> f x s = Inr s' \<Longrightarrow> P s'"
  shows "P s'"
  using assms
proof (induction xs arbitrary: s)
  case Nil
  then show ?case by simp
next
  case (Cons x xs)
  from Cons.prems(1) obtain t where t: "f x s = Inr t" "foldE f xs t = Inr s'"
    by (auto simp: ok_simps)
  with Cons.prems have "P t" by auto
  with Cons.IH [OF t(2)] Cons.prems(3) show ?case by auto
qed

lemma allE_Inr_iff [ok_simps]: "allE f xs = Inr u \<longleftrightarrow> (\<forall>x \<in> set xs. isOK (f x))"
  by (induction xs) (auto simp: ok_simps isOK_iff)

section \<open>Block context\<close>

text \<open>
  What the handlers read of \<^verbatim>\<open>sdk.Context\<close>: the block time in Unix seconds (and
  the nanoseconds within it where a routine uses them), the chain id and the
  block height.
\<close>

record ctx =
  block_time :: int
  chain_id :: string
  block_height :: int

section \<open>Signed 64-bit arithmetic\<close>

text \<open>Go's \<^verbatim>\<open>int64\<close> arithmetic: the mathematical result reduced into the two's complement range.\<close>

definition i64 :: "int \<Rightarrow> int" where
  "i64 x = (x + 2 ^ 63) mod 2 ^ 64 - 2 ^ 63"

definition in_i64 :: "int \<Rightarrow> bool" where
  "in_i64 x \<longleftrightarrow> - (2 ^ 63) \<le> x \<and> x < 2 ^ 63"

lemma i64_code [code]: "i64 x = (x + 9223372036854775808) mod 18446744073709551616 - 9223372036854775808"
  by (simp add: i64_def)

lemma i64_id [simp]: "in_i64 x \<Longrightarrow> i64 x = x"
  by (simp add: in_i64_def i64_def)

lemma in_i64_i64: "in_i64 (i64 x)"
proof -
  have "0 \<le> (x + 2 ^ 63) mod 2 ^ 64" "(x + 2 ^ 63) mod 2 ^ 64 < (2 ^ 64 :: int)"
    by simp_all
  then show ?thesis by (simp add: in_i64_def i64_def)
qed

lemma in_i64_diff: "0 \<le> x \<Longrightarrow> 0 \<le> y \<Longrightarrow> in_i64 x \<Longrightarrow> in_i64 y \<Longrightarrow> in_i64 (x - y)"
  by (simp add: in_i64_def)

text \<open>Truncated division agrees with floor division on the non-negative operands the code uses it on.\<close>

lemma sdiv_nonneg: "0 \<le> a \<Longrightarrow> 0 \<le> b \<Longrightarrow> a sdiv b = a div (b :: int)"
  by (cases "a = 0"; cases "b = 0") (auto simp: signed_divide_int_def sgn_if)

text \<open>Lengths that fit a machine word survive the conversion.\<close>

lemma unat_word32_of_nat: "n < 2 ^ 32 \<Longrightarrow> unat (word_of_nat n :: 32 word) = n"
  by (simp add: unsigned_of_nat take_bit_nat_eq_self)

lemma unat_word64_of_nat: "n < 2 ^ 64 \<Longrightarrow> unat (word_of_nat n :: 64 word) = n"
  by (simp add: unsigned_of_nat take_bit_nat_eq_self)

text \<open>A counter strictly below some value increments without wrapping.\<close>

lemma unat_inc:
  fixes w q :: "'a :: len word"
  assumes "w < q"
  shows "unat (w + 1) = unat w + 1"
proof -
  have "unat q < 2 ^ LENGTH('a)" by (rule unsigned_less)
  moreover have "unat w < unat q" using assms by (simp add: word_less_nat_alt)
  ultimately have "unat w + 1 < 2 ^ LENGTH('a)" by linarith
  then show ?thesis by (simp add: unat_word_ariths)
qed

section \<open>Lists\<close>

text \<open>Sums over association lists with distinct keys are sums over their graphs.\<close>

lemma sum_list_assoc:
  assumes "distinct (map fst m)"
  shows "(\<Sum>(k, v) \<leftarrow> m. f k v) = (\<Sum>(k, v) \<in> set m. f k v)"
proof -
  from assms have "distinct m" by (metis distinct_map)
  then show ?thesis by (simp add: sum_list_distinct_conv_sum_set)
qed

lemma sum_list_nonneg_member:
  fixes f :: "'a \<Rightarrow> int"
  assumes "\<And>x. x \<in> set xs \<Longrightarrow> 0 \<le> f x" and "y \<in> set xs"
  shows "f y \<le> (\<Sum>x \<leftarrow> xs. f x)"
  using assms
proof (induction xs)
  case Nil
  then show ?case by simp
next
  case (Cons a xs)
  have "0 \<le> (\<Sum>x \<leftarrow> xs. f x)"
    using Cons.prems(1) by (intro sum_list_nonneg) auto
  with Cons show ?case by fastforce
qed

text \<open>Removing the first entries of a list by their keys leaves the rest.\<close>

lemma filter_not_taken:
  "distinct (map f xs) \<Longrightarrow> filter (\<lambda>x. f x \<notin> set (take n (map f xs))) xs = drop n xs"
proof (induction xs arbitrary: n)
  case (Cons x xs)
  show ?case
  proof (cases n)
    case 0
    then show ?thesis by simp
  next
    case (Suc m)
    have "filter (\<lambda>y. f y \<notin> set (take n (map f (x # xs)))) xs
        = filter (\<lambda>y. f y \<notin> set (take m (map f xs))) xs"
      using Cons.prems Suc by (intro filter_cong) (auto, metis image_eqI)
    with Cons Suc show ?thesis by simp
  qed
qed simp

end
