(* ===== verification/KVStore.thy ===== *)
theory KVStore
  imports Prelude
begin

text \<open>
  The key-value store under every module.  The SDK's store maps byte keys to
  values and iterates in ascending byte order; it is modelled as an association
  list kept sorted by key, so that reading, writing, deleting and iterating all
  compute.  A module that keeps records of different types under different
  prefixes has one such list per prefix, keyed by the full byte key its key
  builder emits.

  The locale \<^verbatim>\<open>ordered_store\<close> is the contract the keepers rely on; the lemmas
  proved in it (a read returns the last write, a sum over an iteration changes by
  exactly the written record, a ranged deletion touches nothing outside its
  range) are used by the components through its interpretation on the list model.
\<close>

type_synonym 'v kv = "(bytes \<times> 'v) list"

section \<open>Operations\<close>

primrec kv_get :: "'v kv \<Rightarrow> bytes \<Rightarrow> 'v option" where
  "kv_get [] k = None"
| "kv_get (e # m) k = (if fst e = k then Some (snd e) else kv_get m k)"

primrec kv_set :: "'v kv \<Rightarrow> bytes \<Rightarrow> 'v \<Rightarrow> 'v kv" where
  "kv_set [] k v = [(k, v)]"
| "kv_set (e # m) k v =
    (if k < fst e then (k, v) # e # m
     else if fst e = k then (k, v) # m
     else e # kv_set m k v)"

definition kv_delete :: "'v kv \<Rightarrow> bytes \<Rightarrow> 'v kv" where
  "kv_delete m k = filter (\<lambda>e. fst e \<noteq> k) m"

definition kv_has :: "'v kv \<Rightarrow> bytes \<Rightarrow> bool" where
  "kv_has m k \<longleftrightarrow> kv_get m k \<noteq> None"

text \<open>\<^verbatim>\<open>KVStorePrefixIterator\<close> and \<^verbatim>\<open>store.Iterator(start, end)\<close> (end exclusive).\<close>

definition kv_prefix :: "'v kv \<Rightarrow> bytes \<Rightarrow> 'v kv" where
  "kv_prefix m p = filter (\<lambda>e. prefix p (fst e)) m"

definition kv_range :: "'v kv \<Rightarrow> bytes \<Rightarrow> bytes \<Rightarrow> 'v kv" where
  "kv_range m lo hi = filter (\<lambda>e. lo \<le> fst e \<and> fst e < hi) m"

definition kv_delete_all :: "'v kv \<Rightarrow> bytes list \<Rightarrow> 'v kv" where
  "kv_delete_all m ks = foldl kv_delete m ks"

definition kv_sorted :: "'v kv \<Rightarrow> bool" where
  "kv_sorted m \<longleftrightarrow> sorted_wrt (<) (map fst m)"

section \<open>The contract of an ordered store\<close>

locale ordered_store =
  fixes get :: "'s \<Rightarrow> bytes \<Rightarrow> 'v option"
    and put :: "'s \<Rightarrow> bytes \<Rightarrow> 'v \<Rightarrow> 's"
    and del :: "'s \<Rightarrow> bytes \<Rightarrow> 's"
    and entries :: "'s \<Rightarrow> (bytes \<times> 'v) list"
    and wf :: "'s \<Rightarrow> bool"
  assumes get_put: "get (put s k v) k' = (if k' = k then Some v else get s k')"
    and get_del: "get (del s k) k' = (if k' = k then None else get s k')"
    and wf_put: "wf s \<Longrightarrow> wf (put s k v)"
    and wf_del: "wf s \<Longrightarrow> wf (del s k)"
    and entries_strict: "wf s \<Longrightarrow> sorted_wrt (<) (map fst (entries s))"
    and entries_get: "wf s \<Longrightarrow> (k, v) \<in> set (entries s) \<longleftrightarrow> get s k = Some v"
begin

lemma entries_distinct: "wf s \<Longrightarrow> distinct (map fst (entries s))"
  using entries_strict strict_sorted_iff by blast

lemma entries_graph: "wf s \<Longrightarrow> set (entries s) = {(k, v). get s k = Some v}"
  using entries_get by auto

lemma entries_sum_put:
  fixes f :: "bytes \<Rightarrow> 'v \<Rightarrow> 'a :: ab_group_add"
  assumes "wf s"
  shows "(\<Sum>(k, v) \<leftarrow> entries (put s k0 v0). f k v)
    = (\<Sum>(k, v) \<leftarrow> entries s. f k v)
      - (case get s k0 of None \<Rightarrow> 0 | Some v \<Rightarrow> f k0 v) + f k0 v0"
proof -
  let ?A = "{(k, v). get s k = Some v \<and> k \<noteq> k0}"
  have fin: "finite (set (entries s))" by simp
  have fA: "finite ?A"
    by (rule finite_subset [OF _ fin]) (auto simp: entries_graph [OF assms])
  have new: "set (entries (put s k0 v0)) = insert (k0, v0) ?A"
    using entries_graph [OF wf_put [OF assms]] by (auto simp: get_put split: if_splits)
  have old: "set (entries s) = (case get s k0 of None \<Rightarrow> ?A | Some v \<Rightarrow> insert (k0, v) ?A)"
    using entries_graph [OF assms] by (auto split: option.splits)
  have "(\<Sum>(k, v) \<in> set (entries (put s k0 v0)). f k v) = f k0 v0 + (\<Sum>(k, v) \<in> ?A. f k v)"
    using fA by (simp add: new)
  moreover have "(\<Sum>(k, v) \<in> set (entries s). f k v)
      = (case get s k0 of None \<Rightarrow> 0 | Some v \<Rightarrow> f k0 v) + (\<Sum>(k, v) \<in> ?A. f k v)"
    using fA by (simp add: old split: option.splits)
  ultimately show ?thesis
    using entries_distinct [OF assms] entries_distinct [OF wf_put [OF assms]]
    by (simp add: sum_list_assoc)
qed

lemma entries_sum_del:
  fixes f :: "bytes \<Rightarrow> 'v \<Rightarrow> 'a :: ab_group_add"
  assumes "wf s"
  shows "(\<Sum>(k, v) \<leftarrow> entries (del s k0). f k v)
    = (\<Sum>(k, v) \<leftarrow> entries s. f k v) - (case get s k0 of None \<Rightarrow> 0 | Some v \<Rightarrow> f k0 v)"
proof -
  let ?A = "{(k, v). get s k = Some v \<and> k \<noteq> k0}"
  have fin: "finite (set (entries s))" by simp
  have fA: "finite ?A"
    by (rule finite_subset [OF _ fin]) (auto simp: entries_graph [OF assms])
  have new: "set (entries (del s k0)) = ?A"
    using entries_graph [OF wf_del [OF assms]] by (auto simp: get_del split: if_splits)
  have old: "set (entries s) = (case get s k0 of None \<Rightarrow> ?A | Some v \<Rightarrow> insert (k0, v) ?A)"
    using entries_graph [OF assms] by (auto split: option.splits)
  have "(\<Sum>(k, v) \<in> set (entries s). f k v)
      = (case get s k0 of None \<Rightarrow> 0 | Some v \<Rightarrow> f k0 v) + (\<Sum>(k, v) \<in> ?A. f k v)"
    using fA by (simp add: old split: option.splits)
  then show ?thesis
    using entries_distinct [OF assms] entries_distinct [OF wf_del [OF assms]]
    by (simp add: sum_list_assoc new)
qed

lemma get_foldl_del:
  "get (foldl del s ks) k = (if k \<in> set ks then None else get s k)"
  by (induction ks arbitrary: s) (simp_all add: get_del)

lemma wf_foldl_del: "wf s \<Longrightarrow> wf (foldl del s ks)"
  by (induction ks arbitrary: s) (simp_all add: wf_del)

end

section \<open>The list model meets the contract\<close>

lemma kv_get_set: "kv_get (kv_set m k v) k' = (if k' = k then Some v else kv_get m k')"
  by (induction m) auto

lemma kv_get_delete: "kv_get (kv_delete m k) k' = (if k' = k then None else kv_get m k')"
  by (induction m) (auto simp: kv_delete_def)

lemma kv_set_keys: "fst ` set (kv_set m k v) = insert k (fst ` set m)"
  by (induction m) auto

lemma kv_sorted_set: "kv_sorted m \<Longrightarrow> kv_sorted (kv_set m k v)"
proof (induction m)
  case Nil
  then show ?case by (simp add: kv_sorted_def)
next
  case (Cons e m)
  then have m: "kv_sorted m" and e: "\<forall>x \<in> fst ` set m. fst e < x"
    by (auto simp: kv_sorted_def)
  show ?case
  proof (cases "k < fst e")
    case True
    with Cons.prems show ?thesis by (auto simp: kv_sorted_def dest: order_less_trans)
  next
    case nlt: False
    show ?thesis
    proof (cases "fst e = k")
      case True
      with m e show ?thesis by (auto simp: kv_sorted_def)
    next
      case False
      with nlt have "fst e < k" by simp
      with e have "\<forall>x \<in> fst ` set (kv_set m k v). fst e < x"
        by (simp add: kv_set_keys)
      with Cons.IH [OF m] False nlt show ?thesis by (simp add: kv_sorted_def)
    qed
  qed
qed

lemma kv_sorted_filter: "kv_sorted m \<Longrightarrow> kv_sorted (filter P m)"
  by (induction m) (auto simp: kv_sorted_def)

lemma kv_sorted_delete: "kv_sorted m \<Longrightarrow> kv_sorted (kv_delete m k)"
  by (simp add: kv_delete_def kv_sorted_filter)

lemma kv_get_mem: "kv_sorted m \<Longrightarrow> (k, v) \<in> set m \<longleftrightarrow> kv_get m k = Some v"
  by (induction m) (force simp: kv_sorted_def)+

lemma kv_get_in: "kv_get m k = Some v \<Longrightarrow> (k, v) \<in> set m"
  by (induction m) (auto split: if_splits)

lemma kv_get_None_iff: "kv_get m k = None \<longleftrightarrow> k \<notin> fst ` set m"
  by (induction m) auto

interpretation kv: ordered_store kv_get kv_set kv_delete "\<lambda>m. m" kv_sorted
  by unfold_locales
    (simp_all add: kv_get_set kv_get_delete kv_sorted_set kv_sorted_delete kv_get_mem,
     simp add: kv_sorted_def)

lemmas kv_read_simps [simp] = kv_get_set kv_get_delete kv_sorted_set kv_sorted_delete

lemma kv_has_set [simp]: "kv_has (kv_set m k v) k' \<longleftrightarrow> k' = k \<or> kv_has m k'"
  by (simp add: kv_has_def)

lemma kv_has_delete [simp]: "kv_has (kv_delete m k) k' \<longleftrightarrow> k' \<noteq> k \<and> kv_has m k'"
  by (simp add: kv_has_def)

lemma kv_sorted_Nil [simp]: "kv_sorted []"
  by (simp add: kv_sorted_def)

lemma kv_get_delete_all:
  "kv_get (kv_delete_all m ks) k = (if k \<in> set ks then None else kv_get m k)"
  unfolding kv_delete_all_def by (rule kv.get_foldl_del)

lemma kv_sorted_delete_all: "kv_sorted m \<Longrightarrow> kv_sorted (kv_delete_all m ks)"
  unfolding kv_delete_all_def by (rule kv.wf_foldl_del)

lemma kv_sorted_range: "kv_sorted m \<Longrightarrow> kv_sorted (kv_range m lo hi)"
  by (simp add: kv_range_def kv_sorted_filter)

lemma kv_ext: "kv_sorted m \<Longrightarrow> kv_sorted m' \<Longrightarrow> (\<And>k. kv_get m k = kv_get m' k) \<Longrightarrow> m = m'"
proof -
  assume s: "kv_sorted m" "kv_sorted m'" and eq: "\<And>k. kv_get m k = kv_get m' k"
  have "set m = set m'"
    using eq kv.entries_graph [OF s(1)] kv.entries_graph [OF s(2)] by simp
  moreover have "inj_on fst (set m \<union> set m')"
    using calculation kv.entries_distinct [OF s(1)] by (simp add: distinct_map)
  ultimately show "m = m'"
    using s kv.entries_distinct [OF s(1)] kv.entries_distinct [OF s(2)]
    by (intro map_sorted_distinct_set_unique [of fst])
      (auto simp: kv_sorted_def strict_sorted_imp_sorted)
qed

section \<open>Ranged deletion and rebuilding\<close>

lemma kv_delete_all_filter: "kv_delete_all m ks = filter (\<lambda>e. fst e \<notin> set ks) m"
proof (induction ks arbitrary: m)
  case Nil
  then show ?case by (simp add: kv_delete_all_def)
next
  case (Cons k ks)
  then have "kv_delete_all m (k # ks) = filter (\<lambda>e. fst e \<notin> set ks) (kv_delete m k)"
    by (simp add: kv_delete_all_def)
  also have "\<dots> = filter (\<lambda>e. fst e \<notin> set (k # ks)) m"
    unfolding kv_delete_def filter_filter by (rule filter_cong) auto
  finally show ?case .
qed

text \<open>A budgeted sweep of the entries selected by a predicate removes exactly the first ones.\<close>

lemma kv_budgeted_sweep:
  assumes "kv_sorted m"
  shows "filter P (kv_delete_all m (take n (map fst (filter P m)))) = drop n (filter P m)"
proof -
  have "filter P (kv_delete_all m (take n (map fst (filter P m))))
      = filter (\<lambda>e. fst e \<notin> set (take n (map fst (filter P m)))) (filter P m)"
    unfolding kv_delete_all_filter filter_filter by (rule filter_cong) auto
  also have "\<dots> = drop n (filter P m)"
    by (rule filter_not_taken) (rule kv.entries_distinct [OF kv_sorted_filter [OF assms]])
  finally show ?thesis .
qed

lemma kv_sweep_keeps:
  assumes "kv_sorted m" "kv_get m k = Some v" "\<not> P (k, v)"
  shows "kv_get (kv_delete_all m (take n (map fst (filter P m)))) k = Some v"
proof -
  have "k \<notin> fst ` set (filter P m)"
    using assms kv_get_mem [OF assms(1), of k] by auto
  then have "k \<notin> set (take n (map fst (filter P m)))"
    by (metis in_set_takeD list.set_map)
  with assms(2) show ?thesis by (simp add: kv_get_delete_all)
qed

lemma kv_set_append: "\<forall>k' \<in> fst ` set m. k' < k \<Longrightarrow> kv_set m k v = m @ [(k, v)]"
  by (induction m) (auto dest: order_less_imp_not_less)

text \<open>Writing the entries of a store, in iteration order, into an empty one rebuilds it.\<close>

lemma kv_rebuild: "kv_sorted m \<Longrightarrow> foldl (\<lambda>m e. kv_set m (fst e) (snd e)) [] m = m"
proof (induction m rule: rev_induct)
  case (snoc e m)
  then have "kv_sorted m" and "\<forall>k' \<in> fst ` set m. k' < fst e"
    by (auto simp: kv_sorted_def sorted_wrt_append)
  with snoc.IH show ?case using kv_set_append [of m "fst e" "snd e"] by simp
qed simp

end
