(* ===== verification/Encoding.thy ===== *)
theory Encoding
  imports Prelude
begin

text \<open>
  The byte encodings every module shares: big-endian integers
  (\<^verbatim>\<open>binary.BigEndian\<close>), single-byte and four-byte length prefixes, and the
  canonical signing string of \<^verbatim>\<open>x/identity/types/canonical.go\<close>.  Encoders that
  can be read back are instances of the locale \<^verbatim>\<open>codec\<close>, which gives their
  injectivity once.
\<close>

section \<open>The contract of an encoder\<close>

locale codec =
  fixes ok :: "'a \<Rightarrow> bool"
    and enc :: "'a \<Rightarrow> bytes"
    and dec :: "bytes \<Rightarrow> 'a option"
  assumes dec_enc: "ok x \<Longrightarrow> dec (enc x) = Some x"
begin

lemma enc_inj: "ok x \<Longrightarrow> ok y \<Longrightarrow> enc x = enc y \<longleftrightarrow> x = y"
  by (metis dec_enc option.inject)

end

section \<open>Big-endian integers\<close>

primrec be :: "nat \<Rightarrow> nat \<Rightarrow> bytes" where
  "be 0 v = []"
| "be (Suc n) v = be n (v div 256) @ [char_of v]"

definition be_dec :: "bytes \<Rightarrow> nat" where
  "be_dec s = foldl (\<lambda>a c. a * 256 + of_char c) 0 s"

definition be64 :: "64 word \<Rightarrow> bytes" where
  "be64 w = be 8 (unat w)"

definition be32 :: "32 word \<Rightarrow> bytes" where
  "be32 w = be 4 (unat w)"

text \<open>\<^verbatim>\<open>binary.BigEndian.Uint64\<close> and \<^verbatim>\<open>Uint32\<close> read the first eight or four bytes.\<close>

definition dec64 :: "bytes \<Rightarrow> 64 word" where
  "dec64 s = word_of_nat (be_dec (take 8 s))"

definition dec32 :: "bytes \<Rightarrow> 32 word" where
  "dec32 s = word_of_nat (be_dec (take 4 s))"

lemma length_be [simp]: "length (be n v) = n"
  by (induction n arbitrary: v) simp_all

lemma be_eq_Nil_iff [simp]: "be n v = [] \<longleftrightarrow> n = 0"
  using length_be [of n v] by (metis length_0_conv)

lemma unat64_less: "unat (w :: 64 word) < 256 ^ 8"
  using unsigned_less [of w, where 'a = nat] by simp

lemma unat32_less: "unat (w :: 32 word) < 256 ^ 4"
  using unsigned_less [of w, where 'a = nat] by simp

lemma length_be64 [simp]: "length (be64 w) = 8"
  by (simp add: be64_def)

lemma length_be32 [simp]: "length (be32 w) = 4"
  by (simp add: be32_def)

lemma be_dec_snoc [simp]: "be_dec (s @ [c]) = be_dec s * 256 + of_char c"
  by (simp add: be_dec_def)

lemma be_dec_Nil [simp]: "be_dec [] = 0"
  by (simp add: be_dec_def)

lemma be_dec_be: "be_dec (be n v) = v mod 256 ^ n"
proof (induction n arbitrary: v)
  case (Suc n)
  have "v mod (256 * 256 ^ n) = 256 * (v div 256 mod 256 ^ n) + v mod 256"
    by (rule mod_mult2_eq)
  with Suc show ?case by simp
qed simp

lemma be_be_dec: "length s = n \<Longrightarrow> be n (be_dec s) = s"
proof (induction s arbitrary: n rule: rev_induct)
  case (snoc c s)
  have "(be_dec s * 256 + of_char c) div 256 = be_dec s"
    by simp
  moreover have "char_of (be_dec s * 256 + of_char c) = c"
    using char_of_mod_256 [of "be_dec s * 256 + of_char c"] by simp
  ultimately show ?case using snoc by auto
qed simp

lemma be_dec_less: "be_dec s < 256 ^ length s"
proof (induction s rule: rev_induct)
  case (snoc c s)
  have "(of_char c :: nat) < 256" by simp
  with snoc show ?case unfolding be_dec_snoc length_append_singleton power_Suc by linarith
qed simp

lemma be_inj: "u < 256 ^ n \<Longrightarrow> v < 256 ^ n \<Longrightarrow> be n u = be n v \<longleftrightarrow> u = v"
  by (metis be_dec_be mod_less)

lemma dec64_be64 [simp]: "dec64 (be64 w @ s) = w"
  using unat64_less [of w] by (simp add: dec64_def be64_def be_dec_be)

lemma dec32_be32 [simp]: "dec32 (be32 w @ s) = w"
  using unat32_less [of w] by (simp add: dec32_def be32_def be_dec_be)

lemma dec64_be64_Nil [simp]: "dec64 (be64 w) = w"
  using dec64_be64 [of w "[]"] by simp

lemma dec32_be32_Nil [simp]: "dec32 (be32 w) = w"
  using dec32_be32 [of w "[]"] by simp

interpretation u64: codec "\<lambda>_. True" be64 "\<lambda>s. Some (dec64 s)"
  by unfold_locales simp

interpretation u32: codec "\<lambda>_. True" be32 "\<lambda>s. Some (dec32 s)"
  by unfold_locales simp

lemma be64_eq_iff [simp, key_simps]: "be64 a = be64 b \<longleftrightarrow> a = b"
  by (simp add: u64.enc_inj)

lemma be32_eq_iff [simp, key_simps]: "be32 a = be32 b \<longleftrightarrow> a = b"
  by (simp add: u32.enc_inj)

text \<open>Byte order on equal-width big-endian fields is numeric order.\<close>

lemma append_less_append_iff:
  fixes xs ys s t :: bytes
  assumes "length xs = length ys"
  shows "xs @ s < ys @ t \<longleftrightarrow> xs < ys \<or> xs = ys \<and> s < t"
  using assms by (induction xs ys rule: list_induct2) auto

lemma be_less_iff: "u < 256 ^ n \<Longrightarrow> v < 256 ^ n \<Longrightarrow> be n u < be n v \<longleftrightarrow> u < v"
proof (induction n arbitrary: u v)
  case (Suc n)
  have lt: "u div 256 < 256 ^ n" "v div 256 < 256 ^ n"
    using Suc.prems by (simp_all add: less_mult_imp_div_less mult.commute)
  have "be (Suc n) u < be (Suc n) v \<longleftrightarrow>
      u div 256 < v div 256 \<or> u div 256 = v div 256 \<and> u mod 256 < v mod 256"
    by (simp add: append_less_append_iff Suc.IH [OF lt] be_inj [OF lt] less_char_def)
  also have "\<dots> \<longleftrightarrow> u < v"
    using div_mult_mod_eq [of u 256] div_mult_mod_eq [of v 256]
      mod_less_divisor [of 256 u] mod_less_divisor [of 256 v] by linarith
  finally show ?case .
qed simp

lemma be64_less_iff: "be64 a < be64 b \<longleftrightarrow> a < b"
  using unat64_less [of a] unat64_less [of b]
  by (simp add: be64_def be_less_iff word_less_nat_alt)

lemma be64_append_less_iff [simp]: "be64 a @ s < be64 b @ t \<longleftrightarrow> a < b \<or> a = b \<and> s < t"
  by (simp add: append_less_append_iff be64_less_iff)

lemma be64_append_less_be64_iff [simp]: "be64 a @ s < be64 b \<longleftrightarrow> a < b"
  using be64_append_less_iff [of a s b "[]"] by simp

section \<open>Length prefixes\<close>

text \<open>The four-byte prefix: \<^verbatim>\<open>binary.BigEndian.PutUint32(lenBuf, uint32(len(field)))\<close> then the field.\<close>

definition appendLengthPrefixed :: "bytes \<Rightarrow> bytes \<Rightarrow> bytes" where
  "appendLengthPrefixed dst field = dst @ be 4 (length field) @ field"

text \<open>\<^verbatim>\<open>CanonicalMessage(domain, fields...)\<close>.\<close>

definition CanonicalMessage :: "string \<Rightarrow> bytes list \<Rightarrow> bytes" where
  "CanonicalMessage domain fs =
    foldl appendLengthPrefixed (appendLengthPrefixed [] domain) fs"

text \<open>\<^verbatim>\<open>lengthPrefixed(parts...)\<close> of the institutions keeper: the same framing without a domain field.\<close>

definition lengthPrefixed :: "bytes list \<Rightarrow> bytes" where
  "lengthPrefixed parts = foldl appendLengthPrefixed [] parts"

text \<open>The one-byte prefix of the composite store keys: \<^verbatim>\<open>byte(len(x))\<close> truncates.\<close>

definition len8 :: "bytes \<Rightarrow> bytes" where
  "len8 s = char_of (length s) # s"

lemma foldl_appendLengthPrefixed:
  "foldl appendLengthPrefixed acc fs = acc @ concat (map (\<lambda>f. be 4 (length f) @ f) fs)"
  by (induction fs arbitrary: acc) (simp_all add: appendLengthPrefixed_def)

definition short :: "bytes \<Rightarrow> bool" where
  "short f \<longleftrightarrow> length f < 2 ^ 32"

lemma framed_append_eq:
  assumes "short f" "short g"
  shows "be 4 (length f) @ f @ s = be 4 (length g) @ g @ t \<longleftrightarrow> f = g \<and> s = t"
proof
  assume eq: "be 4 (length f) @ f @ s = be 4 (length g) @ g @ t"
  then have "be 4 (length f) = be 4 (length g)" by (simp add: append_eq_append_conv)
  with assms have "length f = length g" by (simp add: be_inj short_def)
  with eq show "f = g \<and> s = t" by simp
qed simp

lemma framed_list_inj:
  assumes "list_all short fs" "list_all short gs"
    and "concat (map (\<lambda>f. be 4 (length f) @ f) fs) = concat (map (\<lambda>f. be 4 (length f) @ f) gs)"
  shows "fs = gs"
  using assms
proof (induction fs arbitrary: gs)
  case Nil
  then show ?case by (cases gs) simp_all
next
  case (Cons f fs)
  from Cons.prems(3) obtain g gs' where gs: "gs = g # gs'"
    by (cases gs) auto
  with Cons.prems have "short f" "short g" by simp_all
  with Cons.prems(3) gs have "f = g"
    and "concat (map (\<lambda>f. be 4 (length f) @ f) fs) = concat (map (\<lambda>f. be 4 (length f) @ f) gs')"
    using framed_append_eq by auto
  with Cons.IH [of gs'] Cons.prems gs show ?case by simp
qed

lemma lengthPrefixed_inj:
  "list_all short fs \<Longrightarrow> list_all short gs \<Longrightarrow> lengthPrefixed fs = lengthPrefixed gs \<longleftrightarrow> fs = gs"
  using framed_list_inj by (auto simp: lengthPrefixed_def foldl_appendLengthPrefixed)

lemma CanonicalMessage_framed: "CanonicalMessage d fs = lengthPrefixed (d # fs)"
  by (simp add: CanonicalMessage_def lengthPrefixed_def)

lemma len8_append_eq [key_simps]:
  assumes "length a < 256" "length b < 256"
  shows "len8 a @ s = len8 b @ t \<longleftrightarrow> a = b \<and> s = t"
proof
  assume eq: "len8 a @ s = len8 b @ t"
  then have "char_of (length a) = (char_of (length b) :: char)" by (simp add: len8_def)
  with assms have "length a = length b" by (metis mod_less of_char_of)
  with eq show "a = b \<and> s = t" by (simp add: len8_def)
qed simp

section \<open>Wrapping conversions\<close>

text \<open>The conversions \<^verbatim>\<open>uint64(x)\<close> and \<^verbatim>\<open>int64(w)\<close> reinterpret the 64 bits.\<close>

definition u64_of_int :: "int \<Rightarrow> 64 word" where
  "u64_of_int x = word_of_int x"

lemma u64_of_int_less_iff:
  "0 \<le> x \<Longrightarrow> 0 \<le> y \<Longrightarrow> in_i64 x \<Longrightarrow> in_i64 y \<Longrightarrow> u64_of_int x < u64_of_int y \<longleftrightarrow> x < y"
  by (simp add: u64_of_int_def word_less_def uint_word_of_int in_i64_def)

lemma u64_of_int_eq_iff:
  "0 \<le> x \<Longrightarrow> 0 \<le> y \<Longrightarrow> in_i64 x \<Longrightarrow> in_i64 y \<Longrightarrow> u64_of_int x = u64_of_int y \<longleftrightarrow> x = y"
  by (metis less_le_not_le linorder_cases u64_of_int_less_iff)

end
