(* ===== verification/MathInt.thy ===== *)
theory MathInt
  imports Encoding
begin

text \<open>
  Amounts.  The chain carries every amount as a decimal string and reads it with
  \<^verbatim>\<open>math.NewIntFromString\<close>, which is \<^verbatim>\<open>big.Int.SetString(s, 0)\<close> followed by a
  256-bit bound; it writes amounts with \<^verbatim>\<open>math.Int.String\<close>.  Base zero means the
  parser accepts a sign, the prefixes 0b, 0o, 0x and 0, and underscores between
  digits, and all of that is modelled.  The main fact is the round trip: a
  printed amount of at most 256 bits reads back as itself.

  Arithmetic on amounts uses unbounded integers.  The Go operations panic when a
  result exceeds 256 bits, which aborts the transaction, so the model describes
  the runs that do not overflow; what is stored is always read back through the
  bounded parser.
\<close>

section \<open>Reading\<close>

definition digit_val :: "char \<Rightarrow> int" where
  "digit_val c = (let n = of_char c in
     if 48 \<le> n \<and> n \<le> 57 then n - 48
     else if 97 \<le> n \<and> n \<le> 122 then n - 87
     else if 65 \<le> n \<and> n \<le> 90 then n - 55
     else 63)"

text \<open>
  The digit loop of \<^verbatim>\<open>nat.scan\<close>: base, previous character class, whether an
  underscore was misplaced, the accumulated value and the digit count; it returns
  these with the unread rest.
\<close>

fun scan_loop :: "int \<Rightarrow> char \<Rightarrow> bool \<Rightarrow> int \<Rightarrow> nat \<Rightarrow> string
    \<Rightarrow> int \<times> nat \<times> char \<times> bool \<times> string" where
  "scan_loop b prev inval acc count [] = (acc, count, prev, inval, [])"
| "scan_loop b prev inval acc count (c # s) =
    (if c = CHR ''_'' then scan_loop b CHR ''_'' (inval \<or> prev \<noteq> CHR ''0'') acc count s
     else if b \<le> digit_val c then (acc, count, prev, inval, c # s)
     else scan_loop b CHR ''0'' inval (acc * b + digit_val c) (count + 1) s)"

text \<open>The base prefix: (base, whether the prefix is the bare octal zero, previous character, count, rest).\<close>

definition scan_base :: "string \<Rightarrow> int \<times> bool \<times> char \<times> nat \<times> string" where
  "scan_base s = (case s of
      [] \<Rightarrow> (10, False, CHR ''.'', 0, s)
    | c # r \<Rightarrow>
       (if c \<noteq> CHR ''0'' then (10, False, CHR ''.'', 0, s)
        else case r of
            [] \<Rightarrow> (10, False, CHR ''0'', 1, [])
          | d # r' \<Rightarrow>
             (if d = CHR ''b'' \<or> d = CHR ''B'' then (2, False, CHR ''0'', 0, r')
              else if d = CHR ''o'' \<or> d = CHR ''O'' then (8, False, CHR ''0'', 0, r')
              else if d = CHR ''x'' \<or> d = CHR ''X'' then (16, False, CHR ''0'', 0, r')
              else (8, True, CHR ''0'', 0, r))))"

definition nat_scan :: "string \<Rightarrow> int option" where
  "nat_scan s = (case scan_base s of (b, oct, prev0, count0, rest0) \<Rightarrow>
     (case scan_loop b prev0 False 0 count0 rest0 of (acc, count, prev, inval, rest) \<Rightarrow>
        (if inval \<or> prev = CHR ''_'' then None
         else if count = 0 \<and> \<not> oct then None
         else if rest \<noteq> [] then None
         else Some acc)))"

definition SetString :: "string \<Rightarrow> int option" where
  "SetString s = (case s of
      [] \<Rightarrow> None
    | c # r \<Rightarrow>
       (if c = CHR ''-'' then map_option uminus (nat_scan r)
        else if c = CHR ''+'' then nat_scan r
        else nat_scan s))"

text \<open>\<^verbatim>\<open>MaxBitLen = 256\<close>.\<close>

definition int_limit :: int where
  "int_limit = 2 ^ 256"

definition NewIntFromString :: "string \<Rightarrow> int option" where
  "NewIntFromString s = (case SetString s of
      None \<Rightarrow> None
    | Some i \<Rightarrow> (if int_limit \<le> \<bar>i\<bar> then None else Some i))"

section \<open>Writing\<close>

function digits10 :: "int \<Rightarrow> string" where
  "digits10 n = (if n < 10 then [char_of (48 + n)]
     else digits10 (n div 10) @ [char_of (48 + n mod 10)])"
  by auto
termination by (relation "measure nat") auto

declare digits10.simps [simp del]

definition Int_String :: "int \<Rightarrow> string" where
  "Int_String i = (if i < 0 then CHR ''-'' # digits10 (- i) else digits10 i)"

section \<open>The round trip\<close>

definition is_dec :: "char \<Rightarrow> bool" where
  "is_dec c \<longleftrightarrow> 48 \<le> (of_char c :: int) \<and> (of_char c :: int) \<le> 57"

lemma is_dec_digit: "0 \<le> d \<Longrightarrow> d < 10 \<Longrightarrow> is_dec (char_of (48 + d :: int))"
  by (simp add: is_dec_def)

lemma digit_val_digit [simp]: "0 \<le> d \<Longrightarrow> d < 10 \<Longrightarrow> digit_val (char_of (48 + d)) = d"
  by (simp add: digit_val_def)

lemma is_dec_val: "is_dec c \<Longrightarrow> digit_val c < 10"
  by (auto simp: is_dec_def digit_val_def Let_def)

lemma is_dec_other [simp]:
  "\<not> is_dec CHR ''_''" "\<not> is_dec CHR ''-''" "\<not> is_dec CHR ''+''"
  by (simp_all add: is_dec_def)

lemma scan_loop_dec:
  assumes "list_all is_dec xs"
  shows "scan_loop 10 p i a k xs =
    (foldl (\<lambda>a c. a * 10 + digit_val c) a xs, k + length xs,
     if xs = [] then p else CHR ''0'', i, [])"
  using assms
proof (induction xs arbitrary: p a k)
  case (Cons c xs)
  then have "c \<noteq> CHR ''_''" by auto
  with Cons show ?case by (simp add: is_dec_val not_le)
qed simp

lemma digits10_dec: "0 \<le> n \<Longrightarrow> list_all is_dec (digits10 n)"
  by (induction n rule: digits10.induct) (subst digits10.simps, auto simp: is_dec_digit)

lemma digits10_val: "0 \<le> n \<Longrightarrow> foldl (\<lambda>a c. a * 10 + digit_val c) 0 (digits10 n) = n"
  by (induction n rule: digits10.induct) (subst digits10.simps, auto)

lemma digits10_nonempty [simp]: "digits10 n \<noteq> []"
  by (subst digits10.simps) simp

lemma hd_digits10_dec: "0 \<le> n \<Longrightarrow> is_dec (hd (digits10 n))"
  using digits10_dec [of n] by (simp add: list_all_iff)

lemma hd_digits10: "0 < n \<Longrightarrow> hd (digits10 n) \<noteq> CHR ''0''"
proof (induction n rule: digits10.induct)
  case (1 n)
  show ?case
  proof (cases "n < 10")
    case True
    have "of_char (char_of (48 + n)) \<noteq> (48 :: int)" using True 1(2) by simp
    moreover have "of_char CHR ''0'' = (48 :: int)" by simp
    ultimately have "char_of (48 + n) \<noteq> CHR ''0''" by metis
    with True show ?thesis by (subst digits10.simps) simp
  next
    case False
    with 1 have "hd (digits10 (n div 10)) \<noteq> CHR ''0''" by simp
    with False show ?thesis by (subst digits10.simps) (simp add: hd_append)
  qed
qed

lemma nat_scan_digits10:
  assumes "0 \<le> n"
  shows "nat_scan (digits10 n) = Some n"
proof (cases "n = 0")
  case True
  have "char_of (48 :: int) = CHR ''0''" by code_simp
  then have "digits10 0 = ''0''" by (subst digits10.simps) simp
  with True show ?thesis by (simp add: nat_scan_def scan_base_def)
next
  case False
  then obtain c r where d: "digits10 n = c # r" and c: "c \<noteq> CHR ''0''"
    using hd_digits10 [of n] assms by (cases "digits10 n") auto
  then have "scan_base (digits10 n) = (10, False, CHR ''.'', 0, digits10 n)"
    by (simp add: scan_base_def)
  then show ?thesis
    using scan_loop_dec [OF digits10_dec [OF assms]] digits10_val [OF assms]
    by (simp add: nat_scan_def)
qed

lemma SetString_Int_String: "SetString (Int_String i) = Some i"
proof (cases "i < 0")
  case True
  then show ?thesis by (simp add: SetString_def Int_String_def nat_scan_digits10)
next
  case False
  obtain c r where d: "digits10 i = c # r" by (cases "digits10 i") auto
  then have "is_dec c" using hd_digits10_dec [of i] False by simp
  then have "c \<noteq> CHR ''-''" "c \<noteq> CHR ''+''" by auto
  with False d show ?thesis
    by (simp add: SetString_def Int_String_def nat_scan_digits10 [of i, unfolded d])
qed

definition fits :: "int \<Rightarrow> bool" where
  "fits i \<longleftrightarrow> \<bar>i\<bar> < 2 ^ 256"

lemma int_limit_code [code]: "int_limit = 115792089237316195423570985008687907853269984665640564039457584007913129639936"
  by (simp add: int_limit_def)

lemma NewIntFromString_Int_String [simp]: "fits i \<Longrightarrow> NewIntFromString (Int_String i) = Some i"
  by (simp add: NewIntFromString_def SetString_Int_String fits_def int_limit_def)

lemma NewIntFromString_fits: "NewIntFromString s = Some i \<Longrightarrow> fits i"
  by (auto simp: NewIntFromString_def fits_def int_limit_def split: option.splits if_splits)

lemma fits_mono: "0 \<le> i \<Longrightarrow> i \<le> j \<Longrightarrow> fits j \<Longrightarrow> fits i"
  by (simp add: fits_def)

interpretation amount: codec fits Int_String NewIntFromString
  by unfold_locales simp

end
