(* ===== verification/Bank.thy ===== *)
theory Bank
  imports KVStore MathInt
begin

text \<open>
  The ledger the modules move coin on: the vendored bank keeper
  (\<^verbatim>\<open>vendor/github.com/cosmos/cosmos-sdk/x/bank/keeper\<close>) restricted to the single
  denomination the chain has, together with the module accounts and their
  permissions from \<^verbatim>\<open>app/app.go\<close>.  A value of \<^verbatim>\<open>sdk.Coins\<close> built by \<^verbatim>\<open>CoinsOf\<close>
  is its amount: \<^verbatim>\<open>sdk.NewCoins\<close> drops a zero coin, so the amount zero is the
  empty coin set, and \<^verbatim>\<open>sdk.NewCoin\<close> panics on a negative one.

  The locale \<^verbatim>\<open>bank_ledger\<close> states what the modules rely on (sends are
  supply-neutral, mint and burn move the supply by exactly their amount, and the
  supply always equals the sum of the balances) and is interpreted on the ledger.
\<close>

section \<open>Accounts\<close>

text \<open>
  What the SDK provides around the ledger: the address codec, the derivation of
  module addresses and the locked (vesting) amount of an account.  None of it is
  code of this repository's modules, so it is a parameter of the operations.
\<close>

record sdk_env =
  AccAddressFromBech32 :: "string \<Rightarrow> bytes option"
  AccAddress_String :: "bytes \<Rightarrow> string"
  ModuleAddress :: "string \<Rightarrow> bytes"
  LockedCoins :: "bytes \<Rightarrow> int"

definition ErrUnauthorized :: err where "ErrUnauthorized = Registered ''sdk'' 4"
definition ErrInsufficientFunds :: err where "ErrInsufficientFunds = Registered ''sdk'' 5"
definition ErrInvalidAddress :: err where "ErrInvalidAddress = Registered ''sdk'' 7"
definition ErrInvalidCoins :: err where "ErrInvalidCoins = Registered ''sdk'' 10"
definition ErrInvalidRequest :: err where "ErrInvalidRequest = Registered ''sdk'' 18"
definition ErrInvalidSigner :: err where "ErrInvalidSigner = Registered ''gov'' 13"

definition maccPerms :: "(string \<times> string list) list" where
  "maccPerms =
    [(''fee_collector'', []),
     (''distribution'', []),
     (''bonded_tokens_pool'', [''burner'', ''staking'']),
     (''not_bonded_tokens_pool'', [''burner'', ''staking'']),
     (''gov'', [''burner'']),
     (''institutions'', [''minter'', ''burner'']),
     (''identity'', []),
     (''phi_revenue'', [])]"

definition HasPermission :: "string \<Rightarrow> string \<Rightarrow> bool" where
  "HasPermission m p = (case map_of maccPerms m of None \<Rightarrow> False | Some ps \<Rightarrow> List.member ps p)"

text \<open>\<^verbatim>\<open>App.BlockedAddresses\<close>: every module account except gov's.\<close>

definition BlockedAddr :: "sdk_env \<Rightarrow> bytes \<Rightarrow> bool" where
  "BlockedAddr E a \<longleftrightarrow>
    list_ex (\<lambda>mp. ModuleAddress E (fst mp) = a) maccPerms \<and> a \<noteq> ModuleAddress E ''gov''"

section \<open>The ledger\<close>

record bank =
  balances :: "int kv"
  total_supply :: int

definition GetBalance :: "bank \<Rightarrow> bytes \<Rightarrow> int" where
  "GetBalance b a = (case kv_get (balances b) a of None \<Rightarrow> 0 | Some x \<Rightarrow> x)"

definition setBalance :: "bank \<Rightarrow> bytes \<Rightarrow> int \<Rightarrow> bank res" where
  "setBalance b a x =
    (if x < 0 then Inl ErrInvalidCoins
     else if x = 0 then Inr (b\<lparr>balances := kv_delete (balances b) a\<rparr>)
     else Inr (b\<lparr>balances := kv_set (balances b) a x\<rparr>))"

definition subUnlockedCoins :: "sdk_env \<Rightarrow> bank \<Rightarrow> bytes \<Rightarrow> int \<Rightarrow> bank res" where
  "subUnlockedCoins E b a amt =
    (if amt = 0 then Inr b
     else
      (let balance = GetBalance b a;
           locked = LockedCoins E a in
       if balance - locked < 0 then Inl ErrInsufficientFunds
       else if balance - locked - amt < 0 then Inl ErrInsufficientFunds
       else setBalance b a (balance - amt)))"

definition addCoins :: "bank \<Rightarrow> bytes \<Rightarrow> int \<Rightarrow> bank res" where
  "addCoins b a amt = (if amt = 0 then Inr b else setBalance b a (GetBalance b a + amt))"

definition SendCoins :: "sdk_env \<Rightarrow> bank \<Rightarrow> bytes \<Rightarrow> bytes \<Rightarrow> int \<Rightarrow> bank res" where
  "SendCoins E b from_addr to_addr amt =
    (if amt < 0 then Inl ErrInvalidCoins
     else bindE (subUnlockedCoins E b from_addr amt) (\<lambda>b. addCoins b to_addr amt))"

definition SendCoinsFromModuleToAccount ::
    "sdk_env \<Rightarrow> bank \<Rightarrow> string \<Rightarrow> bytes \<Rightarrow> int \<Rightarrow> bank res" where
  "SendCoinsFromModuleToAccount E b m to_addr amt =
    (if map_of maccPerms m = None then Inl (Panic ''module account does not exist'')
     else if BlockedAddr E to_addr then Inl ErrUnauthorized
     else SendCoins E b (ModuleAddress E m) to_addr amt)"

definition SendCoinsFromModuleToModule ::
    "sdk_env \<Rightarrow> bank \<Rightarrow> string \<Rightarrow> string \<Rightarrow> int \<Rightarrow> bank res" where
  "SendCoinsFromModuleToModule E b m n amt =
    (if map_of maccPerms m = None \<or> map_of maccPerms n = None
     then Inl (Panic ''module account does not exist'')
     else SendCoins E b (ModuleAddress E m) (ModuleAddress E n) amt)"

definition SendCoinsFromAccountToModule ::
    "sdk_env \<Rightarrow> bank \<Rightarrow> bytes \<Rightarrow> string \<Rightarrow> int \<Rightarrow> bank res" where
  "SendCoinsFromAccountToModule E b from_addr m amt =
    (if map_of maccPerms m = None then Inl (Panic ''module account does not exist'')
     else SendCoins E b from_addr (ModuleAddress E m) amt)"

definition MintCoins :: "sdk_env \<Rightarrow> bank \<Rightarrow> string \<Rightarrow> int \<Rightarrow> bank res" where
  "MintCoins E b m amt =
    (if map_of maccPerms m = None then Inl (Panic ''module account does not exist'')
     else if \<not> HasPermission m ''minter'' then Inl (Panic ''no permission to mint'')
     else if amt < 0 then Inl ErrInvalidCoins
     else bindE (addCoins b (ModuleAddress E m) amt) (\<lambda>b.
            Inr (b\<lparr>total_supply := total_supply b + amt\<rparr>)))"

definition BurnCoins :: "sdk_env \<Rightarrow> bank \<Rightarrow> string \<Rightarrow> int \<Rightarrow> bank res" where
  "BurnCoins E b m amt =
    (if map_of maccPerms m = None then Inl (Panic ''module account does not exist'')
     else if \<not> HasPermission m ''burner'' then Inl (Panic ''no permission to burn'')
     else if amt < 0 then Inl ErrInvalidCoins
     else bindE (subUnlockedCoins E b (ModuleAddress E m) amt) (\<lambda>b.
            Inr (b\<lparr>total_supply := total_supply b - amt\<rparr>)))"

section \<open>Invariant\<close>

definition total_balances :: "bank \<Rightarrow> int" where
  "total_balances b = (\<Sum>(a, x) \<leftarrow> balances b. x)"

definition bank_inv :: "bank \<Rightarrow> bool" where
  "bank_inv b \<longleftrightarrow> kv_sorted (balances b) \<and> list_all (\<lambda>e. 0 < snd e) (balances b)
     \<and> total_supply b = total_balances b"

section \<open>The contract\<close>

locale bank_ledger =
  fixes inv :: "'b \<Rightarrow> bool"
    and sup :: "'b \<Rightarrow> int"
    and send :: "'b \<Rightarrow> bytes \<Rightarrow> bytes \<Rightarrow> int \<Rightarrow> 'b res"
    and mint :: "'b \<Rightarrow> string \<Rightarrow> int \<Rightarrow> 'b res"
    and burn :: "'b \<Rightarrow> string \<Rightarrow> int \<Rightarrow> 'b res"
  assumes send_inv: "inv b \<Longrightarrow> send b x y n = Inr b' \<Longrightarrow> inv b'"
    and mint_inv: "inv b \<Longrightarrow> mint b m n = Inr b' \<Longrightarrow> inv b'"
    and burn_inv: "inv b \<Longrightarrow> burn b m n = Inr b' \<Longrightarrow> inv b'"
    and send_supply: "send b x y n = Inr b' \<Longrightarrow> sup b' = sup b"
    and mint_supply: "mint b m n = Inr b' \<Longrightarrow> sup b' = sup b + n"
    and burn_supply: "burn b m n = Inr b' \<Longrightarrow> sup b' = sup b - n"
begin

text \<open>Any run of sends, in whatever order and between whatever accounts, is supply-neutral.\<close>

lemma sends_supply:
  "foldE (\<lambda>(x, y, n) b. send b x y n) ops b = Inr b' \<Longrightarrow> sup b' = sup b"
  by (rule foldE_invariant [where P = "\<lambda>c. sup c = sup b"]) (auto simp: send_supply)

lemma sends_inv:
  "foldE (\<lambda>(x, y, n) b. send b x y n) ops b = Inr b' \<Longrightarrow> inv b \<Longrightarrow> inv b'"
  by (erule foldE_invariant) (auto intro: send_inv)

text \<open>Minting into a module account and paying it out raises the total_supply by the amount minted.\<close>

lemma mint_then_send_supply:
  "bindE (mint b m n) (\<lambda>b. send b x y k) = Inr b' \<Longrightarrow> sup b' = sup b + n"
  using mint_supply send_supply by (fastforce simp: ok_simps)

end

section \<open>The ledger meets the contract\<close>

lemma setBalance_ok [ok_simps]:
  "setBalance b a x = Inr b' \<longleftrightarrow> 0 \<le> x \<and>
     b' = b\<lparr>balances := if x = 0 then kv_delete (balances b) a else kv_set (balances b) a x\<rparr>"
  by (auto simp: setBalance_def)

lemma setBalance_supply: "setBalance b a x = Inr b' \<Longrightarrow> total_supply b' = total_supply b"
  by (auto simp: ok_simps)

lemma GetBalance_setBalance:
  "setBalance b a x = Inr b' \<Longrightarrow> GetBalance b' c = (if c = a then x else GetBalance b c)"
  by (auto simp: ok_simps GetBalance_def)

lemma total_setBalance:
  assumes "kv_sorted (balances b)" "setBalance b a x = Inr b'"
  shows "total_balances b' = total_balances b - GetBalance b a + x"
proof -
  have "total_balances b' =
    (\<Sum>(k, v) \<leftarrow> (if x = 0 then kv_delete (balances b) a else kv_set (balances b) a x). v)"
    using assms(2) by (simp add: ok_simps total_balances_def)
  also have "\<dots> = total_balances b - GetBalance b a + x"
    using kv.entries_sum_put [OF assms(1), of "\<lambda>_ v. v" a x]
      kv.entries_sum_del [OF assms(1), of "\<lambda>_ v. v" a]
    by (simp add: total_balances_def GetBalance_def split: option.splits)
  finally show ?thesis .
qed

lemma kv_set_pos:
  "list_all (\<lambda>e. 0 < snd e) m \<Longrightarrow> 0 < x \<Longrightarrow> list_all (\<lambda>e. 0 < snd e) (kv_set m k (x :: int))"
  by (induction m) auto

lemma setBalance_pos:
  "list_all (\<lambda>e. 0 < snd e) (balances b) \<Longrightarrow> setBalance b a x = Inr b'
    \<Longrightarrow> list_all (\<lambda>e. 0 < snd e) (balances b')"
  by (auto simp: ok_simps kv_set_pos) (simp add: kv_delete_def list_all_iff)

lemma setBalance_sorted:
  "kv_sorted (balances b) \<Longrightarrow> setBalance b a x = Inr b' \<Longrightarrow> kv_sorted (balances b')"
  by (auto simp: ok_simps)

lemma subUnlockedCoins_ok [ok_simps]:
  "subUnlockedCoins E b a amt = Inr b' \<longleftrightarrow>
    (if amt = 0 then b' = b
     else amt \<le> GetBalance b a - LockedCoins E a \<and> LockedCoins E a \<le> GetBalance b a
       \<and> setBalance b a (GetBalance b a - amt) = Inr b')"
  by (auto simp: subUnlockedCoins_def Let_def)

lemma addCoins_ok [ok_simps]:
  "addCoins b a amt = Inr b' \<longleftrightarrow>
    (if amt = 0 then b' = b else setBalance b a (GetBalance b a + amt) = Inr b')"
  by (auto simp: addCoins_def)

definition moved :: "bank \<Rightarrow> int \<Rightarrow> bank \<Rightarrow> bool" where
  "moved b d b' \<longleftrightarrow> total_supply b' = total_supply b \<and>
    (kv_sorted (balances b) \<longrightarrow>
      kv_sorted (balances b') \<and> total_balances b' = total_balances b + d) \<and>
    (list_all (\<lambda>e. 0 < snd e) (balances b) \<longrightarrow> list_all (\<lambda>e. 0 < snd e) (balances b'))"

lemma moved_trans: "moved a d b \<Longrightarrow> moved b e c \<Longrightarrow> moved a (d + e) c"
  by (simp add: moved_def)

lemma moved_setBalance:
  "setBalance b a x = Inr b' \<Longrightarrow> moved b (x - GetBalance b a) b'"
  unfolding moved_def
  using setBalance_supply setBalance_sorted total_setBalance setBalance_pos by fastforce

lemma moved_sub: "subUnlockedCoins E b a n = Inr b' \<Longrightarrow> moved b (- n) b'"
  using moved_setBalance [of b a "GetBalance b a - n" b']
  by (auto simp: ok_simps moved_def split: if_splits)

lemma moved_add: "addCoins b a n = Inr b' \<Longrightarrow> moved b n b'"
  using moved_setBalance [of b a "GetBalance b a + n" b']
  by (auto simp: ok_simps moved_def split: if_splits)

lemma moved_send: "SendCoins E b x y n = Inr b' \<Longrightarrow> moved b 0 b'"
  unfolding SendCoins_def
  using moved_trans moved_sub moved_add by (fastforce simp: ok_simps)

lemma moved_inv: "moved b 0 b' \<Longrightarrow> bank_inv b \<Longrightarrow> bank_inv b'"
  by (simp add: moved_def bank_inv_def)

lemma mint_moved:
  assumes "MintCoins E b m n = Inr b'"
  shows "total_supply b' = total_supply b + n \<and> (bank_inv b \<longrightarrow> bank_inv b')"
proof -
  from assms obtain c where c: "addCoins b (ModuleAddress E m) n = Inr c"
    and b': "b' = c\<lparr>total_supply := total_supply c + n\<rparr>"
    by (auto simp: MintCoins_def ok_simps split: if_splits)
  from moved_add [OF c] b' show ?thesis
    by (auto simp: moved_def bank_inv_def total_balances_def)
qed

lemma burn_moved:
  assumes "BurnCoins E b m n = Inr b'"
  shows "total_supply b' = total_supply b - n \<and> (bank_inv b \<longrightarrow> bank_inv b')"
proof -
  from assms obtain c where c: "subUnlockedCoins E b (ModuleAddress E m) n = Inr c"
    and b': "b' = c\<lparr>total_supply := total_supply c - n\<rparr>"
    by (auto simp: BurnCoins_def ok_simps split: if_splits)
  from moved_sub [OF c] b' show ?thesis
    by (auto simp: moved_def bank_inv_def total_balances_def)
qed

interpretation ledger: bank_ledger bank_inv total_supply "SendCoins E" "MintCoins E" "BurnCoins E" for E
proof unfold_locales
  show "total_supply b' = total_supply b" if "SendCoins E b x y n = Inr b'" for b x y n b'
    using moved_send [OF that] by (simp add: moved_def)
  show "bank_inv b'" if "bank_inv b" "SendCoins E b x y n = Inr b'" for b x y n b'
    using moved_inv [OF moved_send [OF that(2)] that(1)] .
qed (use mint_moved burn_moved in blast)+

text \<open>The module-account variants are sends.\<close>

lemma module_sends_are_sends:
  "SendCoinsFromModuleToAccount E b m y n = Inr b' \<Longrightarrow> SendCoins E b (ModuleAddress E m) y n = Inr b'"
  "SendCoinsFromModuleToModule E b m m' n = Inr b'
    \<Longrightarrow> SendCoins E b (ModuleAddress E m) (ModuleAddress E m') n = Inr b'"
  "SendCoinsFromAccountToModule E b x m n = Inr b' \<Longrightarrow> SendCoins E b x (ModuleAddress E m) n = Inr b'"
  by (auto simp: SendCoinsFromModuleToAccount_def SendCoinsFromModuleToModule_def
      SendCoinsFromAccountToModule_def split: if_splits)

lemma module_sends_supply:
  "SendCoinsFromModuleToAccount E b m y n = Inr b' \<Longrightarrow> total_supply b' = total_supply b"
  "SendCoinsFromModuleToModule E b m m' n = Inr b' \<Longrightarrow> total_supply b' = total_supply b"
  "SendCoinsFromAccountToModule E b x m n = Inr b' \<Longrightarrow> total_supply b' = total_supply b"
  by (auto dest!: module_sends_are_sends ledger.send_supply)

lemma module_sends_inv:
  "SendCoinsFromModuleToAccount E b m y n = Inr b' \<Longrightarrow> bank_inv b \<Longrightarrow> bank_inv b'"
  "SendCoinsFromModuleToModule E b m m' n = Inr b' \<Longrightarrow> bank_inv b \<Longrightarrow> bank_inv b'"
  "SendCoinsFromAccountToModule E b x m n = Inr b' \<Longrightarrow> bank_inv b \<Longrightarrow> bank_inv b'"
  by (auto dest!: module_sends_are_sends intro: ledger.send_inv)

lemma send_balances:
  assumes "SendCoins E b x y n = Inr b'"
  shows "GetBalance b' c = GetBalance b c - (if c = x then n else 0) + (if c = y then n else 0)"
  using assms unfolding SendCoins_def
  by (auto simp: bindE_Inr_iff subUnlockedCoins_ok addCoins_ok GetBalance_setBalance
      split: if_splits)

lemma bank_inv_nonneg: "bank_inv b \<Longrightarrow> 0 \<le> GetBalance b a"
  using kv_get_mem [of "balances b" a]
  by (fastforce simp: bank_inv_def GetBalance_def list_all_iff split: option.splits)

lemma bank_inv_supply_nonneg: "bank_inv b \<Longrightarrow> 0 \<le> total_supply b"
  unfolding bank_inv_def total_balances_def
  by (auto intro!: sum_list_nonneg simp: list_all_iff) (metis less_imp_le snd_conv)

lemma bank_inv_balance_le: "bank_inv b \<Longrightarrow> GetBalance b a \<le> total_supply b"
proof -
  assume inv: "bank_inv b"
  show ?thesis
  proof (cases "kv_get (balances b) a")
    case None
    then show ?thesis using bank_inv_supply_nonneg [OF inv] by (simp add: GetBalance_def)
  next
    case (Some x)
    with inv have "(a, x) \<in> set (balances b)" by (simp add: bank_inv_def kv_get_mem)
    moreover have "\<And>e. e \<in> set (balances b) \<Longrightarrow> 0 \<le> (case e of (a, x) \<Rightarrow> x)"
      using inv by (auto simp: bank_inv_def list_all_iff less_imp_le)
    ultimately have "x \<le> total_balances b"
      unfolding total_balances_def
      using sum_list_nonneg_member [of "balances b" "\<lambda>(a, x). x" "(a, x)"] by auto
    with Some inv show ?thesis by (simp add: GetBalance_def bank_inv_def)
  qed
qed

lemma send_possible:
  assumes "bank_inv b" "0 \<le> n" "0 \<le> LockedCoins E x" "n \<le> GetBalance b x - LockedCoins E x"
  obtains b' where "SendCoins E b x y n = Inr b'"
proof (cases "n = 0")
  case True
  then show thesis using that by (simp add: SendCoins_def subUnlockedCoins_def addCoins_def)
next
  case False
  obtain b1 where b1: "setBalance b x (GetBalance b x - n) = Inr b1"
    using assms by (auto simp: setBalance_ok)
  have "0 \<le> GetBalance b1 y + n"
    using GetBalance_setBalance [OF b1, of y] bank_inv_nonneg [OF assms(1), of y] assms by auto
  then obtain b2 where "setBalance b1 y (GetBalance b1 y + n) = Inr b2"
    by (auto simp: setBalance_ok)
  with b1 False assms show thesis
    using that by (auto simp: SendCoins_def bindE_Inr_iff subUnlockedCoins_def addCoins_def Let_def)
qed

end
