(* ===== verification/StoreEntry.thy ===== *)
theory StoreEntry
  imports Encoding "HOL-Library.Multiset"
begin

text \<open>
  The genesis store-entry validator (\<^verbatim>\<open>internal/storeentry/storeentry.go\<close>) and the
  prefix narrowing of \<^verbatim>\<open>internal/storeprefix/storeprefix.go\<close>.  Every module whose
  genesis carries raw records passes them through \<^verbatim>\<open>Validate\<close>; the lemmas show
  what an accepted list guarantees and that the verdict does not depend on the
  order the rules are declared in.
\<close>

record KV =
  Key :: bytes
  Value :: bytes

record Rule =
  rule_Name :: string
  rule_Prefix :: bytes
  rule_Value :: "(bytes \<Rightarrow> unit res) option"

definition MaxValueLen :: nat where
  "MaxValueLen = 4096"

definition applies :: "bytes \<Rightarrow> Rule \<Rightarrow> bool" where
  "applies key r \<longleftrightarrow> length (rule_Prefix r) < length key
     \<and> take (length (rule_Prefix r)) key = rule_Prefix r"

primrec match :: "bytes \<Rightarrow> Rule list \<Rightarrow> Rule option" where
  "match key [] = None"
| "match key (r # rs) = (if applies key r then Some r else match key rs)"

text \<open>One pass of the loop body; the keys already seen are the loop's map.\<close>

primrec validate_loop :: "Rule list \<Rightarrow> bytes list \<Rightarrow> KV list \<Rightarrow> unit res" where
  "validate_loop ordered seen [] = Inr ()"
| "validate_loop ordered seen (e # es) =
    (if Key e \<in> set seen then Inl (Plain ''duplicate key'')
     else if MaxValueLen < length (Value e) then Inl (Plain ''value exceeds the ceiling'')
     else case match (Key e) ordered of
         None \<Rightarrow> Inl (Plain ''key is not under an exported store prefix'')
       | Some rule \<Rightarrow>
          (case rule_Value rule of
             None \<Rightarrow> validate_loop ordered (Key e # seen) es
           | Some check \<Rightarrow>
              bindE (check (Value e)) (\<lambda>_. validate_loop ordered (Key e # seen) es)))"

text \<open>\<^verbatim>\<open>sort.SliceStable\<close> by descending prefix length, then the loop.\<close>

definition Validate :: "KV list \<Rightarrow> Rule list \<Rightarrow> unit res" where
  "Validate entries rules =
    validate_loop (sort_key (\<lambda>r. - int (length (rule_Prefix r))) rules) [] entries"

section \<open>Value checks\<close>

definition FixedLen :: "nat \<Rightarrow> bytes \<Rightarrow> unit res" where
  "FixedLen n v = (if length v \<noteq> n then Inl (Plain ''wrong width'') else Inr ())"

definition NonEmpty :: "bytes \<Rightarrow> unit res" where
  "NonEmpty v = (if length v = 0 then Inl (Plain ''value is empty'') else Inr ())"

definition BoundedUint64 :: "64 word \<Rightarrow> bytes \<Rightarrow> unit res" where
  "BoundedUint64 ceiling v =
    (if length v \<noteq> 8 then Inl (Plain ''wrong width'')
     else if ceiling \<le> dec64 v then Inl (Plain ''at or above the ceiling'')
     else Inr ())"

definition Uint64NoOverflow :: "bytes \<Rightarrow> unit res" where
  "Uint64NoOverflow = BoundedUint64 (- 1)"

definition OneOfLen :: "nat list \<Rightarrow> bytes \<Rightarrow> unit res" where
  "OneOfLen ns v =
    (if list_ex (\<lambda>n. length v = n) ns then Inr () else Inl (Plain ''wrong width''))"

definition Under :: "(bytes \<times> bytes) list \<Rightarrow> bytes \<Rightarrow> (bytes \<times> bytes) list" where
  "Under dump pre =
    filter (\<lambda>kv. length pre \<le> length (fst kv) \<and> take (length pre) (fst kv) = pre) dump"

section \<open>Facts\<close>

lemma applies_iff: "applies key r \<longleftrightarrow> strict_prefix (rule_Prefix r) key"
proof
  assume "applies key r"
  then show "strict_prefix (rule_Prefix r) key"
    unfolding applies_def by (metis order_less_irrefl strict_prefixI take_is_prefix)
next
  assume "strict_prefix (rule_Prefix r) key"
  then obtain z zs where "key = rule_Prefix r @ z # zs" by (elim strict_prefixE')
  then show "applies key r" by (simp add: applies_def)
qed

text \<open>The rule that decides a key: it applies, and no applicable rule has a longer prefix.\<close>

definition decides :: "bytes \<Rightarrow> Rule list \<Rightarrow> Rule \<Rightarrow> bool" where
  "decides key rules r \<longleftrightarrow> r \<in> set rules \<and> applies key r
     \<and> (\<forall>r' \<in> set rules. applies key r' \<longrightarrow> length (rule_Prefix r') \<le> length (rule_Prefix r))"

lemma match_None_iff: "match key rs = None \<longleftrightarrow> (\<forall>r \<in> set rs. \<not> applies key r)"
  by (induction rs) auto

lemma match_decides:
  assumes "sorted (map (\<lambda>r. - int (length (rule_Prefix r))) rs)" "match key rs = Some r"
  shows "decides key rs r"
  using assms
proof (induction rs)
  case (Cons q rs)
  show ?case
  proof (cases "applies key q")
    case True
    with Cons.prems show ?thesis by (auto simp: decides_def)
  next
    case False
    with Cons show ?thesis by (auto simp: decides_def)
  qed
qed simp

lemma decides_unique:
  assumes "decides key rules r" "decides key rules r'" "inj_on rule_Prefix (set rules)"
  shows "r = r'"
proof -
  from assms(1,2) have "length (rule_Prefix r) = length (rule_Prefix r')"
    unfolding decides_def by (meson le_antisym)
  with assms(1,2) have "rule_Prefix r = rule_Prefix r'"
    unfolding decides_def applies_def by metis
  with assms show ?thesis by (meson decides_def inj_onD)
qed

definition value_ok :: "Rule \<Rightarrow> bytes \<Rightarrow> bool" where
  "value_ok r v \<longleftrightarrow> (case rule_Value r of None \<Rightarrow> True | Some check \<Rightarrow> isOK (check v))"

lemma validate_loop_iff:
  "isOK (validate_loop rs seen es) \<longleftrightarrow>
    distinct (map Key es) \<and> set seen \<inter> set (map Key es) = {} \<and>
    (\<forall>e \<in> set es. length (Value e) \<le> MaxValueLen
       \<and> (\<exists>r. match (Key e) rs = Some r \<and> value_ok r (Value e)))"
proof (induction es arbitrary: seen)
  case (Cons e es)
  have "isOK (validate_loop rs seen (e # es)) \<longleftrightarrow>
      Key e \<notin> set seen \<and> length (Value e) \<le> MaxValueLen
      \<and> (\<exists>r. match (Key e) rs = Some r \<and> value_ok r (Value e))
      \<and> isOK (validate_loop rs (Key e # seen) es)"
    by (auto simp: value_ok_def isOK_iff [symmetric]
        split: option.splits) (auto simp: isOK_iff)
  then show ?case by (auto simp: Cons.IH)
qed simp

lemma sorted_rules: "sorted (map (\<lambda>r. - int (length (rule_Prefix r)))
    (sort_key (\<lambda>r. - int (length (rule_Prefix r))) rules))"
  by (rule sorted_sort_key)

lemma Validate_iff:
  assumes "inj_on rule_Prefix (set rules)"
  shows "isOK (Validate es rules) \<longleftrightarrow>
    distinct (map Key es) \<and>
    (\<forall>e \<in> set es. length (Value e) \<le> MaxValueLen
       \<and> (\<exists>r. decides (Key e) rules r \<and> value_ok r (Value e)))"
proof -
  let ?rs = "sort_key (\<lambda>r. - int (length (rule_Prefix r))) rules"
  have dec: "decides key ?rs r \<longleftrightarrow> decides key rules r" for key r
    by (simp add: decides_def)
  have "match key ?rs = Some r \<longleftrightarrow> decides key rules r" for key r
  proof
    assume "match key ?rs = Some r"
    then show "decides key rules r"
      using match_decides [OF sorted_rules] dec by blast
  next
    assume d: "decides key rules r"
    then obtain q where q: "match key ?rs = Some q"
      using match_None_iff [of key ?rs] by (auto simp: decides_def)
    then have "decides key rules q"
      using match_decides [OF sorted_rules] dec by blast
    with d assms q show "match key ?rs = Some r" using decides_unique by blast
  qed
  then show ?thesis by (simp add: Validate_def validate_loop_iff)
qed

text \<open>Acceptance depends on the rules as a set, not on their order.\<close>

lemma Validate_perm:
  assumes "inj_on rule_Prefix (set rules)" "mset rules = mset rules'"
  shows "isOK (Validate es rules) = isOK (Validate es rules')"
proof -
  from assms(2) have eq: "set rules = set rules'" by (rule mset_eq_setD)
  with assms(1) show ?thesis by (simp add: Validate_iff decides_def)
qed

lemma Uint64NoOverflow_iff: "isOK (Uint64NoOverflow v) \<longleftrightarrow> length v = 8 \<and> dec64 v < - 1"
  by (auto simp: Uint64NoOverflow_def BoundedUint64_def isOK_def)

end
