(* ===== verification/CoinAge.thy ===== *)
theory CoinAge
  imports MathInt
begin

text \<open>
  The FIFO coin-age core (\<^verbatim>\<open>x/coin/types/coin_age.go\<close>): a holder's queue of lots,
  oldest first, each with the time it was acquired.  Spending consumes the oldest
  lots, inserting keeps the order, and a queue longer than its bound merges its two
  oldest lots.  The lemmas show that no operation creates or destroys tracked coin,
  that the order is kept, and that a merge takes a weighted mean of the two times, rounded
  towards young.
\<close>

record CoinLot =
  lot_Amount :: string
  lot_AcquiredAt :: int

definition DefaultMaxCoinAgeLots :: "32 word" where
  "DefaultMaxCoinAgeLots = 64"

definition BpsDenominator :: int where
  "BpsDenominator = 10000"

definition parseAmount :: "string \<Rightarrow> int" where
  "parseAmount s = (case NewIntFromString s of
      None \<Rightarrow> 0
    | Some v \<Rightarrow> (if v < 0 then 0 else v))"

definition LotAmount :: "CoinLot \<Rightarrow> int" where
  "LotAmount l = parseAmount (lot_Amount l)"

definition TotalLots :: "CoinLot list \<Rightarrow> int" where
  "TotalLots lots = foldl (\<lambda>total l. total + LotAmount l) 0 lots"

definition IsOld :: "int \<Rightarrow> int \<Rightarrow> int \<Rightarrow> bool" where
  "IsOld acquiredAt now thresholdSeconds \<longleftrightarrow> thresholdSeconds \<le> i64 (now - acquiredAt)"

text \<open>
  \<^verbatim>\<open>PenaltyForLots\<close> reads three fields of the module parameters: the two rates in
  basis points and the age threshold.
\<close>

definition PenaltyForLots :: "CoinLot list \<Rightarrow> int \<Rightarrow> 32 word \<Rightarrow> 32 word \<Rightarrow> int \<Rightarrow> int" where
  "PenaltyForLots lots now young_bps old_bps threshold =
    foldl (\<lambda>penalty l.
      let bps = (if IsOld (lot_AcquiredAt l) now threshold then int (unat old_bps)
                 else int (unat young_bps))
      in penalty + LotAmount l * bps sdiv BpsDenominator) 0 lots"

text \<open>
  The loop of \<^verbatim>\<open>SpendOldestFirst\<close>: the consumed lots, the remaining queue (a split lot
  first), and what is still to be consumed when the queue runs out.
\<close>

primrec spend_loop :: "CoinLot list \<Rightarrow> int \<Rightarrow> CoinLot list \<times> CoinLot list \<times> int" where
  "spend_loop [] left = ([], [], left)"
| "spend_loop (l # lots) left =
    (if \<not> 0 < left then ([], l # lots, left)
     else if LotAmount l \<le> left then
       (case spend_loop lots (left - LotAmount l) of (consumed, remaining, left') \<Rightarrow>
          (\<lparr>lot_Amount = Int_String (LotAmount l), lot_AcquiredAt = lot_AcquiredAt l\<rparr> # consumed,
           remaining, left'))
     else
       ([\<lparr>lot_Amount = Int_String left, lot_AcquiredAt = lot_AcquiredAt l\<rparr>],
        \<lparr>lot_Amount = Int_String (LotAmount l - left), lot_AcquiredAt = lot_AcquiredAt l\<rparr> # lots,
        0))"

definition SpendOldestFirst ::
    "CoinLot list \<Rightarrow> int \<Rightarrow> int \<Rightarrow> int \<Rightarrow> CoinLot list \<times> CoinLot list" where
  "SpendOldestFirst lots amount now thresholdSeconds =
    (case spend_loop lots amount of (consumed, remaining, left) \<Rightarrow>
      (if 0 < left
       then consumed @ [\<lparr>lot_Amount = Int_String left,
                         lot_AcquiredAt = i64 (now - thresholdSeconds)\<rparr>]
       else consumed,
       remaining))"

definition mergedAcquiredAt :: "CoinLot \<Rightarrow> CoinLot \<Rightarrow> int" where
  "mergedAcquiredAt older newer =
    (let delta = i64 (lot_AcquiredAt newer - lot_AcquiredAt older) in
     if delta \<le> 0 then lot_AcquiredAt older
     else
      (let total = LotAmount older + LotAmount newer in
       if \<not> 0 < total then lot_AcquiredAt older
       else
        (let num = LotAmount newer * delta in
         i64 (lot_AcquiredAt older + (num + total - 1) sdiv total))))"

definition mergeOldest :: "CoinLot \<Rightarrow> CoinLot \<Rightarrow> CoinLot" where
  "mergeOldest a b =
    \<lparr>lot_Amount = Int_String (LotAmount a + LotAmount b),
     lot_AcquiredAt = mergedAcquiredAt a b\<rparr>"

fun bound_loop :: "32 word \<Rightarrow> CoinLot list \<Rightarrow> CoinLot list" where
  "bound_loop maxLots (a # b # rest) =
    (if maxLots < word_of_nat (length (a # b # rest))
     then bound_loop maxLots (mergeOldest a b # rest)
     else a # b # rest)"
| "bound_loop maxLots lots = lots"

definition BoundLots :: "CoinLot list \<Rightarrow> 32 word \<Rightarrow> CoinLot list" where
  "BoundLots lots maxLots =
    bound_loop (if maxLots = 0 then DefaultMaxCoinAgeLots else maxLots) lots"

definition InsertLot :: "CoinLot list \<Rightarrow> CoinLot \<Rightarrow> 32 word \<Rightarrow> CoinLot list" where
  "InsertLot lots lot maxLots =
    (if \<not> 0 < LotAmount lot then lots
     else
      BoundLots
        (takeWhile (\<lambda>l. \<not> lot_AcquiredAt lot < lot_AcquiredAt l) lots @ lot #
         dropWhile (\<lambda>l. \<not> lot_AcquiredAt lot < lot_AcquiredAt l) lots) maxLots)"

section \<open>Amounts\<close>

lemma parseAmount_nonneg [simp]: "0 \<le> parseAmount s"
  by (simp add: parseAmount_def split: option.splits)

lemma parseAmount_fits: "fits (parseAmount s)"
  using NewIntFromString_fits by (fastforce simp: parseAmount_def fits_def split: option.splits)

lemma parseAmount_Int_String [simp]: "0 \<le> n \<Longrightarrow> fits n \<Longrightarrow> parseAmount (Int_String n) = n"
  by (simp add: parseAmount_def)

lemma LotAmount_nonneg [simp]: "0 \<le> LotAmount l"
  by (simp add: LotAmount_def)

lemma LotAmount_fits: "fits (LotAmount l)"
  by (simp add: LotAmount_def parseAmount_fits)

lemma LotAmount_le_fits: "0 \<le> n \<Longrightarrow> n \<le> LotAmount l \<Longrightarrow> fits n"
  using LotAmount_fits fits_mono by blast

lemma LotAmount_lot [simp]:
  "0 \<le> n \<Longrightarrow> fits n \<Longrightarrow> LotAmount \<lparr>lot_Amount = Int_String n, lot_AcquiredAt = t\<rparr> = n"
  by (simp add: LotAmount_def)

lemma TotalLots_sum: "TotalLots lots = (\<Sum>l \<leftarrow> lots. LotAmount l)"
proof -
  have "foldl (\<lambda>total l. total + LotAmount l) a lots = a + (\<Sum>l \<leftarrow> lots. LotAmount l)" for a
    by (induction lots arbitrary: a) simp_all
  then show ?thesis by (simp add: TotalLots_def)
qed

lemma TotalLots_simps [simp]:
  "TotalLots [] = 0"
  "TotalLots (l # lots) = LotAmount l + TotalLots lots"
  "TotalLots (xs @ ys) = TotalLots xs + TotalLots ys"
  by (simp_all add: TotalLots_sum)

lemma TotalLots_nonneg [simp]: "0 \<le> TotalLots lots"
  by (induction lots) simp_all

section \<open>Spending\<close>

lemma spend_loop_total:
  assumes "0 \<le> left" "fits left" "spend_loop lots left = (c, r, left')"
  shows "TotalLots c + left' = left \<and> TotalLots c + TotalLots r = TotalLots lots
    \<and> 0 \<le> left' \<and> (0 < left' \<longrightarrow> r = [])"
  using assms
proof (induction lots arbitrary: left c r left')
  case Nil
  then show ?case by simp
next
  case (Cons l lots)
  consider "left = 0" | "0 < left" "LotAmount l \<le> left" | "0 < left" "left < LotAmount l"
    using Cons.prems(1) by linarith
  then show ?case
  proof cases
    case 1
    with Cons.prems show ?thesis by auto
  next
    case 2
    then obtain c' where c': "c = \<lparr>lot_Amount = Int_String (LotAmount l),
          lot_AcquiredAt = lot_AcquiredAt l\<rparr> # c'"
      and sub: "spend_loop lots (left - LotAmount l) = (c', r, left')"
      using Cons.prems(3) by (auto split: prod.splits)
    from 2 have "0 \<le> left - LotAmount l" by simp
    moreover have "fits (left - LotAmount l)"
      by (rule fits_mono [OF calculation _ Cons.prems(2)]) simp
    ultimately show ?thesis
      using Cons.IH [OF _ _ sub] by (simp add: c' LotAmount_fits)
  next
    case 3
    then have "fits (LotAmount l - left)" "fits left"
      using LotAmount_le_fits [of _ l] by simp_all
    with 3 Cons.prems show ?thesis by auto
  qed
qed

lemma SpendOldestFirst_total:
  assumes "0 \<le> amount" "fits amount" "SpendOldestFirst lots amount now th = (c, r)"
  shows "TotalLots c = amount"
    and "TotalLots r = TotalLots lots - min amount (TotalLots lots)"
proof -
  obtain c0 r0 left where s: "spend_loop lots amount = (c0, r0, left)"
    by (cases "spend_loop lots amount") auto
  note t = spend_loop_total [OF assms(1,2) s]
  have "fits left" using t by (intro fits_mono [OF _ _ assms(2)]) auto
  with t s assms(3) show "TotalLots c = amount"
    by (auto simp: SpendOldestFirst_def split: if_splits)
  have "amount - left \<le> TotalLots lots" using t TotalLots_nonneg [of r0] by linarith
  with t s assms(3) show "TotalLots r = TotalLots lots - min amount (TotalLots lots)"
    by (cases "0 < left") (auto simp: SpendOldestFirst_def min_def)
qed

definition oldest_first :: "CoinLot list \<Rightarrow> bool" where
  "oldest_first lots \<longleftrightarrow> sorted (map lot_AcquiredAt lots)"

lemma spend_loop_order:
  assumes "oldest_first lots" "spend_loop lots left = (c, r, left')"
  shows "oldest_first r \<and> oldest_first c
    \<and> (\<forall>x \<in> set c. \<forall>y \<in> set r. lot_AcquiredAt x \<le> lot_AcquiredAt y)
    \<and> (\<forall>x \<in> set c \<union> set r. \<exists>l \<in> set lots. lot_AcquiredAt x = lot_AcquiredAt l)"
  using assms
proof (induction lots arbitrary: left c r left')
  case Nil
  then show ?case by simp
next
  case (Cons l lots)
  have lots: "oldest_first lots" "\<forall>y \<in> set lots. lot_AcquiredAt l \<le> lot_AcquiredAt y"
    using Cons.prems(1) by (auto simp: oldest_first_def)
  show ?case
  proof (cases "0 < left \<and> LotAmount l \<le> left")
    case True
    then obtain c' where c': "c = \<lparr>lot_Amount = Int_String (LotAmount l),
          lot_AcquiredAt = lot_AcquiredAt l\<rparr> # c'"
      and sub: "spend_loop lots (left - LotAmount l) = (c', r, left')"
      using Cons.prems(2) by (auto split: prod.splits)
    note ih = Cons.IH [OF lots(1) sub]
    then have "\<forall>x \<in> set c' \<union> set r. lot_AcquiredAt l \<le> lot_AcquiredAt x"
      using lots(2) by metis
    with ih show ?thesis by (auto simp: c' oldest_first_def)
  next
    case False
    with Cons.prems lots show ?thesis by (auto simp: oldest_first_def split: if_splits)
  qed
qed

lemma length_spend_loop: "spend_loop lots left = (c, r, left') \<Longrightarrow> length r \<le> length lots"
  by (induction lots arbitrary: left c r left') (auto split: if_splits prod.splits, fastforce)

section \<open>Merging\<close>

text \<open>Times far enough inside the 64-bit range that their differences do not wrap.\<close>

definition time_ok :: "int \<Rightarrow> bool" where
  "time_ok t \<longleftrightarrow> - (2 ^ 62) \<le> t \<and> t < 2 ^ 62"

lemma time_ok_diff: "time_ok a \<Longrightarrow> time_ok b \<Longrightarrow> i64 (a - b) = a - b"
  by (simp add: time_ok_def in_i64_def)

lemma time_ok_i64: "time_ok a \<Longrightarrow> i64 a = a"
  by (simp add: time_ok_def in_i64_def)

lemma ceil_bounds:
  fixes num total delta :: int
  assumes "0 < total" "0 \<le> num" "num \<le> total * delta"
  shows "num \<le> total * ((num + total - 1) div total)"
    and "total * ((num + total - 1) div total) < num + total"
    and "0 \<le> (num + total - 1) div total"
    and "(num + total - 1) div total \<le> delta"
proof -
  let ?q = "(num + total - 1) div total"
  have eq: "num + total - 1 = total * ?q + (num + total - 1) mod total" by simp
  have m: "0 \<le> (num + total - 1) mod total" "(num + total - 1) mod total < total"
    using assms by simp_all
  from eq m show "num \<le> total * ?q" by linarith
  from eq m show "total * ?q < num + total" by linarith
  from assms show "0 \<le> ?q" by (simp add: pos_imp_zdiv_nonneg_iff)
  have "num + total - 1 < total * (delta + 1)" using assms by (simp add: algebra_simps)
  with eq m have "total * ?q < total * (delta + 1)" by linarith
  then have "?q < delta + 1" using assms(1) by (simp only: mult_less_cancel_left_pos)
  then show "?q \<le> delta" by simp
qed

text \<open>
  The merged time lies between the two, and weighting it by the merged amount gives at
  least the two lots' own weighted times: a merge rounds towards young.
\<close>

lemma mergedAcquiredAt_bounds:
  assumes "time_ok (lot_AcquiredAt a)" "time_ok (lot_AcquiredAt b)"
    and "lot_AcquiredAt a \<le> lot_AcquiredAt b"
  shows "lot_AcquiredAt a \<le> mergedAcquiredAt a b" "mergedAcquiredAt a b \<le> lot_AcquiredAt b"
    and "LotAmount a * lot_AcquiredAt a + LotAmount b * lot_AcquiredAt b
      \<le> (LotAmount a + LotAmount b) * mergedAcquiredAt a b"
    and "(LotAmount a + LotAmount b) * mergedAcquiredAt a b
      \<le> LotAmount a * lot_AcquiredAt a + LotAmount b * lot_AcquiredAt b + (LotAmount a + LotAmount b)"
proof -
  let ?d = "lot_AcquiredAt b - lot_AcquiredAt a"
  let ?t = "LotAmount a + LotAmount b"
  let ?n = "LotAmount b * ?d"
  have d: "i64 ?d = ?d" using assms by (simp add: time_ok_diff)
  have "lot_AcquiredAt a \<le> mergedAcquiredAt a b \<and> mergedAcquiredAt a b \<le> lot_AcquiredAt b
    \<and> LotAmount a * lot_AcquiredAt a + LotAmount b * lot_AcquiredAt b
      \<le> ?t * mergedAcquiredAt a b
    \<and> ?t * mergedAcquiredAt a b
      \<le> LotAmount a * lot_AcquiredAt a + LotAmount b * lot_AcquiredAt b + ?t"
  proof (cases "0 < ?d \<and> 0 < ?t")
    case True
    have n: "0 \<le> ?n" "?n \<le> ?t * ?d"
      using True by (simp_all add: mult_right_mono)
    note c = ceil_bounds [OF conjunct2 [OF True] n]
    let ?q = "(?n + ?t - 1) div ?t"
    have "0 \<le> ?n + ?t - 1" using True n(1) by linarith
    then have "(?n + ?t - 1) sdiv ?t = ?q" using True by (intro sdiv_nonneg) auto
    moreover have "i64 (lot_AcquiredAt a + ?q) = lot_AcquiredAt a + ?q"
      using c(3,4) assms by (intro i64_id) (simp add: in_i64_def time_ok_def)
    ultimately have m: "mergedAcquiredAt a b = lot_AcquiredAt a + ?q"
      using True by (simp add: mergedAcquiredAt_def d Let_def)
    have sum: "LotAmount a * lot_AcquiredAt a + LotAmount b * lot_AcquiredAt b
        = ?t * lot_AcquiredAt a + ?n"
      by (simp add: algebra_simps)
    have merged: "?t * mergedAcquiredAt a b = ?t * lot_AcquiredAt a + ?t * ?q"
      unfolding m by (rule distrib_left)
    show ?thesis unfolding sum merged
      using add_left_mono [OF c(1), of "?t * lot_AcquiredAt a"]
        add_left_mono [OF less_imp_le [OF c(2)], of "?t * lot_AcquiredAt a"] c(3,4) m
      by (simp add: add.assoc)
  next
    case False
    moreover have "LotAmount b = 0 \<and> LotAmount a = 0" if "\<not> 0 < ?t"
      using that LotAmount_nonneg [of a] LotAmount_nonneg [of b] by linarith
    ultimately show ?thesis
      using assms(3) by (auto simp: mergedAcquiredAt_def d Let_def algebra_simps)
  qed
  then show "lot_AcquiredAt a \<le> mergedAcquiredAt a b" "mergedAcquiredAt a b \<le> lot_AcquiredAt b"
    "LotAmount a * lot_AcquiredAt a + LotAmount b * lot_AcquiredAt b \<le> ?t * mergedAcquiredAt a b"
    "?t * mergedAcquiredAt a b \<le> LotAmount a * lot_AcquiredAt a + LotAmount b * lot_AcquiredAt b + ?t"
    by blast+
qed

definition queue_ok :: "CoinLot list \<Rightarrow> bool" where
  "queue_ok lots \<longleftrightarrow> oldest_first lots \<and> list_all (\<lambda>l. time_ok (lot_AcquiredAt l)) lots"

lemma mergeOldest_total: "fits (LotAmount a + LotAmount b)
    \<Longrightarrow> LotAmount (mergeOldest a b) = LotAmount a + LotAmount b"
  by (simp add: mergeOldest_def)

lemma mergeOldest_ok: "queue_ok (a # b # rest) \<Longrightarrow> queue_ok (mergeOldest a b # rest)"
  using mergedAcquiredAt_bounds [of a b]
  by (fastforce simp: queue_ok_def oldest_first_def mergeOldest_def time_ok_def list_all_iff)

lemma bound_loop_ok:
  assumes "queue_ok lots" "fits (TotalLots lots)"
  shows "queue_ok (bound_loop m lots) \<and> TotalLots (bound_loop m lots) = TotalLots lots"
  using assms
proof (induction m lots rule: bound_loop.induct)
  case (1 m a b rest)
  have f: "fits (LotAmount a + LotAmount b)"
    by (rule fits_mono [OF _ _ 1(3)]) simp_all
  show ?case
    using 1 mergeOldest_ok [OF 1(2)] by (simp add: mergeOldest_total [OF f] add.assoc)
qed simp_all

lemma bound_loop_length:
  assumes "length lots < 2 ^ 32" "0 < m"
  shows "length (bound_loop m lots) \<le> max 1 (unat m)"
  using assms
proof (induction m lots rule: bound_loop.induct)
  case (1 m a b rest)
  have "unat (word_of_nat (length (a # b # rest)) :: 32 word) = length (a # b # rest)"
    by (rule unat_word32_of_nat) (rule 1(2))
  with 1 show ?case by (simp add: word_less_nat_alt del: of_nat_Suc)
qed simp_all

lemma bound_loop_short: "length lots \<le> unat m \<Longrightarrow> bound_loop m lots = lots"
proof (cases "(m, lots)" rule: bound_loop.cases)
  case (1 m' a b rest)
  moreover assume "length lots \<le> unat m"
  moreover have "unat (word_of_nat (length (a # b # rest)) :: 32 word) = length (a # b # rest)"
    using calculation unsigned_less [of m, where 'a = nat] by (intro unat_word32_of_nat) simp
  ultimately show ?thesis
    by (simp add: word_less_nat_alt del: of_nat_Suc)
qed simp_all

section \<open>Inserting\<close>

lemma sorted_insert_mid:
  assumes "sorted (map f xs)"
  shows "sorted (map f (takeWhile (\<lambda>y. \<not> f x < f y) xs @ x # dropWhile (\<lambda>y. \<not> f x < f y) xs))"
  using assms
proof (induction xs)
  case (Cons y ys)
  show ?case
  proof (cases "f x < f y")
    case True
    with Cons.prems show ?thesis by (auto dest: order_less_imp_le order_trans)
  next
    case False
    have "\<forall>z \<in> set (takeWhile (\<lambda>y. \<not> f x < f y) ys @ x # dropWhile (\<lambda>y. \<not> f x < f y) ys).
        f y \<le> f z"
      using Cons.prems False by (auto dest: set_takeWhileD set_dropWhileD)
    with Cons False show ?thesis by auto
  qed
qed simp

lemma InsertLot_ok:
  assumes "queue_ok lots" "time_ok (lot_AcquiredAt lot)"
    and "fits (TotalLots lots + LotAmount lot)"
  shows "queue_ok (InsertLot lots lot m)"
    and "TotalLots (InsertLot lots lot m) = TotalLots lots + LotAmount lot"
proof -
  let ?P = "\<lambda>l. \<not> lot_AcquiredAt lot < lot_AcquiredAt l"
  let ?out = "takeWhile ?P lots @ lot # dropWhile ?P lots"
  have q: "queue_ok ?out"
    using assms(1,2) sorted_insert_mid [of lot_AcquiredAt lots lot]
    by (auto simp: queue_ok_def oldest_first_def list_all_iff
        dest: set_takeWhileD set_dropWhileD)
  have "TotalLots (takeWhile ?P lots) + TotalLots (dropWhile ?P lots) = TotalLots lots"
    by (metis TotalLots_simps(3) takeWhile_dropWhile_id)
  then have t: "TotalLots ?out = TotalLots lots + LotAmount lot" by simp
  from assms(3) have "fits (TotalLots ?out)" by (simp only: t)
  note b = bound_loop_ok [OF q this]
  show "queue_ok (InsertLot lots lot m)"
    using assms(1) b by (simp add: InsertLot_def BoundLots_def)
  have "LotAmount lot = 0" if "\<not> 0 < LotAmount lot"
    using that LotAmount_nonneg [of lot] by linarith
  then show "TotalLots (InsertLot lots lot m) = TotalLots lots + LotAmount lot"
    using b t by (simp add: InsertLot_def BoundLots_def del: TotalLots_simps)
qed

lemma InsertLot_length:
  assumes "length lots < 2 ^ 32 - 1" "2 \<le> m" "0 < LotAmount lot"
  shows "length (InsertLot lots lot m) \<le> unat m"
proof -
  let ?P = "\<lambda>l. \<not> lot_AcquiredAt lot < lot_AcquiredAt l"
  have len: "length (takeWhile ?P lots @ lot # dropWhile ?P lots) = Suc (length lots)"
    by (metis add_Suc_right length_Cons length_append takeWhile_dropWhile_id)
  have m: "0 < m" "m \<noteq> 0" "2 \<le> unat m"
    using assms(2) by (auto simp: word_le_nat_alt word_less_nat_alt)
  then show ?thesis
    using bound_loop_length [of "takeWhile ?P lots @ lot # dropWhile ?P lots" m] assms(1,3) len
    by (auto simp: InsertLot_def BoundLots_def)
qed

section \<open>Penalty\<close>

definition lot_bps :: "int \<Rightarrow> 32 word \<Rightarrow> 32 word \<Rightarrow> int \<Rightarrow> CoinLot \<Rightarrow> int" where
  "lot_bps now y ob th l = (if IsOld (lot_AcquiredAt l) now th then int (unat ob) else int (unat y))"

lemma PenaltyForLots_sum:
  "PenaltyForLots lots now y ob th = (\<Sum>l \<leftarrow> lots. LotAmount l * lot_bps now y ob th l div 10000)"
proof -
  have "foldl (\<lambda>penalty l.
      let bps = (if IsOld (lot_AcquiredAt l) now th then int (unat ob) else int (unat y))
      in penalty + LotAmount l * bps sdiv BpsDenominator) a lots
    = a + (\<Sum>l \<leftarrow> lots. LotAmount l * lot_bps now y ob th l div 10000)" for a
    by (induction lots arbitrary: a)
      (simp_all add: lot_bps_def BpsDenominator_def Let_def sdiv_nonneg)
  then show ?thesis by (simp add: PenaltyForLots_def)
qed

lemma PenaltyForLots_bounds:
  assumes "int (unat y) \<le> B" "int (unat ob) \<le> B"
  shows "0 \<le> PenaltyForLots lots now y ob th"
    and "PenaltyForLots lots now y ob th * 10000 \<le> TotalLots lots * B"
proof -
  have bps: "0 \<le> lot_bps now y ob th l" "lot_bps now y ob th l \<le> B" for l
    using assms by (simp_all add: lot_bps_def)
  show "0 \<le> PenaltyForLots lots now y ob th"
    unfolding PenaltyForLots_sum using bps
    by (intro sum_list_nonneg) (auto simp: pos_imp_zdiv_nonneg_iff)
  show "PenaltyForLots lots now y ob th * 10000 \<le> TotalLots lots * B"
    unfolding PenaltyForLots_sum
  proof (induction lots)
    case (Cons l lots)
    have "LotAmount l * lot_bps now y ob th l div 10000 * 10000 \<le> LotAmount l * lot_bps now y ob th l"
      using minus_mod_eq_div_mult [of "LotAmount l * lot_bps now y ob th l" 10000] by (metis add_le_same_cancel1 diff_le_eq le_add_same_cancel1 pos_mod_sign zero_less_numeral)
    also have "\<dots> \<le> LotAmount l * B" using bps by (simp add: mult_left_mono)
    finally show ?case using Cons by (simp add: algebra_simps)
  qed simp
qed

end
