(* ===== verification/Coin.thy ===== *)
theory Coin
  imports Bank StoreEntry CoinAge
begin

text \<open>
  The coin module (\<^verbatim>\<open>x/coin\<close>): its governed parameters and fixed-fee table, the
  split of a fee between validator and company, the per-holder coin-age queues,
  the daily micro-exemption quota, the message handlers, and genesis import and
  export.  Handlers return the new state or an error; the SDK discards every write
  of a failed message, so an error carries no state.

  The identity lookup the keeper receives (\<^verbatim>\<open>types.IdentityKeeper.SubjectDID\<close>) is an
  argument of the routines that call it.
\<close>

section \<open>Errors, constants and keys\<close>

definition coin_ErrInvalidAmount :: err where "coin_ErrInvalidAmount = Registered ''coin'' 2"
definition coin_ErrInsufficientFunds :: err where
  "coin_ErrInsufficientFunds = Registered ''coin'' 3"
definition coin_ErrSameAccount :: err where "coin_ErrSameAccount = Registered ''coin'' 6"
definition coin_ErrNoPayoutAddress :: err where "coin_ErrNoPayoutAddress = Registered ''coin'' 7"

definition MsgTransferTypeURL :: string where
  "MsgTransferTypeURL = ''/phi.coin.MsgTransfer''"
definition MsgAnchorPersonalTypeURL :: string where
  "MsgAnchorPersonalTypeURL = ''/phi.credentials.MsgAnchorPersonal''"
definition MsgCreateAgreementTypeURL :: string where
  "MsgCreateAgreementTypeURL = ''/phi.credentials.MsgCreateAgreement''"

definition RevenueAccountName :: string where
  "RevenueAccountName = ''phi_revenue''"

definition MaxMicroThresholdUphi :: int where "MaxMicroThresholdUphi = 1000000"
definition MaxMicroDailyQuota :: "64 word" where "MaxMicroDailyQuota = 1000"
definition MinCoinAgeLots :: "32 word" where "MinCoinAgeLots = 2"
definition MaxCoinAgeLotsCeiling :: "32 word" where "MaxCoinAgeLotsCeiling = 1024"
definition MaxProtocolFeeReserveBps :: int where "MaxProtocolFeeReserveBps = 1000"
definition MicroQuotaRetentionDays :: int where "MicroQuotaRetentionDays = 7"
definition MicroQuotaPruneBudget :: nat where "MicroQuotaPruneBudget = 256"

definition CoinAgePrefix :: bytes where "CoinAgePrefix = [char_of (16 :: nat)]"
definition MicroQuotaPrefix :: bytes where "MicroQuotaPrefix = [char_of (17 :: nat)]"

definition CoinAgeKey :: "string \<Rightarrow> bytes" where
  "CoinAgeKey address = CoinAgePrefix @ address"

definition MicroQuotaKey :: "int \<Rightarrow> string \<Rightarrow> bytes" where
  "MicroQuotaKey day address = (MicroQuotaPrefix @ be64 (u64_of_int day)) @ address"

definition MicroQuotaDayBound :: "int \<Rightarrow> bytes" where
  "MicroQuotaDayBound day = MicroQuotaPrefix @ be64 (u64_of_int day)"

definition coin_IsGenesisStoreKey :: "bytes \<Rightarrow> bool" where
  "coin_IsGenesisStoreKey key \<longleftrightarrow> length MicroQuotaPrefix < length key
     \<and> take (length MicroQuotaPrefix) key = MicroQuotaPrefix"

section \<open>Parameters\<close>

record FeeEntry =
  fe_MsgTypeUrl :: string
  fe_Fee :: string

record SplitEntry =
  se_MsgTypeUrl :: string
  se_ValidatorBps :: "32 word"
  se_CompanyBps :: "32 word"

record coin_Params =
  cp_Fees :: "FeeEntry list"
  cp_DefaultFee :: string
  cp_MicroThreshold :: string
  cp_MicroDailyQuota :: "64 word"
  cp_CoinAgeThresholdSeconds :: int
  cp_YoungPenaltyBps :: "32 word"
  cp_OldPenaltyBps :: "32 word"
  cp_Splits :: "SplitEntry list"
  cp_CompanyPayoutAddress :: string
  cp_AgreementExtraSignerFee :: string
  cp_AgreementFreeSigners :: "32 word"
  cp_MaxCoinAgeLots :: "32 word"

definition coin_DefaultParams :: coin_Params where
  "coin_DefaultParams =
    \<lparr>cp_Fees =
       [\<lparr>fe_MsgTypeUrl = MsgTransferTypeURL, fe_Fee = ''5000''\<rparr>,
        \<lparr>fe_MsgTypeUrl = MsgAnchorPersonalTypeURL, fe_Fee = ''120000''\<rparr>,
        \<lparr>fe_MsgTypeUrl = MsgCreateAgreementTypeURL, fe_Fee = ''50000''\<rparr>],
     cp_DefaultFee = ''5000'',
     cp_MicroThreshold = ''50000'',
     cp_MicroDailyQuota = 10,
     cp_CoinAgeThresholdSeconds = 604800,
     cp_YoungPenaltyBps = 100,
     cp_OldPenaltyBps = 20,
     cp_Splits =
       [\<lparr>se_MsgTypeUrl = MsgTransferTypeURL, se_ValidatorBps = 9000, se_CompanyBps = 1000\<rparr>,
        \<lparr>se_MsgTypeUrl = MsgAnchorPersonalTypeURL, se_ValidatorBps = 0, se_CompanyBps = 10000\<rparr>],
     cp_CompanyPayoutAddress = [],
     cp_AgreementExtraSignerFee = ''5000'',
     cp_AgreementFreeSigners = 5,
     cp_MaxCoinAgeLots = DefaultMaxCoinAgeLots\<rparr>"

definition validate_fee_entry :: "FeeEntry \<Rightarrow> unit res" where
  "validate_fee_entry f =
    (if fe_MsgTypeUrl f = [] then Inl (Plain ''fee entry with empty msg_type_url'')
     else case NewIntFromString (fe_Fee f) of
         None \<Rightarrow> Inl (Plain ''invalid fee'')
       | Some v \<Rightarrow> (if v < 0 then Inl (Plain ''invalid fee'') else Inr ()))"

primrec validate_splits :: "string list \<Rightarrow> SplitEntry list \<Rightarrow> unit res" where
  "validate_splits seen [] = Inr ()"
| "validate_splits seen (s # ss) =
    (if se_MsgTypeUrl s = [] then Inl (Plain ''split entry with empty msg_type_url'')
     else if se_MsgTypeUrl s \<in> set seen then Inl (Plain ''duplicate split entry'')
     else if BpsDenominator < int (unat (se_ValidatorBps s)) + int (unat (se_CompanyBps s))
       then Inl (Plain ''split exceeds the denominator'')
     else validate_splits (se_MsgTypeUrl s # seen) ss)"

definition coin_Params_Validate :: "sdk_env \<Rightarrow> coin_Params \<Rightarrow> unit res" where
  "coin_Params_Validate E p =
    (case NewIntFromString (cp_DefaultFee p) of None \<Rightarrow> Inl (Plain ''invalid default_fee'')
     | Some fee \<Rightarrow>
      if \<not> 0 < fee then Inl (Plain ''default_fee must be strictly positive'')
      else case NewIntFromString (cp_MicroThreshold p) of
        None \<Rightarrow> Inl (Plain ''invalid micro_threshold'')
      | Some mt \<Rightarrow>
       if mt < 0 then Inl (Plain ''micro_threshold must be >= 0'')
       else if MaxMicroThresholdUphi < mt then Inl (Plain ''micro_threshold exceeds the sanity cap'')
       else if MaxMicroDailyQuota < cp_MicroDailyQuota p
         then Inl (Plain ''micro_daily_quota exceeds the sanity cap'')
       else bindE (allE validate_fee_entry (cp_Fees p)) (\<lambda>_.
        bindE (if cp_AgreementExtraSignerFee p \<noteq> []
               then (case NewIntFromString (cp_AgreementExtraSignerFee p) of
                       None \<Rightarrow> Inl (Plain ''invalid agreement_extra_signer_fee'')
                     | Some v \<Rightarrow> (if v < 0 then Inl (Plain ''invalid agreement_extra_signer_fee'')
                                  else Inr ()))
               else Inr ()) (\<lambda>_.
        if cp_CoinAgeThresholdSeconds p < 0
          then Inl (Plain ''coin_age_threshold_seconds must be >= 0'')
        else if BpsDenominator - MaxProtocolFeeReserveBps
                \<le> int (unat (cp_YoungPenaltyBps p)) + int (unat (cp_OldPenaltyBps p))
          then Inl (Plain ''penalty bps too large'')
        else if cp_MaxCoinAgeLots p < MinCoinAgeLots \<or> MaxCoinAgeLotsCeiling < cp_MaxCoinAgeLots p
          then Inl (Plain ''max_coin_age_lots out of range'')
        else bindE (validate_splits [] (cp_Splits p)) (\<lambda>_.
          if cp_CompanyPayoutAddress p \<noteq> []
          then (case AccAddressFromBech32 E (cp_CompanyPayoutAddress p) of
                  None \<Rightarrow> Inl (Plain ''invalid company_payout_address'')
                | Some _ \<Rightarrow> Inr ())
          else Inr ()))))"

section \<open>Messages and the fee table\<close>

record MsgTransfer =
  mt_From :: string
  mt_To :: string
  mt_Amount :: string

text \<open>
  What the fee path can see of an \<^verbatim>\<open>sdk.Msg\<close>: its type URL, and the two types it
  inspects the contents of.
\<close>

datatype sdk_msg =
    Msg_Transfer MsgTransfer
  | Msg_CreateAgreement "string list"
  | Msg_Other string

fun MsgTypeURL :: "sdk_msg \<Rightarrow> string" where
  "MsgTypeURL (Msg_Transfer _) = MsgTransferTypeURL"
| "MsgTypeURL (Msg_CreateAgreement _) = MsgCreateAgreementTypeURL"
| "MsgTypeURL (Msg_Other url) = url"

primrec fee_lookup :: "FeeEntry list \<Rightarrow> string \<Rightarrow> int option" where
  "fee_lookup [] url = None"
| "fee_lookup (f # fs) url =
    (if fe_MsgTypeUrl f = url
     then (case NewIntFromString (fe_Fee f) of Some v \<Rightarrow> Some v | None \<Rightarrow> fee_lookup fs url)
     else fee_lookup fs url)"

definition FeeFor :: "coin_Params \<Rightarrow> string \<Rightarrow> int" where
  "FeeFor p url = (case fee_lookup (cp_Fees p) url of
      Some v \<Rightarrow> v
    | None \<Rightarrow> (case NewIntFromString (cp_DefaultFee p) of Some v \<Rightarrow> v | None \<Rightarrow> 0))"

definition agreementSurcharge :: "coin_Params \<Rightarrow> string \<Rightarrow> sdk_msg \<Rightarrow> int" where
  "agreementSurcharge p url m =
    (if url \<noteq> MsgCreateAgreementTypeURL then 0
     else case m of
         Msg_CreateAgreement required \<Rightarrow>
          (let signers = int (length required); free = int (unat (cp_AgreementFreeSigners p)) in
           if signers \<le> free then 0
           else case NewIntFromString (cp_AgreementExtraSignerFee p) of
               None \<Rightarrow> 0
             | Some extra \<Rightarrow> (if \<not> 0 < extra then 0 else extra * (signers - free)))
       | _ \<Rightarrow> 0)"

definition FeeForMsg :: "coin_Params \<Rightarrow> sdk_msg \<Rightarrow> int" where
  "FeeForMsg p m = FeeFor p (MsgTypeURL m) + agreementSurcharge p (MsgTypeURL m) m"

definition SplitFor :: "coin_Params \<Rightarrow> string \<Rightarrow> SplitEntry \<times> bool" where
  "SplitFor p url = (case find (\<lambda>s. se_MsgTypeUrl s = url) (cp_Splits p) of
      Some s \<Rightarrow> (s, True)
    | None \<Rightarrow> (\<lparr>se_MsgTypeUrl = url, se_ValidatorBps = 10000, se_CompanyBps = 0\<rparr>, False))"

text \<open>The company's cut and the validator's remainder.\<close>

definition CompanyShare :: "SplitEntry \<Rightarrow> int \<Rightarrow> int \<times> int" where
  "CompanyShare s fee =
    (let company = fee * int (unat (se_CompanyBps s)) sdiv BpsDenominator in
     (company, fee - company))"

definition MicroThresholdInt :: "coin_Params \<Rightarrow> int" where
  "MicroThresholdInt p = (case NewIntFromString (cp_MicroThreshold p) of Some v \<Rightarrow> v | None \<Rightarrow> 0)"

end
