(* ===== verification/CoinKeeper.thy ===== *)
theory CoinKeeper
  imports Coin
begin

text \<open>
  The coin keeper and message server (\<^verbatim>\<open>x/coin/keeper\<close>): stored parameters, the
  coin-age queue of each holder, the daily quota counters, fee computation, the
  three message handlers, the begin-block pruning and genesis.
\<close>

section \<open>State\<close>

record CoinAge =
  ca_Address :: string
  ca_Lots :: "CoinLot list"

record coin_state =
  cs_params :: "coin_Params option"
  cs_coin_ages :: "CoinAge kv"
  cs_micro_quota :: "bytes kv"

definition empty_coin_state :: coin_state where
  "empty_coin_state = \<lparr>cs_params = None, cs_coin_ages = [], cs_micro_quota = []\<rparr>"

definition coin_GetParams :: "coin_state \<Rightarrow> coin_Params" where
  "coin_GetParams s = (case cs_params s of None \<Rightarrow> coin_DefaultParams | Some p \<Rightarrow> p)"

definition coin_SetParams :: "sdk_env \<Rightarrow> coin_state \<Rightarrow> coin_Params \<Rightarrow> coin_state res" where
  "coin_SetParams E s p =
    bindE (coin_Params_Validate E p) (\<lambda>_. Inr (s\<lparr>cs_params := Some p\<rparr>))"

section \<open>Coin age\<close>

definition GetCoinAge :: "coin_state \<Rightarrow> string \<Rightarrow> CoinAge" where
  "GetCoinAge s address = (case kv_get (cs_coin_ages s) (CoinAgeKey address) of
      None \<Rightarrow> \<lparr>ca_Address = address, ca_Lots = []\<rparr>
    | Some ca \<Rightarrow> ca)"

definition SetCoinAge :: "coin_state \<Rightarrow> CoinAge \<Rightarrow> coin_state" where
  "SetCoinAge s ca =
    (if ca_Lots ca = []
     then s\<lparr>cs_coin_ages := kv_delete (cs_coin_ages s) (CoinAgeKey (ca_Address ca))\<rparr>
     else s\<lparr>cs_coin_ages := kv_set (cs_coin_ages s) (CoinAgeKey (ca_Address ca)) ca\<rparr>)"

definition AddCoins :: "coin_state \<Rightarrow> string \<Rightarrow> int \<Rightarrow> int \<Rightarrow> coin_state" where
  "AddCoins s address amount acquiredAt =
    (if \<not> 0 < amount then s
     else
      (let ca = GetCoinAge s address in
       SetCoinAge s (ca\<lparr>ca_Address := address,
         ca_Lots := InsertLot (ca_Lots ca)
           \<lparr>lot_Amount = Int_String amount, lot_AcquiredAt = acquiredAt\<rparr>
           (cp_MaxCoinAgeLots (coin_GetParams s))\<rparr>)))"

definition keeper_SpendOldestFirst ::
    "ctx \<Rightarrow> coin_state \<Rightarrow> string \<Rightarrow> int \<Rightarrow> CoinLot list \<times> coin_state" where
  "keeper_SpendOldestFirst c s address amount =
    (let ca = GetCoinAge s address in
     case SpendOldestFirst (ca_Lots ca) amount (block_time c)
            (cp_CoinAgeThresholdSeconds (coin_GetParams s)) of
       (consumed, remaining) \<Rightarrow>
         (consumed, SetCoinAge s (ca\<lparr>ca_Address := address, ca_Lots := remaining\<rparr>)))"

definition EarlyRedeemPenalty ::
    "ctx \<Rightarrow> coin_state \<Rightarrow> string \<Rightarrow> int \<Rightarrow> int \<times> coin_state" where
  "EarlyRedeemPenalty c s address redeemUphi =
    (if \<not> 0 < redeemUphi then (0, s)
     else case keeper_SpendOldestFirst c s address redeemUphi of (consumed, s') \<Rightarrow>
       (let p = coin_GetParams s' in
        (PenaltyForLots consumed (block_time c) (cp_YoungPenaltyBps p) (cp_OldPenaltyBps p)
           (cp_CoinAgeThresholdSeconds p), s')))"

section \<open>Micro-exemption quota\<close>

text \<open>\<^verbatim>\<open>sdk.BigEndianToUint64\<close>: an empty value reads as zero.\<close>

definition BigEndianToUint64 :: "bytes \<Rightarrow> 64 word" where
  "BigEndianToUint64 bz = (if bz = [] then 0 else dec64 bz)"

definition GetMicroUsed :: "coin_state \<Rightarrow> int \<Rightarrow> string \<Rightarrow> 64 word" where
  "GetMicroUsed s day address =
    (case kv_get (cs_micro_quota s) (MicroQuotaKey day address) of
       None \<Rightarrow> 0
     | Some bz \<Rightarrow> BigEndianToUint64 bz)"

definition IncrMicroUsed :: "coin_state \<Rightarrow> int \<Rightarrow> string \<Rightarrow> coin_state" where
  "IncrMicroUsed s day address =
    s\<lparr>cs_micro_quota := kv_set (cs_micro_quota s) (MicroQuotaKey day address)
        (be64 (GetMicroUsed s day address + 1))\<rparr>"

definition PruneMicroQuota :: "ctx \<Rightarrow> coin_state \<Rightarrow> coin_state" where
  "PruneMicroQuota c s =
    (let cutoffDay = block_time c sdiv 86400 - MicroQuotaRetentionDays in
     if cutoffDay \<le> 0 then s
     else
      (let stale = take MicroQuotaPruneBudget
             (map fst (kv_range (cs_micro_quota s) MicroQuotaPrefix (MicroQuotaDayBound cutoffDay)))
       in s\<lparr>cs_micro_quota := kv_delete_all (cs_micro_quota s) stale\<rparr>))"

text \<open>The keeper's identity lookup may be absent (a nil interface).\<close>

type_synonym subject_lookup = "(string \<Rightarrow> string option) option"

definition microExemptionSubject :: "subject_lookup \<Rightarrow> string \<Rightarrow> string option" where
  "microExemptionSubject idk address = (case idk of
      None \<Rightarrow> None
    | Some SubjectDID \<Rightarrow>
       (case SubjectDID address of
          None \<Rightarrow> None
        | Some did \<Rightarrow> (if did = [] then None else Some did)))"

definition IsMicroExempt ::
    "subject_lookup \<Rightarrow> ctx \<Rightarrow> coin_state \<Rightarrow> string \<Rightarrow> sdk_msg list \<Rightarrow> bool" where
  "IsMicroExempt idk c s payer msgs =
    (let params = coin_GetParams s in
     if cp_MicroDailyQuota params = 0 then False
     else case msgs of
         [Msg_Transfer t] \<Rightarrow>
          (case NewIntFromString (mt_Amount t) of
             None \<Rightarrow> False
           | Some amt \<Rightarrow>
              if MicroThresholdInt params \<le> amt then False
              else case microExemptionSubject idk payer of
                  None \<Rightarrow> False
                | Some subject \<Rightarrow>
                   (case microExemptionSubject idk (mt_To t) of
                      None \<Rightarrow> False
                    | Some _ \<Rightarrow>
                       GetMicroUsed s (block_time c sdiv 86400) subject
                         < cp_MicroDailyQuota params))
       | _ \<Rightarrow> False)"

definition ConsumeMicroExemption ::
    "subject_lookup \<Rightarrow> ctx \<Rightarrow> coin_state \<Rightarrow> string \<Rightarrow> coin_state" where
  "ConsumeMicroExemption idk c s payer = (case microExemptionSubject idk payer of
      None \<Rightarrow> s
    | Some subject \<Rightarrow> IncrMicroUsed s (block_time c sdiv 86400) subject)"

section \<open>Fees\<close>

record RevenueLeg =
  leg_MsgTypeURL :: string
  leg_Stream :: string
  leg_Amount :: int

record FeeSplit =
  fs_Total :: int
  fs_Validator :: int
  fs_Company :: int
  fs_Legs :: "RevenueLeg list"

definition NewFeeSplit :: FeeSplit where
  "NewFeeSplit = \<lparr>fs_Total = 0, fs_Validator = 0, fs_Company = 0, fs_Legs = []\<rparr>"

definition fee_split_step :: "coin_Params \<Rightarrow> FeeSplit \<Rightarrow> sdk_msg \<Rightarrow> FeeSplit" where
  "fee_split_step params out m =
    (let url = MsgTypeURL m; fee = FeeForMsg params m in
     if \<not> 0 < fee then out
     else case CompanyShare (fst (SplitFor params url)) fee of (company, validator) \<Rightarrow>
       \<lparr>fs_Total = fs_Total out + fee,
        fs_Validator = fs_Validator out + validator,
        fs_Company = fs_Company out + company,
        fs_Legs = fs_Legs out
          @ (if 0 < validator
             then [\<lparr>leg_MsgTypeURL = url, leg_Stream = ''validator'', leg_Amount = validator\<rparr>]
             else [])
          @ (if 0 < company
             then [\<lparr>leg_MsgTypeURL = url, leg_Stream = ''company'', leg_Amount = company\<rparr>]
             else [])\<rparr>)"

definition ComputeFeeSplit :: "coin_state \<Rightarrow> sdk_msg list \<Rightarrow> FeeSplit" where
  "ComputeFeeSplit s msgs = foldl (fee_split_step (coin_GetParams s)) NewFeeSplit msgs"

definition ComputeRequiredFee :: "coin_state \<Rightarrow> sdk_msg list \<Rightarrow> int" where
  "ComputeRequiredFee s msgs = fs_Total (ComputeFeeSplit s msgs)"

section \<open>Message handlers\<close>

definition MsgTransfer_ValidateBasic :: "sdk_env \<Rightarrow> MsgTransfer \<Rightarrow> unit res" where
  "MsgTransfer_ValidateBasic E m =
    (if AccAddressFromBech32 E (mt_From m) = None then Inl ErrInvalidAddress
     else if AccAddressFromBech32 E (mt_To m) = None then Inl ErrInvalidAddress
     else if mt_From m = mt_To m then Inl coin_ErrSameAccount
     else case NewIntFromString (mt_Amount m) of
         None \<Rightarrow> Inl coin_ErrInvalidAmount
       | Some amt \<Rightarrow> (if \<not> 0 < amt then Inl coin_ErrInvalidAmount else Inr ()))"

text \<open>The loop that credits the recipient with each consumed lot at its own age.\<close>

definition credit_lots :: "coin_state \<Rightarrow> string \<Rightarrow> CoinLot list \<Rightarrow> coin_state" where
  "credit_lots s address lots =
    foldl (\<lambda>s lot. AddCoins s address (LotAmount lot) (lot_AcquiredAt lot)) s lots"

definition Transfer ::
    "sdk_env \<Rightarrow> ctx \<Rightarrow> bank \<times> coin_state \<Rightarrow> MsgTransfer \<Rightarrow> (bank \<times> coin_state) res" where
  "Transfer E c bs msg = (case bs of (b, s) \<Rightarrow>
    (case AccAddressFromBech32 E (mt_From msg) of
       None \<Rightarrow> Inl (Plain ''invalid from'')
     | Some from_addr \<Rightarrow>
    (case AccAddressFromBech32 E (mt_To msg) of
       None \<Rightarrow> Inl (Plain ''invalid to'')
     | Some to_addr \<Rightarrow>
    (case NewIntFromString (mt_Amount msg) of
       None \<Rightarrow> Inl coin_ErrInvalidAmount
     | Some amount \<Rightarrow>
        if \<not> 0 < amount then Inl coin_ErrInvalidAmount
        else bindE (SendCoins E b from_addr to_addr amount) (\<lambda>b.
          case keeper_SpendOldestFirst c s (mt_From msg) amount of (consumed, s) \<Rightarrow>
            Inr (b, credit_lots s (mt_To msg) consumed))))))"

record MsgWithdrawRevenue =
  mwr_Authority :: string
  mwr_Amount :: string

definition WithdrawRevenue ::
    "sdk_env \<Rightarrow> string \<Rightarrow> bank \<times> coin_state \<Rightarrow> MsgWithdrawRevenue \<Rightarrow> (bank \<times> coin_state) res"
  where
  "WithdrawRevenue E authority bs msg = (case bs of (b, s) \<Rightarrow>
    (if mwr_Authority msg \<noteq> authority then Inl ErrInvalidSigner
     else case NewIntFromString (mwr_Amount msg) of
         None \<Rightarrow> Inl coin_ErrInvalidAmount
       | Some amount \<Rightarrow>
          if \<not> 0 < amount then Inl coin_ErrInvalidAmount
          else
           (let dest = cp_CompanyPayoutAddress (coin_GetParams s) in
            if dest = [] then Inl coin_ErrNoPayoutAddress
            else case AccAddressFromBech32 E dest of
                None \<Rightarrow> Inl ErrInvalidAddress
              | Some to_addr \<Rightarrow>
                 bindE (wrapE coin_ErrInsufficientFunds
                   (SendCoinsFromModuleToAccount E b RevenueAccountName to_addr amount)) (\<lambda>b.
                 Inr (b, s)))))"

definition coin_UpdateParams ::
    "sdk_env \<Rightarrow> string \<Rightarrow> coin_state \<Rightarrow> string \<Rightarrow> coin_Params \<Rightarrow> coin_state res" where
  "coin_UpdateParams E authority s msg_authority p =
    (if msg_authority \<noteq> authority then Inl ErrInvalidSigner else coin_SetParams E s p)"

section \<open>Genesis\<close>

record coin_GenesisState =
  cg_Params :: coin_Params
  cg_CoinAges :: "CoinAge list"
  cg_StoreEntries :: "KV list"

definition validNonNegAmount :: "string \<Rightarrow> unit res" where
  "validNonNegAmount s =
    (if s = [] then Inr ()
     else case NewIntFromString s of
         None \<Rightarrow> Inl (Plain ''invalid amount'')
       | Some v \<Rightarrow> (if v < 0 then Inl (Plain ''invalid amount'') else Inr ()))"

text \<open>The lot loop; the first argument is the previous lot's time, absent for the first lot.\<close>

primrec validate_lots :: "int option \<Rightarrow> CoinLot list \<Rightarrow> unit res" where
  "validate_lots prev [] = Inr ()"
| "validate_lots prev (lot # lots) =
    bindE (validNonNegAmount (lot_Amount lot)) (\<lambda>_.
     if lot_AcquiredAt lot < 0 then Inl (Plain ''negative acquired_at'')
     else if (case prev of None \<Rightarrow> False | Some t \<Rightarrow> lot_AcquiredAt lot < t)
       then Inl (Plain ''lots must be ordered oldest-first'')
     else validate_lots (Some (lot_AcquiredAt lot)) lots)"

primrec validate_coin_ages ::
    "sdk_env \<Rightarrow> 32 word \<Rightarrow> string list \<Rightarrow> CoinAge list \<Rightarrow> unit res" where
  "validate_coin_ages E maxLots seen [] = Inr ()"
| "validate_coin_ages E maxLots seen (ca # cas) =
    (if AccAddressFromBech32 E (ca_Address ca) = None then Inl (Plain ''invalid address'')
     else if ca_Address ca \<in> set seen then Inl (Plain ''duplicate coin_age entry'')
     else if maxLots < word_of_nat (length (ca_Lots ca))
       then Inl (Plain ''lots exceeds max_coin_age_lots'')
     else bindE (validate_lots None (ca_Lots ca)) (\<lambda>_.
       validate_coin_ages E maxLots (ca_Address ca # seen) cas))"

definition coin_storeEntryRules :: "Rule list" where
  "coin_storeEntryRules =
    [\<lparr>rule_Name = ''micro-exemption quota'', rule_Prefix = MicroQuotaPrefix,
      rule_Value = Some Uint64NoOverflow\<rparr>]"

definition coin_Genesis_Validate :: "sdk_env \<Rightarrow> coin_GenesisState \<Rightarrow> unit res" where
  "coin_Genesis_Validate E gs =
    bindE (coin_Params_Validate E (cg_Params gs)) (\<lambda>_.
    bindE (validate_coin_ages E (cp_MaxCoinAgeLots (cg_Params gs)) [] (cg_CoinAges gs)) (\<lambda>_.
    Validate (cg_StoreEntries gs) coin_storeEntryRules))"

text \<open>One raw entry of the import loop.\<close>

definition import_quota_entry :: "KV \<Rightarrow> coin_state \<Rightarrow> coin_state res" where
  "import_quota_entry e s =
    (if \<not> coin_IsGenesisStoreKey (Key e)
     then Inl (Panic ''key is not under the micro-quota prefix'')
     else Inr (s\<lparr>cs_micro_quota := kv_set (cs_micro_quota s) (Key e) (Value e)\<rparr>))"

definition coin_InitGenesis ::
    "sdk_env \<Rightarrow> coin_state \<Rightarrow> coin_GenesisState \<Rightarrow> coin_state res" where
  "coin_InitGenesis E s gs =
    bindE (coin_Genesis_Validate E gs) (\<lambda>_.
    bindE (coin_SetParams E s (cg_Params gs)) (\<lambda>s.
    foldE import_quota_entry (cg_StoreEntries gs) (foldl SetCoinAge s (cg_CoinAges gs))))"

definition coin_ExportGenesis :: "coin_state \<Rightarrow> coin_GenesisState" where
  "coin_ExportGenesis s =
    \<lparr>cg_Params = coin_GetParams s,
     cg_CoinAges = map snd (cs_coin_ages s),
     cg_StoreEntries = map (\<lambda>(k, v). \<lparr>Key = k, Value = v\<rparr>) (cs_micro_quota s)\<rparr>"

section \<open>Coin-age state: invariant and totals\<close>

lemma CoinAgeKey_eq_iff [simp, key_simps]: "CoinAgeKey a = CoinAgeKey b \<longleftrightarrow> a = b"
  by (simp add: CoinAgeKey_def)

definition lotsOf :: "coin_state \<Rightarrow> string \<Rightarrow> CoinLot list" where
  "lotsOf s a = ca_Lots (GetCoinAge s a)"

definition tracked_total :: "coin_state \<Rightarrow> int" where
  "tracked_total s = (\<Sum>(k, ca) \<leftarrow> cs_coin_ages s. TotalLots (ca_Lots ca))"

definition coin_inv :: "coin_state \<Rightarrow> bool" where
  "coin_inv s \<longleftrightarrow> kv_sorted (cs_coin_ages s) \<and>
     list_all (\<lambda>(k, ca). k = CoinAgeKey (ca_Address ca) \<and> ca_Lots ca \<noteq> []
        \<and> queue_ok (ca_Lots ca)) (cs_coin_ages s)"

lemma queue_ok_Nil [simp]: "queue_ok []"
  by (simp add: queue_ok_def oldest_first_def)

lemma coin_inv_queue: "coin_inv s \<Longrightarrow> queue_ok (lotsOf s a)"
  using kv_get_mem [of "cs_coin_ages s" "CoinAgeKey a"]
  by (fastforce simp: coin_inv_def lotsOf_def GetCoinAge_def list_all_iff split: option.splits)

lemma coin_inv_sorted: "coin_inv s \<Longrightarrow> kv_sorted (cs_coin_ages s)"
  by (simp add: coin_inv_def)

lemma lotsOf_SetCoinAge:
  "lotsOf (SetCoinAge s ca) a = (if a = ca_Address ca then ca_Lots ca else lotsOf s a)"
  by (simp add: lotsOf_def GetCoinAge_def SetCoinAge_def)

lemma SetCoinAge_frame [simp]:
  "cs_params (SetCoinAge s ca) = cs_params s"
  "cs_micro_quota (SetCoinAge s ca) = cs_micro_quota s"
  "coin_GetParams (SetCoinAge s ca) = coin_GetParams s"
  by (simp_all add: SetCoinAge_def coin_GetParams_def)

lemma set_kv_set_subset: "set (kv_set m k v) \<subseteq> insert (k, v) (set m)"
  by (induction m) auto

lemma coin_inv_SetCoinAge: "coin_inv s \<Longrightarrow> queue_ok (ca_Lots ca) \<Longrightarrow> coin_inv (SetCoinAge s ca)"
  using set_kv_set_subset [of "cs_coin_ages s" "CoinAgeKey (ca_Address ca)" ca]
  by (fastforce simp: coin_inv_def SetCoinAge_def list_all_iff kv_delete_def
      intro: kv_sorted_filter)

lemma tracked_total_SetCoinAge:
  assumes "kv_sorted (cs_coin_ages s)"
  shows "tracked_total (SetCoinAge s ca)
    = tracked_total s - TotalLots (lotsOf s (ca_Address ca)) + TotalLots (ca_Lots ca)"
proof -
  let ?f = "\<lambda>(_ :: bytes) ca. TotalLots (ca_Lots ca)"
  have "(case kv_get (cs_coin_ages s) (CoinAgeKey (ca_Address ca)) of
      None \<Rightarrow> 0 | Some ca' \<Rightarrow> TotalLots (ca_Lots ca')) = TotalLots (lotsOf s (ca_Address ca))"
    by (simp add: lotsOf_def GetCoinAge_def split: option.splits)
  then show ?thesis
    using kv.entries_sum_put [OF assms, of ?f "CoinAgeKey (ca_Address ca)" ca]
      kv.entries_sum_del [OF assms, of ?f "CoinAgeKey (ca_Address ca)"]
    by (simp add: tracked_total_def SetCoinAge_def)
qed

lemma AddCoins_frame [simp]:
  "cs_params (AddCoins s a n t) = cs_params s"
  "cs_micro_quota (AddCoins s a n t) = cs_micro_quota s"
  "coin_GetParams (AddCoins s a n t) = coin_GetParams s"
  by (simp_all add: AddCoins_def Let_def)

lemma AddCoins_effect:
  assumes "coin_inv s" "0 \<le> n" "fits (TotalLots (lotsOf s a) + n)" "time_ok t"
  shows "coin_inv (AddCoins s a n t)"
    and "TotalLots (lotsOf (AddCoins s a n t) a) = TotalLots (lotsOf s a) + n"
    and "b \<noteq> a \<Longrightarrow> lotsOf (AddCoins s a n t) b = lotsOf s b"
    and "tracked_total (AddCoins s a n t) = tracked_total s + n"
proof -
  let ?lot = "\<lparr>lot_Amount = Int_String n, lot_AcquiredAt = t\<rparr>"
  have n: "fits n" by (intro fits_mono [OF assms(2) _ assms(3)]) simp
  note ins = InsertLot_ok [OF coin_inv_queue [OF assms(1), of a], of ?lot
      "cp_MaxCoinAgeLots (coin_GetParams s)"]
  have q: "queue_ok (InsertLot (lotsOf s a) ?lot (cp_MaxCoinAgeLots (coin_GetParams s)))"
    and t: "TotalLots (InsertLot (lotsOf s a) ?lot (cp_MaxCoinAgeLots (coin_GetParams s)))
      = TotalLots (lotsOf s a) + n"
    using ins assms n by simp_all
  show "coin_inv (AddCoins s a n t)"
    using assms(1) q by (simp add: AddCoins_def Let_def coin_inv_SetCoinAge lotsOf_def)
  show "TotalLots (lotsOf (AddCoins s a n t) a) = TotalLots (lotsOf s a) + n"
    using assms(2) t by (auto simp: AddCoins_def Let_def lotsOf_SetCoinAge lotsOf_def [symmetric])
  show "b \<noteq> a \<Longrightarrow> lotsOf (AddCoins s a n t) b = lotsOf s b"
    by (simp add: AddCoins_def Let_def lotsOf_SetCoinAge)
  show "tracked_total (AddCoins s a n t) = tracked_total s + n"
    using assms(2) t tracked_total_SetCoinAge [OF coin_inv_sorted [OF assms(1)]]
    by (auto simp: AddCoins_def Let_def lotsOf_def [symmetric])
qed

lemma credit_lots_effect:
  assumes "coin_inv s" "fits (TotalLots (lotsOf s a) + TotalLots lots)"
    and "list_all (\<lambda>l. time_ok (lot_AcquiredAt l)) lots"
  shows "coin_inv (credit_lots s a lots)
    \<and> TotalLots (lotsOf (credit_lots s a lots) a) = TotalLots (lotsOf s a) + TotalLots lots
    \<and> (\<forall>b. b \<noteq> a \<longrightarrow> lotsOf (credit_lots s a lots) b = lotsOf s b)
    \<and> tracked_total (credit_lots s a lots) = tracked_total s + TotalLots lots
    \<and> cs_params (credit_lots s a lots) = cs_params s
    \<and> cs_micro_quota (credit_lots s a lots) = cs_micro_quota s"
  using assms
proof (induction lots arbitrary: s)
  case Nil
  then show ?case by (simp add: credit_lots_def)
next
  case (Cons l lots)
  let ?s = "AddCoins s a (LotAmount l) (lot_AcquiredAt l)"
  have "fits (TotalLots (lotsOf s a) + LotAmount l)"
    by (rule fits_mono [OF _ _ Cons.prems(2)]) (simp_all add: add_nonneg_nonneg)
  note e = AddCoins_effect [OF Cons.prems(1) LotAmount_nonneg this, of "lot_AcquiredAt l"]
  have t: "time_ok (lot_AcquiredAt l)" using Cons.prems(3) by simp
  have step: "credit_lots s a (l # lots) = credit_lots ?s a lots"
    by (simp add: credit_lots_def)
  have "fits (TotalLots (lotsOf ?s a) + TotalLots lots)"
    using Cons.prems(2) e(2) [OF t] by (simp add: add.assoc)
  from Cons.IH [OF e(1) [OF t] this] Cons.prems(3) e(2-4) [OF t] show ?case
    by (auto simp: step)
qed

lemma keeper_SpendOldestFirst_effect:
  assumes "coin_inv s" "0 \<le> n" "fits n" "keeper_SpendOldestFirst c s a n = (consumed, s')"
    and "0 \<le> block_time c" "block_time c < 2 ^ 62"
    and "0 \<le> cp_CoinAgeThresholdSeconds (coin_GetParams s)"
    and "cp_CoinAgeThresholdSeconds (coin_GetParams s) \<le> 2 ^ 62"
  shows "coin_inv s'"
    and "TotalLots consumed = n"
    and "TotalLots (lotsOf s' a) = TotalLots (lotsOf s a) - min n (TotalLots (lotsOf s a))"
    and "b \<noteq> a \<Longrightarrow> lotsOf s' b = lotsOf s b"
    and "tracked_total s' = tracked_total s - min n (TotalLots (lotsOf s a))"
    and "list_all (\<lambda>l. time_ok (lot_AcquiredAt l)) consumed"
    and "cs_params s' = cs_params s" and "cs_micro_quota s' = cs_micro_quota s"
proof -
  let ?th = "cp_CoinAgeThresholdSeconds (coin_GetParams s)"
  obtain r where sp: "SpendOldestFirst (lotsOf s a) n (block_time c) ?th = (consumed, r)"
    and s': "s' = SetCoinAge s ((GetCoinAge s a)\<lparr>ca_Address := a, ca_Lots := r\<rparr>)"
    using assms(4) by (auto simp: keeper_SpendOldestFirst_def lotsOf_def Let_def split: prod.splits)
  note tot = SpendOldestFirst_total [OF assms(2,3) sp]
  obtain c0 left where l: "spend_loop (lotsOf s a) n = (c0, r, left)"
    and cons: "consumed = (if 0 < left then c0 @ [\<lparr>lot_Amount = Int_String left,
        lot_AcquiredAt = i64 (block_time c - ?th)\<rparr>] else c0)"
    using sp by (auto simp: SpendOldestFirst_def split: prod.splits if_splits)
  have qa: "queue_ok (lotsOf s a)" using assms(1) by (rule coin_inv_queue)
  have ord: "oldest_first r"
    and times: "list_all (\<lambda>l. time_ok (lot_AcquiredAt l)) (c0 @ r)"
    using spend_loop_order [OF _ l] qa
    by (auto simp: queue_ok_def list_all_iff) (metis UnCI)+
  have q: "queue_ok r" using ord times by (simp add: queue_ok_def)
  have "time_ok (block_time c - ?th)" using assms(5-8) by (simp add: time_ok_def)
  then have "time_ok (i64 (block_time c - ?th))" by (simp add: time_ok_i64)
  with times show "list_all (\<lambda>l. time_ok (lot_AcquiredAt l)) consumed"
    by (simp add: cons)
  show "coin_inv s'" using assms(1) q by (simp add: s' coin_inv_SetCoinAge)
  show "TotalLots consumed = n" by (rule tot)
  show "TotalLots (lotsOf s' a) = TotalLots (lotsOf s a) - min n (TotalLots (lotsOf s a))"
    using tot(2) by (simp add: s' lotsOf_SetCoinAge)
  show "b \<noteq> a \<Longrightarrow> lotsOf s' b = lotsOf s b" by (simp add: s' lotsOf_SetCoinAge)
  show "tracked_total s' = tracked_total s - min n (TotalLots (lotsOf s a))"
    using tot(2) tracked_total_SetCoinAge [OF coin_inv_sorted [OF assms(1)]] by (simp add: s')
  show "cs_params s' = cs_params s" "cs_micro_quota s' = cs_micro_quota s"
    by (simp_all add: s')
qed

end
