(* ===== verification/CoinTimes.thy ===== *)
theory CoinTimes
  imports CoinKeeper "HOL-Library.Multiset"
begin

text \<open>
  What the coin-age operations do with acquisition times.  Two measures of a queue: the sum of its
  times weighted by amount, and the multiset of its dated amounts.  Spending splits the weighted
  time exactly, a merge never lowers it and stays between the two times it merges, and a queue that
  has room takes a lot over with its own date.
\<close>

definition weighted_time :: "CoinLot list \<Rightarrow> int" where
  "weighted_time lots = (\<Sum>l \<leftarrow> lots. LotAmount l * lot_AcquiredAt l)"

definition dated :: "CoinLot list \<Rightarrow> (int \<times> int) multiset" where
  "dated lots = {#(lot_AcquiredAt l, LotAmount l). l \<in># filter_mset (\<lambda>l. 0 < LotAmount l) (mset lots)#}"

definition times_within :: "CoinLot list \<Rightarrow> CoinLot list \<Rightarrow> bool" where
  "times_within lots ref \<longleftrightarrow> (\<forall>x \<in> set lots. \<exists>y \<in> set ref. \<exists>z \<in> set ref.
     lot_AcquiredAt y \<le> lot_AcquiredAt x \<and> lot_AcquiredAt x \<le> lot_AcquiredAt z)"

lemma weighted_time_simps [simp]:
  "weighted_time [] = 0"
  "weighted_time (l # lots) = LotAmount l * lot_AcquiredAt l + weighted_time lots"
  "weighted_time (xs @ ys) = weighted_time xs + weighted_time ys"
  by (simp_all add: weighted_time_def)

lemma dated_simps [simp]:
  "dated [] = {#}"
  "dated (l # lots) = (if 0 < LotAmount l then {#(lot_AcquiredAt l, LotAmount l)#} else {#}) + dated lots"
  "dated (xs @ ys) = dated xs + dated ys"
  by (simp_all add: dated_def)

lemma times_within_refl: "set lots \<subseteq> set ref \<Longrightarrow> times_within lots ref"
  unfolding times_within_def by (meson order_refl subset_iff)

lemma times_within_mono: "times_within lots ref \<Longrightarrow> set ref \<subseteq> set ref' \<Longrightarrow> times_within lots ref'"
  unfolding times_within_def by (meson subset_iff)

lemma times_within_trans:
  assumes "times_within xs ys" "times_within ys zs"
  shows "times_within xs zs"
  using assms unfolding times_within_def by (meson order_trans)

section \<open>Spending\<close>

lemma spend_loop_weighted:
  assumes "spend_loop lots left = (c, r, left')" "0 \<le> left" "fits left"
  shows "weighted_time c + weighted_time r = weighted_time lots"
  using assms
proof (induction lots arbitrary: left c r left')
  case (Cons l lots)
  consider "\<not> 0 < left" | "0 < left" "LotAmount l \<le> left" | "0 < left" "left < LotAmount l" by linarith
  then show ?case
  proof cases
    case 2
    then obtain c' where c': "c = \<lparr>lot_Amount = Int_String (LotAmount l),
          lot_AcquiredAt = lot_AcquiredAt l\<rparr> # c'"
      and sub: "spend_loop lots (left - LotAmount l) = (c', r, left')"
      using Cons.prems(1) by (auto split: prod.splits)
    have "fits (left - LotAmount l)" using 2 by (intro fits_mono [OF _ _ Cons.prems(3)]) simp_all
    with Cons.IH [OF sub] 2 show ?thesis by (simp add: c' LotAmount_fits)
  next
    case 3
    then have "fits (LotAmount l - left)" using LotAmount_le_fits [of _ l] by simp
    with 3 Cons.prems show ?thesis by (auto simp: algebra_simps)
  qed (use Cons.prems in auto)
qed simp

lemma SpendOldestFirst_weighted:
  assumes "0 \<le> amount" "fits amount" "SpendOldestFirst lots amount now th = (c, r)"
  shows "weighted_time c + weighted_time r
    = weighted_time lots + (amount - min amount (TotalLots lots)) * i64 (now - th)"
proof -
  obtain c0 left where s: "spend_loop lots amount = (c0, r, left)"
    and c: "c = (if 0 < left then c0 @ [\<lparr>lot_Amount = Int_String left, lot_AcquiredAt = i64 (now - th)\<rparr>] else c0)"
    using assms(3) by (auto simp: SpendOldestFirst_def split: prod.splits if_splits)
  note t = spend_loop_total [OF assms(1,2) s] and w = spend_loop_weighted [OF s assms(1,2)]
  have f: "fits left" using t by (intro fits_mono [OF _ _ assms(2)]) auto
  have "amount - left \<le> TotalLots lots" using t TotalLots_nonneg [of r] by linarith
  then have "left = amount - min amount (TotalLots lots)"
    using t by (cases "0 < left") (auto simp: min_def)
  with w f t show ?thesis by (cases "0 < left") (simp_all add: c)
qed

section \<open>Merging and inserting\<close>

lemma bound_loop_times:
  assumes "queue_ok lots" "fits (TotalLots lots)"
  shows "weighted_time lots \<le> weighted_time (bound_loop m lots) \<and> times_within (bound_loop m lots) lots"
  using assms
proof (induction m lots rule: bound_loop.induct)
  case (1 m a b rest)
  have f: "fits (LotAmount a + LotAmount b)" by (rule fits_mono [OF _ _ 1(3)]) simp_all
  have ab: "time_ok (lot_AcquiredAt a)" "time_ok (lot_AcquiredAt b)" "lot_AcquiredAt a \<le> lot_AcquiredAt b"
    using 1(2) by (simp_all add: queue_ok_def oldest_first_def)
  note mb = mergedAcquiredAt_bounds [OF ab]
  have merged: "times_within (mergeOldest a b # rest) (a # b # rest)"
    using times_within_refl [of rest "a # b # rest"] mb(1,2) by (auto simp: times_within_def mergeOldest_def)
  have w: "weighted_time (a # b # rest) \<le> weighted_time (mergeOldest a b # rest)"
    using mb(3) mergeOldest_total [OF f] by (simp add: mergeOldest_def)
  show ?case
  proof (cases "m < word_of_nat (length (a # b # rest))")
    case True
    have "fits (TotalLots (mergeOldest a b # rest))" using 1(3) by (simp add: mergeOldest_total [OF f] add.assoc)
    from 1(1) [OF True mergeOldest_ok [OF 1(2)] this] w merged True show ?thesis
      using times_within_trans by (auto simp del: weighted_time_simps simp add: bound_loop.simps(1))
  next
    case False
    then show ?thesis by (simp add: times_within_refl del: of_nat_Suc)
  qed
qed (simp_all add: times_within_refl)

lemma insert_mid:
  fixes lots lot
  defines "out \<equiv> takeWhile (\<lambda>l. \<not> lot_AcquiredAt lot < lot_AcquiredAt l) lots @ lot #
         dropWhile (\<lambda>l. \<not> lot_AcquiredAt lot < lot_AcquiredAt l) lots"
  shows "mset out = add_mset lot (mset lots)" "set out = insert lot (set lots)" "length out = Suc (length lots)"
    "weighted_time out = weighted_time lots + LotAmount lot * lot_AcquiredAt lot"
    "TotalLots out = TotalLots lots + LotAmount lot"
proof -
  show m: "mset out = add_mset lot (mset lots)"
    unfolding out_def by (metis mset.simps(2) mset_append takeWhile_dropWhile_id union_mset_add_mset_right)
  then show "set out = insert lot (set lots)" by (metis set_mset_add_mset_insert set_mset_mset)
  from m show "length out = Suc (length lots)" by (metis size_add_mset size_mset)
  have "sum_mset (image_mset f (mset out)) = sum_mset (image_mset f (mset lots)) + f lot" for f :: "CoinLot \<Rightarrow> int"
    by (simp add: m)
  then have "sum_list (map f out) = sum_list (map f lots) + f lot" for f :: "CoinLot \<Rightarrow> int"
    by (metis mset_map sum_mset_sum_list)
  then show "weighted_time out = weighted_time lots + LotAmount lot * lot_AcquiredAt lot"
    "TotalLots out = TotalLots lots + LotAmount lot"
    by (simp_all add: weighted_time_def TotalLots_sum)
qed

lemma dated_mset: "mset xs = mset ys \<Longrightarrow> dated xs = dated ys"
  by (simp add: dated_def)

lemma InsertLot_times:
  assumes "queue_ok lots" "time_ok (lot_AcquiredAt lot)" "fits (TotalLots lots + LotAmount lot)"
  shows "weighted_time lots + LotAmount lot * lot_AcquiredAt lot \<le> weighted_time (InsertLot lots lot m)"
    and "times_within (InsertLot lots lot m) (lot # lots)"
    and "length lots < unat m \<Longrightarrow> dated (InsertLot lots lot m) = dated (lot # lots)"
    and "length (InsertLot lots lot m) \<le> Suc (length lots)"
proof -
  let ?out = "takeWhile (\<lambda>l. \<not> lot_AcquiredAt lot < lot_AcquiredAt l) lots @ lot #
         dropWhile (\<lambda>l. \<not> lot_AcquiredAt lot < lot_AcquiredAt l) lots"
  note im = insert_mid [of lot lots]
  define m' where "m' = (if m = 0 then DefaultMaxCoinAgeLots else m)"
  have ins: "InsertLot lots lot m = (if 0 < LotAmount lot then bound_loop m' ?out else lots)"
    by (simp add: InsertLot_def BoundLots_def m'_def)
  have q: "queue_ok ?out"
    using assms(1,2) sorted_insert_mid [of lot_AcquiredAt lots lot]
    by (auto simp: queue_ok_def oldest_first_def list_all_iff dest: set_takeWhileD set_dropWhileD)
  have zero: "LotAmount lot = 0" if "\<not> 0 < LotAmount lot" using that LotAmount_nonneg [of lot] by linarith
  have "fits (TotalLots ?out)" using assms(3) by (simp only: im(5))
  note b = bound_loop_times [OF q this, of m']
  show "weighted_time lots + LotAmount lot * lot_AcquiredAt lot \<le> weighted_time (InsertLot lots lot m)"
    using b im(4) zero by (cases "0 < LotAmount lot") (simp_all add: ins del: weighted_time_simps)
  show "times_within (InsertLot lots lot m) (lot # lots)"
    using times_within_mono [of _ ?out "lot # lots"] b im(2) times_within_refl [of lots "lot # lots"]
    by (cases "0 < LotAmount lot") (auto simp: ins)
  show "dated (InsertLot lots lot m) = dated (lot # lots)" if "length lots < unat m"
  proof (cases "0 < LotAmount lot")
    case True
    have "m' = m" using that by (auto simp: m'_def)
    with that im(3) have "bound_loop m' ?out = ?out" by (intro bound_loop_short) simp
    with True dated_mset [of ?out "lot # lots"] im(1) show ?thesis by (simp add: ins)
  qed (simp add: ins)
  have "length (bound_loop k xs) \<le> length xs" for k xs
    by (induction k xs rule: bound_loop.induct) auto
  from this [of m' ?out] im(3) show "length (InsertLot lots lot m) \<le> Suc (length lots)" by (simp add: ins)
qed

section \<open>Crediting a recipient\<close>

lemma AddCoins_queue:
  assumes "0 \<le> n" "fits n"
  shows "lotsOf (AddCoins s a n t) a
    = InsertLot (lotsOf s a) \<lparr>lot_Amount = Int_String n, lot_AcquiredAt = t\<rparr> (cp_MaxCoinAgeLots (coin_GetParams s))"
  using assms by (auto simp: AddCoins_def Let_def lotsOf_SetCoinAge lotsOf_def [symmetric] InsertLot_def)

lemma keeper_SpendOldestFirst_queue:
  assumes "keeper_SpendOldestFirst c s a n = (consumed, s')"
  shows "SpendOldestFirst (lotsOf s a) n (block_time c) (cp_CoinAgeThresholdSeconds (coin_GetParams s))
    = (consumed, lotsOf s' a)"
  using assms by (auto simp: keeper_SpendOldestFirst_def Let_def lotsOf_SetCoinAge lotsOf_def [symmetric] split: prod.splits)

lemma credit_lots_times:
  assumes "coin_inv s" "fits (TotalLots (lotsOf s a) + TotalLots lots)"
    and "list_all (\<lambda>l. time_ok (lot_AcquiredAt l)) lots"
  shows "weighted_time (lotsOf s a) + weighted_time lots \<le> weighted_time (lotsOf (credit_lots s a lots) a)
    \<and> times_within (lotsOf (credit_lots s a lots) a) (lotsOf s a @ lots)
    \<and> (length (lotsOf s a) + length lots \<le> unat (cp_MaxCoinAgeLots (coin_GetParams s))
        \<longrightarrow> dated (lotsOf (credit_lots s a lots) a) = dated (lotsOf s a) + dated lots)"
  using assms
proof (induction lots arbitrary: s)
  case Nil
  then show ?case by (simp add: credit_lots_def times_within_refl)
next
  case (Cons l lots)
  define s1 where "s1 = AddCoins s a (LotAmount l) (lot_AcquiredAt l)"
  define l' where "l' = \<lparr>lot_Amount = Int_String (LotAmount l), lot_AcquiredAt = lot_AcquiredAt l\<rparr>"
  have l': "LotAmount l' = LotAmount l" "lot_AcquiredAt l' = lot_AcquiredAt l"
    by (simp_all add: l'_def LotAmount_fits)
  have f: "fits (TotalLots (lotsOf s a) + LotAmount l)"
    by (rule fits_mono [OF _ _ Cons.prems(2)]) (simp_all add: add_nonneg_nonneg)
  have t: "time_ok (lot_AcquiredAt l)" using Cons.prems(3) by simp
  note e = AddCoins_effect [OF Cons.prems(1) LotAmount_nonneg f t, folded s1_def]
  have q: "lotsOf s1 a = InsertLot (lotsOf s a) l' (cp_MaxCoinAgeLots (coin_GetParams s))"
    unfolding s1_def l'_def by (rule AddCoins_queue) (simp_all add: LotAmount_fits)
  note i = InsertLot_times [OF coin_inv_queue [OF Cons.prems(1), of a], of l'
      "cp_MaxCoinAgeLots (coin_GetParams s)", unfolded l', OF t f, folded q]
  have "fits (TotalLots (lotsOf s1 a) + TotalLots lots)" using Cons.prems(2) e(2) by (simp add: add.assoc)
  note ih = Cons.IH [OF e(1) this]
  have step: "credit_lots s a (l # lots) = credit_lots s1 a lots" by (simp add: credit_lots_def s1_def)
  have p: "coin_GetParams s1 = coin_GetParams s" by (simp add: s1_def)
  have "times_within (lotsOf s1 a @ lots) (lotsOf s a @ l # lots)"
    using i(2) l' unfolding times_within_def by (fastforce intro: order_refl)
  with ih i Cons.prems(3) p show ?case
    using times_within_trans unfolding step by (auto simp: l')
qed

end
