(* ===== verification/CoinProps.thy ===== *)
theory CoinProps
  imports CoinTimes
begin

text \<open>
  Correctness of the coin module: conservation and order of the coin-age queues,
  the transfer handler, the fee split, the micro-exemption quota and its pruning,
  and the genesis round trip.
\<close>

section \<open>Parameters\<close>

lemma validate_splits_ok:
  "validate_splits seen ss = Inr u \<Longrightarrow>
    distinct (map se_MsgTypeUrl ss) \<and> set seen \<inter> set (map se_MsgTypeUrl ss) = {} \<and>
    (\<forall>s \<in> set ss. int (unat (se_ValidatorBps s)) + int (unat (se_CompanyBps s)) \<le> 10000)"
  by (induction ss arbitrary: seen) (fastforce simp: ok_simps BpsDenominator_def)+

lemma coin_Params_Validate_ok:
  assumes "coin_Params_Validate E p = Inr u"
  shows "int (unat (cp_YoungPenaltyBps p)) + int (unat (cp_OldPenaltyBps p)) < 9000"
    and "2 \<le> cp_MaxCoinAgeLots p" and "cp_MaxCoinAgeLots p \<le> 1024"
    and "0 \<le> cp_CoinAgeThresholdSeconds p"
    and "cp_MicroDailyQuota p \<le> 1000"
    and "\<forall>s \<in> set (cp_Splits p). int (unat (se_CompanyBps s)) \<le> 10000"
proof -
  note ok = assms [unfolded coin_Params_Validate_def]
  show "int (unat (cp_YoungPenaltyBps p)) + int (unat (cp_OldPenaltyBps p)) < 9000"
    "2 \<le> cp_MaxCoinAgeLots p" "cp_MaxCoinAgeLots p \<le> 1024" "0 \<le> cp_CoinAgeThresholdSeconds p"
    "cp_MicroDailyQuota p \<le> 1000"
    using ok by (auto simp: ok_simps BpsDenominator_def MaxProtocolFeeReserveBps_def
        MinCoinAgeLots_def MaxCoinAgeLotsCeiling_def MaxMicroDailyQuota_def not_less
        split: option.splits if_splits)
  have "validate_splits [] (cp_Splits p) = Inr ()"
    using ok by (auto simp: ok_simps split: option.splits if_splits)
  note sums = validate_splits_ok [OF this]
  show "\<forall>s \<in> set (cp_Splits p). int (unat (se_CompanyBps s)) \<le> 10000"
  proof
    fix e assume "e \<in> set (cp_Splits p)"
    with sums have "int (unat (se_ValidatorBps e)) + int (unat (se_CompanyBps e)) \<le> 10000"
      by blast
    then show "int (unat (se_CompanyBps e)) \<le> 10000" by linarith
  qed
qed

section \<open>Fee split\<close>

lemma SplitFor_bps:
  assumes "\<forall>s \<in> set (cp_Splits p). int (unat (se_CompanyBps s)) \<le> 10000"
  shows "int (unat (se_CompanyBps (fst (SplitFor p url)))) \<le> 10000"
  using assms by (auto simp: SplitFor_def find_Some_iff split: option.splits)

lemma CompanyShare_bounds:
  assumes "0 \<le> fee" "int (unat (se_CompanyBps e)) \<le> 10000" "CompanyShare e fee = (company, validator)"
  shows "0 \<le> company" "0 \<le> validator" "company + validator = fee"
    and "company = fee * int (unat (se_CompanyBps e)) div 10000"
proof -
  show c: "company = fee * int (unat (se_CompanyBps e)) div 10000"
    using assms by (auto simp: CompanyShare_def Let_def BpsDenominator_def sdiv_nonneg)
  show "company + validator = fee" using assms(3) by (auto simp: CompanyShare_def Let_def)
  show "0 \<le> company" using assms(1) by (simp add: c pos_imp_zdiv_nonneg_iff)
  have "fee * int (unat (se_CompanyBps e)) \<le> fee * 10000"
    using assms(1,2) by (rule mult_left_mono [rotated])
  then have "company \<le> fee" using zdiv_mono1 [of _ "fee * 10000" 10000] by (simp add: c)
  then show "0 \<le> validator" using assms(3) by (auto simp: CompanyShare_def Let_def)
qed

definition leg_sum :: "string \<Rightarrow> FeeSplit \<Rightarrow> int" where
  "leg_sum stream fs = (\<Sum>l \<leftarrow> filter (\<lambda>l. leg_Stream l = stream) (fs_Legs fs). leg_Amount l)"

definition url_sum :: "string \<Rightarrow> FeeSplit \<Rightarrow> int" where
  "url_sum url fs = (\<Sum>l \<leftarrow> filter (\<lambda>l. leg_MsgTypeURL l = url) (fs_Legs fs). leg_Amount l)"

definition balanced_split :: "FeeSplit \<Rightarrow> bool" where
  "balanced_split fs \<longleftrightarrow> fs_Total fs = fs_Validator fs + fs_Company fs
     \<and> 0 \<le> fs_Validator fs \<and> 0 \<le> fs_Company fs
     \<and> leg_sum ''validator'' fs = fs_Validator fs \<and> leg_sum ''company'' fs = fs_Company fs
     \<and> list_all (\<lambda>l. 0 < leg_Amount l) (fs_Legs fs)"

lemma balanced_step:
  assumes "balanced_split out" "\<forall>s \<in> set (cp_Splits p). int (unat (se_CompanyBps s)) \<le> 10000"
  shows "balanced_split (fee_split_step p out m)"
proof (cases "0 < FeeForMsg p m")
  case True
  obtain company validator
    where cs: "CompanyShare (fst (SplitFor p (MsgTypeURL m))) (FeeForMsg p m) = (company, validator)"
    by fastforce
  note b = CompanyShare_bounds [OF less_imp_le [OF True] SplitFor_bps [OF assms(2)] cs]
  have "company = 0" if "\<not> 0 < company" using that b(1) by simp
  moreover have "validator = 0" if "\<not> 0 < validator" using that b(2) by simp
  ultimately show ?thesis
    using assms(1) True b cs
    by (auto simp: fee_split_step_def Let_def balanced_split_def leg_sum_def)
next
  case False
  with assms(1) show ?thesis by (simp add: fee_split_step_def Let_def)
qed

lemma balanced_foldl:
  "balanced_split out \<Longrightarrow> \<forall>s \<in> set (cp_Splits p). int (unat (se_CompanyBps s)) \<le> 10000
    \<Longrightarrow> balanced_split (foldl (fee_split_step p) out msgs)"
  by (induction msgs arbitrary: out) (simp_all add: balanced_step)

lemma balanced_NewFeeSplit: "balanced_split NewFeeSplit"
  by (simp add: balanced_split_def NewFeeSplit_def leg_sum_def)

lemma fee_split_step_totals:
  assumes "\<forall>s \<in> set (cp_Splits p). int (unat (se_CompanyBps s)) \<le> 10000"
  shows "fs_Total (fee_split_step p out m) = fs_Total out + max 0 (FeeForMsg p m)"
    "fs_Company (fee_split_step p out m)
      = fs_Company out + max 0 (FeeForMsg p m) * int (unat (se_CompanyBps (fst (SplitFor p (MsgTypeURL m))))) div 10000"
    "url_sum url (fee_split_step p out m) = url_sum url out + (if MsgTypeURL m = url then max 0 (FeeForMsg p m) else 0)"
proof -
  obtain company validator
    where cs: "CompanyShare (fst (SplitFor p (MsgTypeURL m))) (FeeForMsg p m) = (company, validator)"
    by fastforce
  note b = CompanyShare_bounds [OF _ SplitFor_bps [OF assms] cs]
  have "0 < company \<or> company = 0" "0 < validator \<or> validator = 0" if "0 < FeeForMsg p m"
    using b(1,2) that by auto
  then show "fs_Total (fee_split_step p out m) = fs_Total out + max 0 (FeeForMsg p m)"
    "fs_Company (fee_split_step p out m)
      = fs_Company out + max 0 (FeeForMsg p m) * int (unat (se_CompanyBps (fst (SplitFor p (MsgTypeURL m))))) div 10000"
    "url_sum url (fee_split_step p out m) = url_sum url out + (if MsgTypeURL m = url then max 0 (FeeForMsg p m) else 0)"
    using b(3,4) cs by (auto simp: fee_split_step_def Let_def url_sum_def max_def)
qed

lemma fee_split_foldl_totals:
  assumes "\<forall>s \<in> set (cp_Splits p). int (unat (se_CompanyBps s)) \<le> 10000"
  shows "fs_Total (foldl (fee_split_step p) out msgs) = fs_Total out + (\<Sum>m \<leftarrow> msgs. max 0 (FeeForMsg p m))"
    "fs_Company (foldl (fee_split_step p) out msgs) = fs_Company out
      + (\<Sum>m \<leftarrow> msgs. max 0 (FeeForMsg p m) * int (unat (se_CompanyBps (fst (SplitFor p (MsgTypeURL m))))) div 10000)"
    "url_sum url (foldl (fee_split_step p) out msgs)
      = url_sum url out + (\<Sum>m \<leftarrow> filter (\<lambda>m. MsgTypeURL m = url) msgs. max 0 (FeeForMsg p m))"
  by (induction msgs arbitrary: out) (simp_all add: fee_split_step_totals [OF assms])

section \<open>Quota counters\<close>

lemma BigEndianToUint64_be64 [simp]: "BigEndianToUint64 (be64 w) = w"
  using length_be64 [of w] by (auto simp: BigEndianToUint64_def simp del: length_be64)

lemma MicroQuotaKey_eq_iff [key_simps]:
  "MicroQuotaKey d a = MicroQuotaKey d' a' \<longleftrightarrow> u64_of_int d = u64_of_int d' \<and> a = a'"
  by (simp add: MicroQuotaKey_def MicroQuotaPrefix_def append_eq_append_conv)

lemma GetMicroUsed_Incr:
  "GetMicroUsed (IncrMicroUsed s d a) d' a' =
    (if u64_of_int d = u64_of_int d' \<and> a = a' then GetMicroUsed s d a + 1 else GetMicroUsed s d' a')"
proof (cases "MicroQuotaKey d a = MicroQuotaKey d' a'")
  case True
  then have "kv_get (cs_micro_quota (IncrMicroUsed s d a)) (MicroQuotaKey d' a')
      = Some (be64 (GetMicroUsed s d a + 1))"
    by (simp add: IncrMicroUsed_def)
  with True show ?thesis by (simp add: GetMicroUsed_def key_simps)
next
  case False
  then have "\<not> (u64_of_int d = u64_of_int d' \<and> a = a')" by (simp add: key_simps)
  moreover have "kv_get (cs_micro_quota (IncrMicroUsed s d a)) (MicroQuotaKey d' a')
      = kv_get (cs_micro_quota s) (MicroQuotaKey d' a')"
    using False by (simp add: IncrMicroUsed_def)
  ultimately show ?thesis by (auto simp: GetMicroUsed_def)
qed

lemma quota_sorted_Incr:
  "kv_sorted (cs_micro_quota s) \<Longrightarrow> kv_sorted (cs_micro_quota (IncrMicroUsed s d a))"
  by (simp add: IncrMicroUsed_def)

lemma MicroQuotaKey_below:
  "MicroQuotaKey d a < MicroQuotaDayBound d' \<longleftrightarrow> u64_of_int d < u64_of_int d'"
  by (simp add: MicroQuotaKey_def MicroQuotaDayBound_def MicroQuotaPrefix_def)

section \<open>Genesis\<close>

lemma foldl_SetCoinAge:
  assumes "list_all (\<lambda>(k, ca). k = CoinAgeKey (ca_Address ca) \<and> ca_Lots ca \<noteq> [] \<and> queue_ok (ca_Lots ca)) es"
  shows "foldl SetCoinAge t (map snd es)
    = t\<lparr>cs_coin_ages := foldl (\<lambda>m e. kv_set m (fst e) (snd e)) (cs_coin_ages t) es\<rparr>"
  using assms
proof (induction es arbitrary: t)
  case (Cons e es)
  then have "SetCoinAge t (snd e) = t\<lparr>cs_coin_ages := kv_set (cs_coin_ages t) (fst e) (snd e)\<rparr>"
    by (auto simp: SetCoinAge_def split: prod.splits)
  with Cons show ?case by simp
qed simp

lemma foldE_store_entries:
  assumes "list_all (\<lambda>e. coin_IsGenesisStoreKey (fst e)) es"
  shows "foldE import_quota_entry (map (\<lambda>(k, v). \<lparr>Key = k, Value = v\<rparr>) es) t
   = Inr (t\<lparr>cs_micro_quota := foldl (\<lambda>m e. kv_set m (fst e) (snd e)) (cs_micro_quota t) es\<rparr>)"
  using assms by (induction es arbitrary: t) (auto simp: case_prod_beta import_quota_entry_def)

lemma coin_rules_inj: "inj_on rule_Prefix (set coin_storeEntryRules)"
  by (simp add: coin_storeEntryRules_def)

lemma validated_entries_are_quota_keys:
  assumes "Validate es coin_storeEntryRules = Inr u" "e \<in> set es"
  shows "coin_IsGenesisStoreKey (Key e)"
proof -
  from assms(1) have "isOK (Validate es coin_storeEntryRules)" by simp
  with assms(2) obtain r where "decides (Key e) coin_storeEntryRules r"
    by (auto simp: Validate_iff [OF coin_rules_inj])
  then show ?thesis
    by (auto simp: decides_def coin_storeEntryRules_def applies_def coin_IsGenesisStoreKey_def)
qed

lemma validate_coin_ages_long:
  assumes "ca \<in> set cas" "maxLots < word_of_nat (length (ca_Lots ca))"
  shows "\<not> isOK (validate_coin_ages E maxLots seen cas)"
  using assms by (induction cas arbitrary: seen) (auto simp: ok_simps)

section \<open>Properties\<close>

text \<open>
  C1: spending from a coin-age queue conserves coin.  For any non-negative amount of at
  most 256 bits, the lots consumed add up to exactly that amount (including the untracked
  surplus, if any) and the queue shrinks by exactly the part of the amount it could cover.
\<close>

theorem spend_conserves:
  assumes "0 \<le> amount" "fits amount"
    and "SpendOldestFirst lots amount now th = (consumed, remaining)"
  shows "TotalLots consumed = amount
    \<and> TotalLots remaining = TotalLots lots - min amount (TotalLots lots)"
  using SpendOldestFirst_total [OF assms] by simp

definition lots_example :: "CoinLot list" where
  "lots_example = [\<lparr>lot_Amount = ''30'', lot_AcquiredAt = 5\<rparr>, \<lparr>lot_Amount = ''20'', lot_AcquiredAt = 9\<rparr>]"

theorem spend_conserves_witness:
  "TotalLots (fst (SpendOldestFirst lots_example 40 100 7)) = 40
   \<and> TotalLots (snd (SpendOldestFirst lots_example 40 100 7))
     = TotalLots lots_example - min 40 (TotalLots lots_example)"
  using spend_conserves [of 40 lots_example 100 7
      "fst (SpendOldestFirst lots_example 40 100 7)" "snd (SpendOldestFirst lots_example 40 100 7)"]
  by (simp add: fits_def)

text \<open>
  C2: spending is first-in first-out.  From an oldest-first queue the remaining queue is again
  oldest-first, every lot taken from the queue is at most as young as every lot left in it, and
  both sides only carry acquisition times the queue already had.
\<close>

theorem spend_is_fifo:
  assumes "oldest_first lots" "spend_loop lots amount = (consumed, remaining, left)"
  shows "oldest_first remaining \<and> oldest_first consumed
    \<and> (\<forall>x \<in> set consumed. \<forall>y \<in> set remaining. lot_AcquiredAt x \<le> lot_AcquiredAt y)
    \<and> lot_AcquiredAt ` (set consumed \<union> set remaining) \<subseteq> lot_AcquiredAt ` set lots
    \<and> SpendOldestFirst lots amount now th =
        (if 0 < left
         then consumed @ [\<lparr>lot_Amount = Int_String left, lot_AcquiredAt = i64 (now - th)\<rparr>]
         else consumed, remaining)"
  using spend_loop_order [OF assms] assms(2)
  by (auto simp: SpendOldestFirst_def)

theorem spend_is_fifo_witness:
  "oldest_first (fst (snd (spend_loop lots_example 40)))"
  using spend_is_fifo [of lots_example 40 "fst (spend_loop lots_example 40)"
      "fst (snd (spend_loop lots_example 40))" "snd (snd (spend_loop lots_example 40))" 100 7]
  by (simp add: oldest_first_def lots_example_def)

text \<open>
  C3: inserting a lot keeps the queue oldest-first and, for a governed bound of at least two,
  within that bound, while the tracked total grows by exactly the lot's amount: the merging that
  enforces the bound neither creates nor destroys coin.
\<close>

theorem insert_keeps_queue:
  assumes "queue_ok lots" "time_ok (lot_AcquiredAt lot)" "fits (TotalLots lots + LotAmount lot)"
    and "0 < LotAmount lot" "2 \<le> m" "length lots < 2 ^ 32 - 1"
  shows "queue_ok (InsertLot lots lot m)
    \<and> length (InsertLot lots lot m) \<le> unat m
    \<and> TotalLots (InsertLot lots lot m) = TotalLots lots + LotAmount lot"
  using InsertLot_ok [OF assms(1-3)] InsertLot_length [OF assms(6,5,4)] by simp

definition lot_example :: CoinLot where
  "lot_example = \<lparr>lot_Amount = ''7'', lot_AcquiredAt = 6\<rparr>"

lemma lots_example_amounts:
  "LotAmount lot_example = 7" "TotalLots lots_example = 50"
  by code_simp+

theorem insert_keeps_queue_witness:
  "queue_ok (InsertLot lots_example lot_example 2)
   \<and> length (InsertLot lots_example lot_example 2) \<le> 2
   \<and> TotalLots (InsertLot lots_example lot_example 2) = 57"
  using insert_keeps_queue [of lots_example lot_example 2]
  by (simp add: lots_example_amounts queue_ok_def oldest_first_def time_ok_def fits_def)
    (simp add: lots_example_def lot_example_def)

text \<open>
  C4: merging the two oldest lots of a queue takes the mean of their times, weighted by amount and
  rounded towards young.  The merged lot holds the sum of the two amounts, its time lies between
  theirs, and the amount-weighted time of the queue does not fall (and rises by at most one
  second per unit of the merged amount), so merging cannot make a holder's coin older on average.  It is an
  average that is protected: the coin of the newer of the two lots does take an earlier time.
\<close>

theorem merge_keeps_weighted_age:
  assumes "time_ok (lot_AcquiredAt a)" "time_ok (lot_AcquiredAt b)"
    and "lot_AcquiredAt a \<le> lot_AcquiredAt b" "fits (LotAmount a + LotAmount b)"
  shows "LotAmount (mergeOldest a b) = LotAmount a + LotAmount b
    \<and> lot_AcquiredAt a \<le> lot_AcquiredAt (mergeOldest a b)
    \<and> lot_AcquiredAt (mergeOldest a b) \<le> lot_AcquiredAt b
    \<and> LotAmount a * lot_AcquiredAt a + LotAmount b * lot_AcquiredAt b
      \<le> LotAmount (mergeOldest a b) * lot_AcquiredAt (mergeOldest a b)
    \<and> LotAmount (mergeOldest a b) * lot_AcquiredAt (mergeOldest a b)
      \<le> LotAmount a * lot_AcquiredAt a + LotAmount b * lot_AcquiredAt b + LotAmount (mergeOldest a b)"
  using mergedAcquiredAt_bounds [OF assms(1-3)] mergeOldest_total [OF assms(4)]
  by (simp add: mergeOldest_def)

theorem merge_keeps_weighted_age_witness:
  "LotAmount (mergeOldest (lots_example ! 0) (lots_example ! 1)) = 50"
proof -
  have a: "LotAmount (lots_example ! 0) = 30" "LotAmount (lots_example ! 1) = 20"
    by code_simp+
  show ?thesis
    using merge_keeps_weighted_age [of "lots_example ! 0" "lots_example ! 1"] a
    by (simp add: time_ok_def fits_def lots_example_def)
qed

text \<open>
  C5: the exit penalty on a redemption never takes more than the governed rates allow.  Under
  validated parameters the penalty charged for redeeming an amount is non-negative and below ninety
  per cent of it, and the amount is taken off the holder's queue, oldest coin first.
\<close>

theorem early_redeem_penalty_bounded:
  assumes "coin_inv s" "0 < n" "fits n"
    and "coin_Params_Validate E (coin_GetParams s) = Inr ()"
    and "cp_CoinAgeThresholdSeconds (coin_GetParams s) \<le> 2 ^ 62"
    and "0 \<le> block_time c" "block_time c < 2 ^ 62"
    and "EarlyRedeemPenalty c s a n = (penalty, s')"
  shows "0 \<le> penalty \<and> penalty * 10000 \<le> n * 8999
    \<and> TotalLots (lotsOf s' a) = TotalLots (lotsOf s a) - min n (TotalLots (lotsOf s a))
    \<and> (\<forall>b. b \<noteq> a \<longrightarrow> lotsOf s' b = lotsOf s b) \<and> coin_inv s'"
proof -
  let ?p = "coin_GetParams s"
  obtain consumed where k: "keeper_SpendOldestFirst c s a n = (consumed, s')"
    and pen: "penalty = PenaltyForLots consumed (block_time c) (cp_YoungPenaltyBps (coin_GetParams s'))
      (cp_OldPenaltyBps (coin_GetParams s')) (cp_CoinAgeThresholdSeconds (coin_GetParams s'))"
    using assms(2,8) by (auto simp: EarlyRedeemPenalty_def Let_def split: prod.splits)
  note v = coin_Params_Validate_ok [OF assms(4)]
  note e = keeper_SpendOldestFirst_effect [OF assms(1) less_imp_le [OF assms(2)] assms(3) k
      assms(6,7) v(4) assms(5)]
  have "coin_GetParams s' = ?p" using e(7) by (simp add: coin_GetParams_def)
  moreover have "int (unat (cp_YoungPenaltyBps ?p)) \<le> 8999" "int (unat (cp_OldPenaltyBps ?p)) \<le> 8999"
    using v(1) by linarith+
  ultimately show ?thesis
    using PenaltyForLots_bounds [of "cp_YoungPenaltyBps ?p" 8999 "cp_OldPenaltyBps ?p" consumed]
      pen e(1-4) by simp
qed

definition coin_example :: coin_state where
  "coin_example = AddCoins (AddCoins empty_coin_state ''alice'' 30 5) ''alice'' 20 9"

definition ctx_example :: ctx where
  "ctx_example = \<lparr>block_time = 2000000, chain_id = ''phi-1'', block_height = 10\<rparr>"

definition env_example :: sdk_env where
  "env_example = \<lparr>AccAddressFromBech32 = (\<lambda>s. if s = [] then None else Some s),
     AccAddress_String = (\<lambda>a. a), ModuleAddress = (\<lambda>m. ''module/'' @ m), LockedCoins = (\<lambda>_. 0)\<rparr>"

lemma coin_example_eval:
  "coin_inv coin_example \<and> TotalLots (lotsOf coin_example ''alice'') = 50
   \<and> lotsOf coin_example ''bob'' = [] \<and> tracked_total coin_example = 50
   \<and> cs_params coin_example = None
   \<and> NewIntFromString ''5000'' = Some 5000 \<and> NewIntFromString ''50000'' = Some 50000
   \<and> NewIntFromString ''120000'' = Some 120000 \<and> NewIntFromString ''60'' = Some 60"
  by code_simp

lemma coin_example_facts:
  "coin_inv coin_example" "TotalLots (lotsOf coin_example ''alice'') = 50"
  "lotsOf coin_example ''bob'' = []" "tracked_total coin_example = 50"
  "coin_GetParams coin_example = coin_DefaultParams"
  using coin_example_eval by (simp_all add: coin_GetParams_def)

lemma parse_examples:
  "NewIntFromString ''5000'' = Some 5000" "NewIntFromString ''50000'' = Some 50000"
  "NewIntFromString ''120000'' = Some 120000" "NewIntFromString ''60'' = Some 60"
  using coin_example_eval by simp_all

lemma coin_DefaultParams_valid: "coin_Params_Validate env_example coin_DefaultParams = Inr ()"
  by (simp add: coin_Params_Validate_def coin_DefaultParams_def parse_examples
      validate_fee_entry_def MaxMicroThresholdUphi_def MaxMicroDailyQuota_def BpsDenominator_def
      MaxProtocolFeeReserveBps_def MinCoinAgeLots_def MaxCoinAgeLotsCeiling_def
      DefaultMaxCoinAgeLots_def MsgTransferTypeURL_def MsgAnchorPersonalTypeURL_def
      MsgCreateAgreementTypeURL_def)

theorem early_redeem_penalty_bounded_witness:
  "fst (EarlyRedeemPenalty ctx_example coin_example ''alice'' 40) * 10000 \<le> 40 * 8999"
  using early_redeem_penalty_bounded [of coin_example 40 env_example ctx_example "''alice''"
      "fst (EarlyRedeemPenalty ctx_example coin_example ''alice'' 40)"
      "snd (EarlyRedeemPenalty ctx_example coin_example ''alice'' 40)"]
  by (simp add: coin_example_facts coin_DefaultParams_valid fits_def)
    (simp add: coin_DefaultParams_def ctx_example_def)

text \<open>
  C6: a transfer moves coin and its age together.  When a transfer between two different accounts
  succeeds, the bank balances move by exactly the amount and the supply is unchanged.  The lots the
  sender's queue loses are its oldest ones, as \<^verbatim>\<open>SpendOldestFirst\<close> consumes them (coin the
  sender held untracked is dated one threshold back), and the amount-weighted acquisition time of
  consumed and remaining lots together is that of the queue before.  The recipient's queue grows by
  the amount; while its bound leaves room, it holds its old dated amounts and exactly the consumed
  ones with their own times, and where the bound forces merges every time stays within the range of
  those times and the weighted time does not fall.  Nobody else's queue changes, and the coin tracked
  over all holders changes only by the part of the amount the sender held untracked.
\<close>

theorem transfer_conserves:
  assumes "Transfer E c (b, s) msg = Inr (b', s')" "mt_From msg \<noteq> mt_To msg"
    and "coin_inv s" "coin_Params_Validate E (coin_GetParams s) = Inr ()"
    and "cp_CoinAgeThresholdSeconds (coin_GetParams s) \<le> 2 ^ 62"
    and "0 \<le> block_time c" "block_time c < 2 ^ 62"
    and "NewIntFromString (mt_Amount msg) = Some amount"
    and "fits (TotalLots (lotsOf s (mt_To msg)) + amount)"
    and "AccAddressFromBech32 E (mt_From msg) = Some from_addr"
    and "AccAddressFromBech32 E (mt_To msg) = Some to_addr"
  shows "0 < amount \<and> total_supply b' = total_supply b
    \<and> (\<forall>a. GetBalance b' a = GetBalance b a - (if a = from_addr then amount else 0)
          + (if a = to_addr then amount else 0))
    \<and> TotalLots (lotsOf s' (mt_From msg))
        = TotalLots (lotsOf s (mt_From msg)) - min amount (TotalLots (lotsOf s (mt_From msg)))
    \<and> TotalLots (lotsOf s' (mt_To msg)) = TotalLots (lotsOf s (mt_To msg)) + amount
    \<and> (\<forall>a. a \<noteq> mt_From msg \<longrightarrow> a \<noteq> mt_To msg \<longrightarrow> lotsOf s' a = lotsOf s a)
    \<and> tracked_total s' = tracked_total s + (amount - min amount (TotalLots (lotsOf s (mt_From msg))))
    \<and> coin_inv s'
    \<and> (\<exists>consumed. SpendOldestFirst (lotsOf s (mt_From msg)) amount (block_time c)
            (cp_CoinAgeThresholdSeconds (coin_GetParams s)) = (consumed, lotsOf s' (mt_From msg))
        \<and> weighted_time consumed + weighted_time (lotsOf s' (mt_From msg))
            = weighted_time (lotsOf s (mt_From msg)) + (amount - min amount (TotalLots (lotsOf s (mt_From msg))))
                * (block_time c - cp_CoinAgeThresholdSeconds (coin_GetParams s))
        \<and> weighted_time (lotsOf s (mt_To msg)) + weighted_time consumed \<le> weighted_time (lotsOf s' (mt_To msg))
        \<and> times_within (lotsOf s' (mt_To msg)) (lotsOf s (mt_To msg) @ consumed)
        \<and> (length (lotsOf s (mt_To msg)) + length consumed \<le> unat (cp_MaxCoinAgeLots (coin_GetParams s))
            \<longrightarrow> dated (lotsOf s' (mt_To msg)) = dated (lotsOf s (mt_To msg)) + dated consumed))"
proof -
  obtain consumed s1 where k: "keeper_SpendOldestFirst c s (mt_From msg) amount = (consumed, s1)"
    by fastforce
  with assms(1,8,10,11) have pos: "0 < amount"
    and send: "SendCoins E b from_addr to_addr amount = Inr b'"
    and s': "s' = credit_lots s1 (mt_To msg) consumed"
    by (auto simp: Transfer_def ok_simps)
  note v = coin_Params_Validate_ok [OF assms(4)]
  have f: "fits amount" using assms(8) by (rule NewIntFromString_fits)
  note e = keeper_SpendOldestFirst_effect [OF assms(3) less_imp_le [OF pos] f k assms(6,7) v(4) assms(5)]
  have fit: "fits (TotalLots (lotsOf s1 (mt_To msg)) + TotalLots consumed)"
    using assms(2,9) e(2) e(4) [of "mt_To msg"] by simp
  note cr = credit_lots_effect [OF e(1) fit e(6)]
  note ti = credit_lots_times [OF e(1) fit e(6)]
  let ?th = "cp_CoinAgeThresholdSeconds (coin_GetParams s)"
  have p1: "coin_GetParams s1 = coin_GetParams s" using e(7) by (simp add: coin_GetParams_def)
  have to1: "lotsOf s1 (mt_To msg) = lotsOf s (mt_To msg)" using e(4) assms(2) by simp
  have from1: "lotsOf s' (mt_From msg) = lotsOf s1 (mt_From msg)" using cr assms(2) by (simp add: s')
  have sp: "SpendOldestFirst (lotsOf s (mt_From msg)) amount (block_time c) ?th = (consumed, lotsOf s' (mt_From msg))"
    using keeper_SpendOldestFirst_queue [OF k] by (simp add: from1)
  have th: "i64 (block_time c - ?th) = block_time c - ?th"
    using assms(5-7) v(4) by (intro time_ok_i64) (simp add: time_ok_def)
  have ages: "weighted_time consumed + weighted_time (lotsOf s' (mt_From msg))
      = weighted_time (lotsOf s (mt_From msg)) + (amount - min amount (TotalLots (lotsOf s (mt_From msg))))
          * (block_time c - ?th)"
    using SpendOldestFirst_weighted [OF less_imp_le [OF pos] f sp] by (simp add: th)
  show ?thesis
    using pos ledger.send_supply [OF send] send_balances [OF send] cr e(2,3,5) assms(2) e(4)
      sp ages ti by (auto simp: s' p1 to1)
qed

definition bank_example :: bank where
  "bank_example = \<lparr>balances = [(''alice'', 100)], total_supply = 100\<rparr>"

definition transfer_example :: MsgTransfer where
  "transfer_example = \<lparr>mt_From = ''alice'', mt_To = ''bob'', mt_Amount = ''60''\<rparr>"

lemma transfer_example_run:
  "Transfer env_example ctx_example (bank_example, coin_example) transfer_example =
    Inr (\<lparr>balances = [(''alice'', 40), (''bob'', 60)], total_supply = 100\<rparr>,
      snd (case Transfer env_example ctx_example (bank_example, coin_example) transfer_example of
        Inr x \<Rightarrow> x | Inl _ \<Rightarrow> (bank_example, coin_example)))"
  by code_simp

theorem transfer_conserves_witness:
  "tracked_total (snd (case Transfer env_example ctx_example (bank_example, coin_example) transfer_example of
        Inr x \<Rightarrow> x | Inl _ \<Rightarrow> (bank_example, coin_example))) = 60"
  using transfer_conserves [OF transfer_example_run _ coin_example_facts(1)]
  by (simp add: coin_example_facts coin_DefaultParams_valid)
    (simp add: coin_DefaultParams_def ctx_example_def env_example_def transfer_example_def
      coin_example_facts fits_def parse_examples)

text \<open>
  C7: the fixed fee of a transaction is the sum of its messages' scheduled fees and is routed
  completely.  Under validated parameters the total charged is the sum of the positive
  \<^verbatim>\<open>FeeForMsg\<close> of the messages, the company receives of each fee the governed share of its
  message type (rounded down) and the validator the rest, both shares are non-negative, and the
  reported revenue legs are positive, add up to those shares stream by stream, and add up message
  type by message type to the fees of the messages of that type.
\<close>

theorem fee_split_balanced:
  assumes "coin_Params_Validate E (coin_GetParams s) = Inr ()"
  shows "balanced_split (ComputeFeeSplit s msgs)
    \<and> fs_Total (ComputeFeeSplit s msgs) = (\<Sum>m \<leftarrow> msgs. max 0 (FeeForMsg (coin_GetParams s) m))
    \<and> ComputeRequiredFee s msgs = (\<Sum>m \<leftarrow> msgs. max 0 (FeeForMsg (coin_GetParams s) m))
    \<and> fs_Company (ComputeFeeSplit s msgs)
        = (\<Sum>m \<leftarrow> msgs. max 0 (FeeForMsg (coin_GetParams s) m)
             * int (unat (se_CompanyBps (fst (SplitFor (coin_GetParams s) (MsgTypeURL m))))) div 10000)
    \<and> (\<forall>url. url_sum url (ComputeFeeSplit s msgs)
        = (\<Sum>m \<leftarrow> filter (\<lambda>m. MsgTypeURL m = url) msgs. max 0 (FeeForMsg (coin_GetParams s) m)))"
  using balanced_foldl [OF balanced_NewFeeSplit coin_Params_Validate_ok(6) [OF assms], of msgs]
    fee_split_foldl_totals [OF coin_Params_Validate_ok(6) [OF assms], where out = NewFeeSplit and msgs = msgs]
  by (simp add: ComputeFeeSplit_def ComputeRequiredFee_def NewFeeSplit_def url_sum_def)

lemma fee_examples:
  "FeeForMsg coin_DefaultParams (Msg_Transfer transfer_example) = 5000"
  "FeeForMsg coin_DefaultParams (Msg_Other ''/phi.other'') = 5000"
  by code_simp+

theorem fee_split_balanced_witness:
  "balanced_split (ComputeFeeSplit coin_example [Msg_Transfer transfer_example, Msg_Other ''/phi.other''])
   \<and> ComputeRequiredFee coin_example [Msg_Transfer transfer_example, Msg_Other ''/phi.other''] = 10000"
  using fee_split_balanced [of env_example coin_example "[Msg_Transfer transfer_example, Msg_Other ''/phi.other'']"]
  by (simp add: coin_example_facts coin_DefaultParams_valid fee_examples)

text \<open>
  C8: the daily micro-exemption cannot be overrun.  When a transaction is exempt, recording the use
  raises the payer's counter for that day by exactly one and leaves it within the governed quota
  (no wrap-around), and it changes no other identity's counter and no other day's.
\<close>

theorem micro_exemption_within_quota:
  assumes "IsMicroExempt idk c s payer msgs"
  shows "\<exists>subject. microExemptionSubject idk payer = Some subject
    \<and> (let day = block_time c sdiv 86400; s' = ConsumeMicroExemption idk c s payer in
       GetMicroUsed s' day subject = GetMicroUsed s day subject + 1
       \<and> unat (GetMicroUsed s' day subject) = unat (GetMicroUsed s day subject) + 1
       \<and> GetMicroUsed s' day subject \<le> cp_MicroDailyQuota (coin_GetParams s)
       \<and> (\<forall>day' a. u64_of_int day' \<noteq> u64_of_int day \<or> a \<noteq> subject
            \<longrightarrow> GetMicroUsed s' day' a = GetMicroUsed s day' a))"
proof -
  let ?day = "block_time c sdiv 86400"
  obtain subject where subj: "microExemptionSubject idk payer = Some subject"
    and lt: "GetMicroUsed s ?day subject < cp_MicroDailyQuota (coin_GetParams s)"
    using assms unfolding IsMicroExempt_def Let_def
    by (auto simp: neq_Nil_conv split: if_splits list.splits sdk_msg.splits option.splits)
  have "unat (GetMicroUsed s ?day subject + 1) = unat (GetMicroUsed s ?day subject) + 1"
    using lt by (rule unat_inc)
  then show ?thesis
    using subj lt by (auto simp: ConsumeMicroExemption_def GetMicroUsed_Incr Let_def
        word_le_nat_alt word_less_nat_alt)
qed

definition subjects_example :: subject_lookup where
  "subjects_example = Some (\<lambda>a. Some (''did:phi:'' @ a))"

lemma micro_example:
  "IsMicroExempt subjects_example ctx_example coin_example ''alice'' [Msg_Transfer transfer_example]"
  by (simp add: IsMicroExempt_def coin_example_facts transfer_example_def parse_examples
      microExemptionSubject_def subjects_example_def MicroThresholdInt_def coin_DefaultParams_def
      Let_def GetMicroUsed_def)
    (simp add: coin_example_def empty_coin_state_def)

theorem micro_exemption_within_quota_witness:
  "GetMicroUsed (ConsumeMicroExemption subjects_example ctx_example coin_example ''alice'') 23
     ''did:phi:alice'' \<le> 10"
  using micro_exemption_within_quota [OF micro_example]
  by (auto simp: microExemptionSubject_def subjects_example_def ctx_example_def coin_example_facts
      coin_DefaultParams_def Let_def)

text \<open>
  C9: quota pruning is bounded, complete and never touches a live counter.  Each begin-block sweep
  removes the oldest of the counters older than the retention window, at most the block budget of
  them, so a backlog shrinks by exactly the budget per block until it is empty; every counter of a
  day inside the window keeps its value.
\<close>

theorem prune_micro_quota_sound:
  assumes "kv_sorted (cs_micro_quota s)"
    and "cutoff = block_time c sdiv 86400 - 7" "0 < cutoff" "cutoff < 2 ^ 62"
  shows "kv_range (cs_micro_quota (PruneMicroQuota c s)) MicroQuotaPrefix (MicroQuotaDayBound cutoff)
      = drop 256 (kv_range (cs_micro_quota s) MicroQuotaPrefix (MicroQuotaDayBound cutoff))
    \<and> (\<forall>day a. cutoff \<le> day \<and> day < 2 ^ 63 \<longrightarrow>
         GetMicroUsed (PruneMicroQuota c s) day a = GetMicroUsed s day a)
    \<and> kv_sorted (cs_micro_quota (PruneMicroQuota c s))
    \<and> cs_coin_ages (PruneMicroQuota c s) = cs_coin_ages s
    \<and> cs_params (PruneMicroQuota c s) = cs_params s"
proof -
  let ?P = "\<lambda>e :: bytes \<times> bytes. MicroQuotaPrefix \<le> fst e \<and> fst e < MicroQuotaDayBound cutoff"
  let ?stale = "take 256 (map fst (filter ?P (cs_micro_quota s)))"
  have pr: "PruneMicroQuota c s = s\<lparr>cs_micro_quota := kv_delete_all (cs_micro_quota s) ?stale\<rparr>"
    using assms(2,3) by (simp add: PruneMicroQuota_def MicroQuotaRetentionDays_def
        MicroQuotaPruneBudget_def Let_def kv_range_def)
  have live: "GetMicroUsed (PruneMicroQuota c s) day a = GetMicroUsed s day a"
    if "cutoff \<le> day" "day < 2 ^ 63" for day a
  proof -
    have "\<not> MicroQuotaKey day a < MicroQuotaDayBound cutoff"
      using that assms(3,4) by (simp add: MicroQuotaKey_below u64_of_int_less_iff in_i64_def)
    then have "MicroQuotaKey day a \<notin> set ?stale"
      by (auto dest!: in_set_takeD)
    then show ?thesis by (simp add: pr GetMicroUsed_def kv_get_delete_all)
  qed
  show ?thesis
    using live kv_budgeted_sweep [OF assms(1), of ?P 256] kv_sorted_delete_all [OF assms(1)]
    by (simp add: pr kv_range_def)
qed

definition prune_example :: coin_state where
  "prune_example = IncrMicroUsed (IncrMicroUsed empty_coin_state 3 ''a'') 20 ''b''"

theorem prune_micro_quota_sound_witness:
  "GetMicroUsed (PruneMicroQuota ctx_example prune_example) 20 ''b'' = GetMicroUsed prune_example 20 ''b''"
proof -
  have "kv_sorted (cs_micro_quota prune_example)"
    unfolding prune_example_def by (intro quota_sorted_Incr) (simp add: empty_coin_state_def)
  then show ?thesis
    using prune_micro_quota_sound [of prune_example 16 ctx_example]
    by (simp add: ctx_example_def signed_divide_int_def)
qed

text \<open>
  C10: exporting the module and importing the result into an empty store restores the state exactly,
  parameters, queues and quota counters, whenever the exported genesis passes validation.
\<close>

theorem coin_genesis_roundtrip:
  assumes "coin_inv s" "kv_sorted (cs_micro_quota s)" "cs_params s = Some p"
    and "coin_Genesis_Validate E (coin_ExportGenesis s) = Inr ()"
  shows "coin_InitGenesis E empty_coin_state (coin_ExportGenesis s) = Inr s"
proof -
  let ?gs = "coin_ExportGenesis s"
  from assms(4) have pv: "coin_Params_Validate E (cg_Params ?gs) = Inr ()"
    and ev: "Validate (cg_StoreEntries ?gs) coin_storeEntryRules = Inr ()"
    by (auto simp: coin_Genesis_Validate_def ok_simps)
  have gp: "cg_Params ?gs = p" using assms(3) by (simp add: coin_ExportGenesis_def coin_GetParams_def)
  have keys: "list_all (\<lambda>e. coin_IsGenesisStoreKey (fst e)) (cs_micro_quota s)"
    using validated_entries_are_quota_keys [OF ev]
    by (fastforce simp: coin_ExportGenesis_def list_all_iff)
  have ages: "list_all (\<lambda>(k, ca). k = CoinAgeKey (ca_Address ca) \<and> ca_Lots ca \<noteq> []
      \<and> queue_ok (ca_Lots ca)) (cs_coin_ages s)" and so: "kv_sorted (cs_coin_ages s)"
    using assms(1) by (simp_all add: coin_inv_def)
  have "foldE import_quota_entry (cg_StoreEntries ?gs)
      (foldl SetCoinAge (empty_coin_state\<lparr>cs_params := Some p\<rparr>) (cg_CoinAges ?gs)) = Inr s"
    using foldE_store_entries [OF keys] foldl_SetCoinAge [OF ages] kv_rebuild [OF so]
      kv_rebuild [OF assms(2)] assms(3)
    by (simp add: coin_ExportGenesis_def empty_coin_state_def)
  then show ?thesis
    using assms(4) pv gp by (simp add: coin_InitGenesis_def coin_SetParams_def)
qed

definition genesis_example :: coin_state where
  "genesis_example = coin_example\<lparr>cs_params := Some coin_DefaultParams\<rparr>"

theorem coin_genesis_roundtrip_witness:
  "coin_InitGenesis env_example empty_coin_state (coin_ExportGenesis genesis_example)
    = Inr genesis_example"
proof -
  have "cs_coin_ages coin_example = [(CoinAgeKey ''alice'',
      \<lparr>ca_Address = ''alice'', ca_Lots = [\<lparr>lot_Amount = ''30'', lot_AcquiredAt = 5\<rparr>,
        \<lparr>lot_Amount = ''20'', lot_AcquiredAt = 9\<rparr>]\<rparr>)]
    \<and> cs_micro_quota coin_example = []
    \<and> NewIntFromString ''30'' = Some 30 \<and> NewIntFromString ''20'' = Some 20"
    by code_simp
  then have "coin_Genesis_Validate env_example (coin_ExportGenesis genesis_example) = Inr ()"
    by (simp add: coin_Genesis_Validate_def coin_ExportGenesis_def genesis_example_def
        coin_GetParams_def coin_DefaultParams_valid Validate_def validNonNegAmount_def)
      (simp add: coin_DefaultParams_def DefaultMaxCoinAgeLots_def env_example_def)
  then show ?thesis
    using coin_genesis_roundtrip [of genesis_example coin_DefaultParams env_example]
      coin_example_facts(1)
    by (simp add: genesis_example_def coin_inv_def coin_example_def empty_coin_state_def)
qed

definition long_queue_example :: coin_state where
  "long_queue_example = AddCoins coin_example ''alice'' 7 11"

definition lowered_params :: coin_Params where
  "lowered_params = coin_DefaultParams\<lparr>cp_MaxCoinAgeLots := 2\<rparr>"

text \<open>
  C11: the genesis validator rejects states the running chain can be in.  Governance may set
  \<^verbatim>\<open>max_coin_age_lots\<close> to any valid bound, also below the length of a queue that already exists.
  Then, for every state with a queue longer than the new bound, the update succeeds, keeps the
  invariant and leaves the queue as it is (the keeper shortens it only at the next insertion), and
  the genesis exported from that state is refused by the import that would restart the chain from it.
\<close>

theorem lowering_lot_bound_breaks_import:
  assumes "coin_inv s" "coin_Params_Validate E p = Inr ()"
    and "unat (cp_MaxCoinAgeLots p) < length (lotsOf s a)" "length (lotsOf s a) < 2 ^ 32"
  shows "\<exists>s'. coin_UpdateParams E authority s authority p = Inr s'
     \<and> coin_inv s' \<and> (\<forall>b. lotsOf s' b = lotsOf s b) \<and> coin_GetParams s' = p
     \<and> \<not> isOK (coin_InitGenesis E t (coin_ExportGenesis s'))"
proof -
  let ?s = "s\<lparr>cs_params := Some p\<rparr>"
  obtain ca where ca: "kv_get (cs_coin_ages s) (CoinAgeKey a) = Some ca" "lotsOf s a = ca_Lots ca"
    using assms(3) by (cases "kv_get (cs_coin_ages s) (CoinAgeKey a)") (auto simp: lotsOf_def GetCoinAge_def)
  have mem: "ca \<in> set (map snd (cs_coin_ages s))" using kv_get_mem [OF coin_inv_sorted [OF assms(1)]] ca(1) by force
  have long: "cp_MaxCoinAgeLots p < word_of_nat (length (ca_Lots ca))"
    using assms(3,4) ca(2) by (simp add: word_less_nat_alt unat_word32_of_nat)
  have "\<not> isOK (coin_Genesis_Validate E (coin_ExportGenesis ?s))"
    using validate_coin_ages_long [OF mem long, of E "[]"]
    by (auto simp: coin_Genesis_Validate_def coin_ExportGenesis_def coin_GetParams_def ok_simps)
  then have "\<not> isOK (coin_InitGenesis E t (coin_ExportGenesis ?s))"
    by (auto simp: coin_InitGenesis_def ok_simps)
  moreover have "coin_inv ?s" using assms(1) by (simp add: coin_inv_def)
  moreover have "lotsOf ?s b = lotsOf s b" for b by (simp add: lotsOf_def GetCoinAge_def)
  ultimately show ?thesis
    by (auto simp: coin_UpdateParams_def coin_SetParams_def assms(2) coin_GetParams_def)
qed

lemma long_queue_eval: "coin_inv long_queue_example \<and> length (lotsOf long_queue_example ''alice'') = 3"
  by code_simp

lemma lowered_params_valid: "coin_Params_Validate env_example lowered_params = Inr ()"
  by (simp add: lowered_params_def coin_Params_Validate_def coin_DefaultParams_def parse_examples
      validate_fee_entry_def MaxMicroThresholdUphi_def MaxMicroDailyQuota_def BpsDenominator_def
      MaxProtocolFeeReserveBps_def MinCoinAgeLots_def MaxCoinAgeLotsCeiling_def
      MsgTransferTypeURL_def MsgAnchorPersonalTypeURL_def MsgCreateAgreementTypeURL_def)

theorem lowering_lot_bound_breaks_import_witness:
  "\<exists>s'. coin_UpdateParams env_example ''gov'' long_queue_example ''gov'' lowered_params = Inr s'
     \<and> coin_inv s' \<and> \<not> isOK (coin_InitGenesis env_example empty_coin_state (coin_ExportGenesis s'))"
  using lowering_lot_bound_breaks_import [of long_queue_example env_example lowered_params "''alice''" "''gov''" empty_coin_state]
    long_queue_eval lowered_params_valid
  by (auto simp: lowered_params_def)

end
