(* ===== verification/InstTypes.thy ===== *)
theory InstTypes
  imports CoinKeeper
begin

text \<open>
  The institutions module's data and pure rules (\<^verbatim>\<open>x/institutions/types\<close> and
  \<^verbatim>\<open>keeper/redeem_split.go\<close>): institutions, roles and requests, the module
  parameters and their validation, caps and the redeem floor, attestation staleness,
  the emergency steps, the decomposition of a redemption, and the store keys.
\<close>

section \<open>Data\<close>

datatype InstitutionStatus =
    INSTITUTION_STATUS_UNSPECIFIED | INSTITUTION_STATUS_HEALTHY
  | INSTITUTION_STATUS_LOW_LIQ | INSTITUTION_STATUS_FROZEN

datatype InstitutionType =
    INSTITUTION_TYPE_UNSPECIFIED | INSTITUTION_TYPE_FINANCIAL | INSTITUTION_TYPE_FX

datatype InstitutionRole =
    INSTITUTION_ROLE_UNSPECIFIED | INSTITUTION_ROLE_ADMIN | INSTITUTION_ROLE_OPERATOR
  | INSTITUTION_ROLE_FINANCE | INSTITUTION_ROLE_COMPLIANCE | INSTITUTION_ROLE_DEVELOPER
  | INSTITUTION_ROLE_VIEWER

primrec role_number :: "InstitutionRole \<Rightarrow> nat" where
  "role_number INSTITUTION_ROLE_UNSPECIFIED = 0"
| "role_number INSTITUTION_ROLE_ADMIN = 1"
| "role_number INSTITUTION_ROLE_OPERATOR = 2"
| "role_number INSTITUTION_ROLE_FINANCE = 3"
| "role_number INSTITUTION_ROLE_COMPLIANCE = 4"
| "role_number INSTITUTION_ROLE_DEVELOPER = 5"
| "role_number INSTITUTION_ROLE_VIEWER = 6"

datatype FxEntryStatus =
    FX_ENTRY_UNSPECIFIED | FX_ENTRY_REQUESTED | FX_ENTRY_GUARANTEED | FX_ENTRY_FINALIZED

record AppServices =
  svc_MintEnabled :: bool
  svc_RedeemEnabled :: bool
  svc_WithdrawEnabled :: bool
  svc_ShowLiveScanLink :: bool
  svc_ShowSupportContact :: bool
  svc_ShowGuide :: bool

record InstitutionAppConfig =
  cfg_Services :: AppServices
  cfg_LiveScanUrl :: string
  cfg_LiveScanDomain :: string
  cfg_DisplayNameFa :: string
  cfg_DisplayNameEn :: string
  cfg_LogoHash :: bytes
  cfg_SupportContact :: string

definition empty_app_config :: InstitutionAppConfig where
  "empty_app_config =
    \<lparr>cfg_Services = \<lparr>svc_MintEnabled = False, svc_RedeemEnabled = False,
       svc_WithdrawEnabled = False, svc_ShowLiveScanLink = False, svc_ShowSupportContact = False,
       svc_ShowGuide = False\<rparr>,
     cfg_LiveScanUrl = [], cfg_LiveScanDomain = [], cfg_DisplayNameFa = [], cfg_DisplayNameEn = [],
     cfg_LogoHash = [], cfg_SupportContact = []\<rparr>"

record Caps =
  cap_MintDaily :: string
  cap_MintPerTx :: string
  cap_MintPerUser :: string
  cap_RedeemDaily :: string
  cap_RedeemPerTx :: string
  cap_RedeemPerUser :: string

record KycTierLimit =
  kt_Tier :: "32 word"
  kt_DailyLimitToman :: string

record InstitutionParams =
  ip_Caps :: Caps
  ip_KycTierLimits :: "KycTierLimit list"
  ip_MaxVaultAttestationLatencyS :: "64 word"
  ip_VaultApiEndpoint :: string
  ip_SensitiveThreshold :: "32 word"

definition empty_inst_params :: InstitutionParams where
  "empty_inst_params =
    \<lparr>ip_Caps = \<lparr>cap_MintDaily = [], cap_MintPerTx = [], cap_MintPerUser = [],
       cap_RedeemDaily = [], cap_RedeemPerTx = [], cap_RedeemPerUser = []\<rparr>,
     ip_KycTierLimits = [], ip_MaxVaultAttestationLatencyS = 0, ip_VaultApiEndpoint = [],
     ip_SensitiveThreshold = 0\<rparr>"

record Institution =
  in_Id :: string
  in_License :: string
  in_Admin :: string
  in_VaultAccount :: string
  in_VaultApi :: string
  in_Bond :: string
  in_Status :: InstitutionStatus
  in_VaultBalance :: string
  in_AttestedReserve :: string
  in_PausedMint :: bool
  in_AppConfig :: InstitutionAppConfig
  in_Params :: InstitutionParams
  in_InstitutionType :: InstitutionType
  in_DepositPubkey :: bytes
  in_LastAttestedAt :: int

record RoleGrant =
  rg_Institution :: string
  rg_Address :: string
  rg_Role :: InstitutionRole

record FxEntryRequest =
  fx_FxId :: string
  fx_Applicant :: string
  fx_License :: string
  fx_GuarantorId :: string
  fx_Status :: FxEntryStatus

record EmergencyRedemption =
  em_Active :: bool
  em_StartedAt :: int
  em_CapBeforeDay30 :: string
  em_CapFromDay30 :: string
  em_CapFromDay60 :: string

record inst_Params =
  mp_Operator :: string
  mp_PhiToToman :: "64 word"
  mp_RedeemFloorPerTx :: string
  mp_EmergencyRedemption :: EmergencyRedemption
  mp_PenaltyDestination :: string
  mp_LargeMintThresholdToman :: string
  mp_MintCeilingPerTx :: string
  mp_MintCeilingDaily :: string
  mp_RedeemDailyCapPerDidUphi :: string
  mp_ProtocolFeeBps :: "32 word"
  mp_MaxAttestationStalenessSeconds :: "64 word"

section \<open>Constants\<close>

definition UphiPerPhi :: int where "UphiPerPhi = 1000000"
definition DefaultSensitiveThreshold :: "32 word" where "DefaultSensitiveThreshold = 2"
definition MaxProtocolFeeBps :: "32 word" where "MaxProtocolFeeBps = 1000"
definition MaxAttestationStalenessCeiling :: "64 word" where
  "MaxAttestationStalenessCeiling = 7776000"
definition EmergencyDay30 :: int where "EmergencyDay30 = 2592000"
definition EmergencyDay60 :: int where "EmergencyDay60 = 5184000"
definition EmergencyDay90 :: int where "EmergencyDay90 = 7776000"
definition DefaultEmergencyCapFromDay30Toman :: string where
  "DefaultEmergencyCapFromDay30Toman = ''20000000''"
definition DefaultEmergencyCapFromDay60Toman :: string where
  "DefaultEmergencyCapFromDay60Toman = ''200000000''"
definition MaxInstitutionIDLen :: nat where "MaxInstitutionIDLen = 255"
definition MinAdminsForMint :: "32 word" where "MinAdminsForMint = 2"

definition inst_DefaultParams :: inst_Params where
  "inst_DefaultParams =
    \<lparr>mp_Operator = [], mp_PhiToToman = 100000, mp_RedeemFloorPerTx = ''100000'',
     mp_EmergencyRedemption = \<lparr>em_Active = False, em_StartedAt = 0, em_CapBeforeDay30 = [],
       em_CapFromDay30 = [], em_CapFromDay60 = []\<rparr>,
     mp_PenaltyDestination = [], mp_LargeMintThresholdToman = [], mp_MintCeilingPerTx = [],
     mp_MintCeilingDaily = [], mp_RedeemDailyCapPerDidUphi = ''200000000'',
     mp_ProtocolFeeBps = 20, mp_MaxAttestationStalenessSeconds = 86400\<rparr>"

section \<open>Parameter rules\<close>

definition validateNonNegToman :: "string \<Rightarrow> unit res" where
  "validateNonNegToman s =
    (if s = [] then Inr ()
     else case NewIntFromString s of
         None \<Rightarrow> Inl (Plain ''invalid integer'')
       | Some v \<Rightarrow> (if v < 0 then Inl (Plain ''must not be negative'') else Inr ()))"

definition CapInt :: "string \<Rightarrow> int" where
  "CapInt s =
    (if s = [] then 0
     else case NewIntFromString s of
         None \<Rightarrow> 0
       | Some v \<Rightarrow> (if \<not> v < 0 then v else 0))"

definition AtLeastFloor :: "int \<Rightarrow> int \<Rightarrow> int" where
  "AtLeastFloor c floor = (if 0 < c \<and> 0 < floor \<and> c < floor then floor else c)"

definition RedeemFloorUphi :: "inst_Params \<Rightarrow> int" where
  "RedeemFloorUphi p =
    (let toman = CapInt (mp_RedeemFloorPerTx p) in
     if \<not> 0 < toman \<or> mp_PhiToToman p = 0 then 0
     else
      (let num = toman * UphiPerPhi; den = uint (mp_PhiToToman p) in
       if num mod den \<noteq> 0 then 0 else num sdiv den))"

definition ProtocolFee :: "inst_Params \<Rightarrow> int \<Rightarrow> int" where
  "ProtocolFee p amount =
    (if mp_ProtocolFeeBps p = 0 then 0
     else amount * int (unat (mp_ProtocolFeeBps p)) sdiv BpsDenominator)"

definition EmergencyRedemption_Validate :: "EmergencyRedemption \<Rightarrow> unit res" where
  "EmergencyRedemption_Validate e =
    bindE (allE validateNonNegToman [em_CapBeforeDay30 e, em_CapFromDay30 e, em_CapFromDay60 e]) (\<lambda>_.
     if em_Active e \<and> em_StartedAt e < 0 then Inl (Plain ''started_at must not be negative'')
     else Inr ())"

definition validate_optional_address :: "sdk_env \<Rightarrow> string \<Rightarrow> unit res" where
  "validate_optional_address E a =
    (if a \<noteq> [] \<and> AccAddressFromBech32 E a = None then Inl (Plain ''invalid address'') else Inr ())"

definition inst_Params_Validate :: "sdk_env \<Rightarrow> inst_Params \<Rightarrow> unit res" where
  "inst_Params_Validate E p =
    (if mp_PhiToToman p = 0 then Inl (Plain ''phi_to_toman must be > 0'')
     else if UphiPerPhi mod uint (mp_PhiToToman p) \<noteq> 0
       then Inl (Plain ''phi_to_toman must divide UphiPerPhi'')
     else
      bindE (validate_optional_address E (mp_Operator p)) (\<lambda>_.
      bindE (validate_optional_address E (mp_PenaltyDestination p)) (\<lambda>_.
      bindE (validateNonNegToman (mp_RedeemFloorPerTx p)) (\<lambda>_.
      if \<not> 0 < CapInt (mp_RedeemFloorPerTx p)
        then Inl (Plain ''redeem_floor_per_tx must be positive'')
      else
       bindE (validateNonNegToman (mp_LargeMintThresholdToman p)) (\<lambda>_.
       bindE (validateNonNegToman (mp_MintCeilingPerTx p)) (\<lambda>_.
       bindE (validateNonNegToman (mp_MintCeilingDaily p)) (\<lambda>_.
       bindE (validateNonNegToman (mp_RedeemDailyCapPerDidUphi p)) (\<lambda>_.
       (let c = CapInt (mp_RedeemDailyCapPerDidUphi p); floor = RedeemFloorUphi p in
        if 0 < c \<and> 0 < floor \<and> c < floor
          then Inl (Plain ''redeem_daily_cap_per_did_uphi is below the redeem floor'')
        else if MaxProtocolFeeBps < mp_ProtocolFeeBps p
          then Inl (Plain ''protocol_fee_bps exceeds the sanity ceiling'')
        else if MaxAttestationStalenessCeiling < mp_MaxAttestationStalenessSeconds p
          then Inl (Plain ''max_attestation_staleness_seconds exceeds the sanity ceiling'')
        else
         bindE (EmergencyRedemption_Validate (mp_EmergencyRedemption p)) (\<lambda>_.
         (let floor = CapInt (mp_RedeemFloorPerTx p); e = mp_EmergencyRedemption p in
          if 0 < floor \<and> list_ex (\<lambda>s. 0 < CapInt s \<and> CapInt s < floor)
               [em_CapBeforeDay30 e, em_CapFromDay30 e, em_CapFromDay60 e]
          then Inl (Plain ''emergency cap is below the redeem floor'')
          else Inr ())))))))))))"

text \<open>The value of the first redeem cap that is positive and below the floor, if any.\<close>

definition RedeemCapsBelowFloor :: "InstitutionParams \<Rightarrow> int \<Rightarrow> int option" where
  "RedeemCapsBelowFloor p floor =
    (if \<not> 0 < floor then None
     else map_option CapInt
       (find (\<lambda>s. 0 < CapInt s \<and> CapInt s < floor)
         ([cap_RedeemPerTx (ip_Caps p), cap_RedeemDaily (ip_Caps p), cap_RedeemPerUser (ip_Caps p)]
          @ map kt_DailyLimitToman (ip_KycTierLimits p))))"

definition InstitutionParams_Validate :: "InstitutionParams \<Rightarrow> unit res" where
  "InstitutionParams_Validate p = (let c = ip_Caps p in
    bindE (allE validateNonNegToman
      [cap_MintDaily c, cap_MintPerTx c, cap_MintPerUser c,
       cap_RedeemDaily c, cap_RedeemPerTx c, cap_RedeemPerUser c]) (\<lambda>_.
    allE (\<lambda>kt. validateNonNegToman (kt_DailyLimitToman kt)) (ip_KycTierLimits p)))"

section \<open>Attestation staleness\<close>

definition EffectiveStaleness :: "64 word \<Rightarrow> 64 word \<Rightarrow> 64 word" where
  "EffectiveStaleness floorSeconds instLatencySeconds =
    (if instLatencySeconds = 0 then floorSeconds
     else if floorSeconds = 0 \<or> instLatencySeconds < floorSeconds then instLatencySeconds
     else floorSeconds)"

definition IsAttestationStale :: "int \<Rightarrow> int \<Rightarrow> 64 word \<Rightarrow> bool" where
  "IsAttestationStale lastAttestedAt blockTime threshold =
    (if threshold = 0 then False
     else
      (let deadline = u64_of_int lastAttestedAt + threshold in
       if lastAttestedAt < 0 then True
       else 0 \<le> blockTime \<and> deadline < u64_of_int blockTime))"

definition IsStaleAt :: "Institution \<Rightarrow> int \<Rightarrow> 64 word \<Rightarrow> bool" where
  "IsStaleAt inst blockTime floorSeconds =
    IsAttestationStale (in_LastAttestedAt inst) blockTime
      (EffectiveStaleness floorSeconds (ip_MaxVaultAttestationLatencyS (in_Params inst)))"

section \<open>Emergency steps\<close>

definition emergencyCapOrDefault :: "string \<Rightarrow> string \<Rightarrow> int" where
  "emergencyCapOrDefault v d = (if v = [] then CapInt d else CapInt v)"

text \<open>The cap in force, or none once the brake has fully elapsed.\<close>

definition emergencyCapForElapsed :: "EmergencyRedemption \<Rightarrow> int \<Rightarrow> int option" where
  "emergencyCapForElapsed em elapsed =
    (if elapsed < EmergencyDay30 then Some (CapInt (em_CapBeforeDay30 em))
     else if elapsed < EmergencyDay60
       then Some (emergencyCapOrDefault (em_CapFromDay30 em) DefaultEmergencyCapFromDay30Toman)
     else if elapsed < EmergencyDay90
       then Some (emergencyCapOrDefault (em_CapFromDay60 em) DefaultEmergencyCapFromDay60Toman)
     else None)"

definition defaultIfEmpty :: "string \<Rightarrow> string \<Rightarrow> string" where
  "defaultIfEmpty v d = (if v = [] then d else v)"

section \<open>Conversion and the redemption split\<close>

definition MintedUphiForToman :: "int \<Rightarrow> 64 word \<Rightarrow> int \<times> bool" where
  "MintedUphiForToman toman phiToToman =
    (let num = toman * UphiPerPhi; den = uint phiToToman in
     (num sdiv den, num mod den = 0))"

definition UphiPerToman :: "64 word \<Rightarrow> int" where
  "UphiPerToman phiToToman = UphiPerPhi sdiv uint phiToToman"

record RedeemSplit =
  rs_UphiIn :: int
  rs_Burned :: int
  rs_ProtocolFee :: int
  rs_Penalty :: int
  rs_Dust :: int
  rs_Carved :: int
  rs_TomanOut :: int

definition ComputeRedeemSplit :: "int \<Rightarrow> int \<Rightarrow> int \<Rightarrow> 64 word \<Rightarrow> RedeemSplit" where
  "ComputeRedeemSplit uphiIn protocolFee0 penalty0 phiToToman =
    (let k = UphiPerToman phiToToman;
         sum0 = protocolFee0 + penalty0;
         clamp = uphiIn < sum0;
         carve0 = (if clamp then uphiIn else sum0);
         protocolFee1 = (if clamp \<and> uphiIn < protocolFee0 then uphiIn else protocolFee0);
         penalty1 = (if clamp then carve0 - protocolFee1 else penalty0);
         burnable = uphiIn - carve0;
         burned1 = burnable - burnable mod k;
         rule3 = (\<not> 0 < burned1 \<and> k \<le> uphiIn);
         burned = (if rule3 then k else burned1);
         shortfall = k - burnable;
         fromPenalty = min shortfall penalty1;
         penalty = (if rule3 then penalty1 - fromPenalty else penalty1);
         protocolFee = (if rule3 then protocolFee1 - min (shortfall - fromPenalty) protocolFee1
                        else protocolFee1);
         carved = uphiIn - burned
     in \<lparr>rs_UphiIn = uphiIn, rs_Burned = burned, rs_ProtocolFee = protocolFee,
         rs_Penalty = penalty, rs_Dust = carved - protocolFee - penalty,
         rs_Carved = carved, rs_TomanOut = burned sdiv k\<rparr>)"

section \<open>Store keys\<close>

definition lenPrefixedID :: "string \<Rightarrow> bytes" where
  "lenPrefixedID i = len8 i"

definition i64be :: "int \<Rightarrow> bytes" where
  "i64be v = be64 (u64_of_int v)"

definition InstitutionKey :: "string \<Rightarrow> bytes" where
  "InstitutionKey i = [CHR 0x10] @ i"

definition RolePrefixFor :: "string \<Rightarrow> bytes" where
  "RolePrefixFor i = [CHR 0x20] @ lenPrefixedID i"

definition RoleKey :: "string \<Rightarrow> bytes \<Rightarrow> bytes" where
  "RoleKey i addr = ([CHR 0x20] @ lenPrefixedID i) @ addr"

definition ApprovalInstitutionPrefixFor :: "string \<Rightarrow> bytes" where
  "ApprovalInstitutionPrefixFor i = [CHR 0x30] @ lenPrefixedID i"

definition ApprovalPrefixFor :: "string \<Rightarrow> bytes \<Rightarrow> bytes" where
  "ApprovalPrefixFor i contentHash = ([CHR 0x30] @ lenPrefixedID i) @ contentHash"

definition ApprovalKey :: "string \<Rightarrow> bytes \<Rightarrow> bytes \<Rightarrow> bytes" where
  "ApprovalKey i contentHash signer = (([CHR 0x30] @ lenPrefixedID i) @ contentHash) @ signer"

definition CounterTotalKey :: "string \<Rightarrow> string \<Rightarrow> int \<Rightarrow> bytes" where
  "CounterTotalKey i kind day =
    ((([CHR 0x40] @ lenPrefixedID i) @ [char_of (length kind)]) @ kind) @ i64be day"

definition CounterUserKey :: "string \<Rightarrow> string \<Rightarrow> int \<Rightarrow> bytes \<Rightarrow> bytes" where
  "CounterUserKey i kind day addr = CounterTotalKey i kind day @ addr"

definition DepositKey :: "string \<Rightarrow> string \<Rightarrow> string \<Rightarrow> bytes" where
  "DepositKey i direction ref =
    ((([CHR 0x50] @ lenPrefixedID i) @ [char_of (length direction)]) @ direction) @ ref"

definition FxRequestKey :: "string \<Rightarrow> bytes" where
  "FxRequestKey i = [CHR 0x60] @ i"

definition AdminEpochKey :: "string \<Rightarrow> bytes" where
  "AdminEpochKey i = [CHR 0x70] @ lenPrefixedID i"

definition RedeemSubjectPrefix :: bytes where
  "RedeemSubjectPrefix = [CHR 0x80]"

definition RedeemSubjectCounterKey :: "int \<Rightarrow> char \<Rightarrow> string \<Rightarrow> bytes" where
  "RedeemSubjectCounterKey day kind subject =
    ((RedeemSubjectPrefix @ i64be day) @ [kind]) @ subject"

definition RedeemSubjectDayBound :: "int \<Rightarrow> bytes" where
  "RedeemSubjectDayBound day = RedeemSubjectPrefix @ i64be day"

definition HolderKycTierPrefixFor :: "string \<Rightarrow> bytes" where
  "HolderKycTierPrefixFor i = [CHR 0xA0] @ lenPrefixedID i"

definition HolderKycTierKey :: "string \<Rightarrow> bytes \<Rightarrow> bytes" where
  "HolderKycTierKey i holder = ([CHR 0xA0] @ lenPrefixedID i) @ holder"

definition LastAttestorKey :: "string \<Rightarrow> bytes" where
  "LastAttestorKey i = [CHR 0xA1] @ i"

definition RemovalQueuePrefix :: bytes where
  "RemovalQueuePrefix = [CHR 0xB0]"

definition RemovalQueueKey :: "string \<Rightarrow> bytes" where
  "RemovalQueueKey i = RemovalQueuePrefix @ lenPrefixedID i"

definition IDFromLenPrefixedKey :: "bytes \<Rightarrow> bytes \<Rightarrow> string option" where
  "IDFromLenPrefixedKey key pre =
    (if length key < length pre + 1 \<or> take (length pre) key \<noteq> pre then None
     else
      (let p = length pre; l = of_char (key ! p) in
       if length key < p + 1 + l then None
       else Some (take l (drop (p + 1) key))))"

definition ParseRemovalQueueKey :: "bytes \<Rightarrow> string option" where
  "ParseRemovalQueueKey key = IDFromLenPrefixedKey key RemovalQueuePrefix"

definition IsPrunableCounterKind :: "string \<Rightarrow> bool" where
  "IsPrunableCounterKind kind \<longleftrightarrow> kind = ''md'' \<or> kind = ''mu'' \<or> kind = ''rd'' \<or> kind = ''ru''"

text \<open>The reinterpretation \<^verbatim>\<open>int64(w)\<close> of an unsigned word.\<close>

definition int_of_u64 :: "64 word \<Rightarrow> int" where
  "int_of_u64 w = i64 (uint w)"

definition ParseCounterKeyDay :: "bytes \<Rightarrow> (string \<times> int) option" where
  "ParseCounterKeyDay key = (case key of
      [] \<Rightarrow> None
    | c # r1 \<Rightarrow>
       if c \<noteq> CHR 0x40 then None
       else case r1 of
           [] \<Rightarrow> None
         | c1 # r2 \<Rightarrow>
            (let l1 = of_char c1 in
             if length r2 < l1 then None
             else case drop l1 r2 of
                 [] \<Rightarrow> None
               | c2 # r3 \<Rightarrow>
                  (let l2 = of_char c2 in
                   if length r3 < l2 then None
                   else if length (drop l2 r3) < 8 then None
                   else Some (take l2 r3, int_of_u64 (dec64 (drop l2 r3))))))"

end
