(* ===== verification/InstKeeper.thy ===== *)
theory InstKeeper
  imports InstTypes
begin

text \<open>
  The institutions keeper (\<^verbatim>\<open>x/institutions/keeper\<close>): its stores, role-based access,
  the aggregated multisig approvals, the daily counters and the caps they enforce, KYC tiers,
  the separation between attesting and minting, and the solvency invariants.

  The module's KV store is one ordered store per key prefix, each holding full keys.  Code
  outside the module is a field of \<^verbatim>\<open>inst_deps\<close>: the address codec, the identity keeper's
  \<^verbatim>\<open>SubjectDID\<close> and \<^verbatim>\<open>BootstrapPhase\<close>, the signature verifier, the hash, the protobuf
  encoders and the governance keeper's proposal lookup.
\<close>

section \<open>Errors\<close>

definition inst_err :: "nat \<Rightarrow> err" where "inst_err n = Registered ''institutions'' n"

definition ErrInstitutionExists :: err where "ErrInstitutionExists = inst_err 2"
definition ErrInstitutionNotFound :: err where "ErrInstitutionNotFound = inst_err 3"
definition ErrInstitutionFrozen :: err where "ErrInstitutionFrozen = inst_err 4"
definition inst_ErrInvalidAmount :: err where "inst_ErrInvalidAmount = inst_err 5"
definition ErrMintExceedsBacking :: err where "ErrMintExceedsBacking = inst_err 6"
definition ErrInsufficientVault :: err where "ErrInsufficientVault = inst_err 7"
definition inst_ErrUnauthorized :: err where "inst_ErrUnauthorized = inst_err 8"
definition ErrMintPaused :: err where "ErrMintPaused = inst_err 9"
definition ErrVaultNotEmpty :: err where "ErrVaultNotEmpty = inst_err 10"
definition inst_ErrInvalidParams :: err where "inst_ErrInvalidParams = inst_err 11"
definition ErrNonIntegralMint :: err where "ErrNonIntegralMint = inst_err 12"
definition ErrSolvencyBroken :: err where "ErrSolvencyBroken = inst_err 13"
definition ErrRoleNotAuthorized :: err where "ErrRoleNotAuthorized = inst_err 14"
definition ErrInvalidRole :: err where "ErrInvalidRole = inst_err 15"
definition ErrCapExceeded :: err where "ErrCapExceeded = inst_err 16"
definition ErrLooserThanFloor :: err where "ErrLooserThanFloor = inst_err 17"
definition ErrDuplicateDeposit :: err where "ErrDuplicateDeposit = inst_err 18"
definition ErrIDTooLong :: err where "ErrIDTooLong = inst_err 19"
definition ErrInvalidFxMetadata :: err where "ErrInvalidFxMetadata = inst_err 20"
definition ErrInvalidInstitutionType :: err where "ErrInvalidInstitutionType = inst_err 21"
definition ErrInvalidDepositProof :: err where "ErrInvalidDepositProof = inst_err 22"
definition ErrKycTierExceeded :: err where "ErrKycTierExceeded = inst_err 23"
definition ErrRedemptionThrottled :: err where "ErrRedemptionThrottled = inst_err 24"
definition ErrFxOnboarding :: err where "ErrFxOnboarding = inst_err 25"
definition ErrGuarantorRequired :: err where "ErrGuarantorRequired = inst_err 26"
definition ErrMissingRef :: err where "ErrMissingRef = inst_err 27"
definition ErrNothingRedeemed :: err where "ErrNothingRedeemed = inst_err 28"
definition ErrAttestationStale :: err where "ErrAttestationStale = inst_err 29"
definition ErrTooFewAdmins :: err where "ErrTooFewAdmins = inst_err 30"
definition ErrAttestorIsMinter :: err where "ErrAttestorIsMinter = inst_err 31"
definition ErrBelowMinRedeem :: err where "ErrBelowMinRedeem = inst_err 32"
definition ErrRemovalInProgress :: err where "ErrRemovalInProgress = inst_err 33"

section \<open>State and surroundings\<close>

datatype ProposalStatus =
    PROPOSAL_STATUS_UNSPECIFIED | PROPOSAL_STATUS_DEPOSIT_PERIOD | PROPOSAL_STATUS_VOTING_PERIOD
  | PROPOSAL_STATUS_PASSED | PROPOSAL_STATUS_REJECTED | PROPOSAL_STATUS_FAILED

text \<open>What the module reads of a governance proposal: its status and its packed messages.\<close>

record gov_proposal =
  gp_Status :: ProposalStatus
  gp_Messages :: "(string \<times> bytes) option list"

record inst_deps =
  D_env :: sdk_env
  D_authority :: string
  D_SubjectDID :: "string \<Rightarrow> string option"
  D_BootstrapPhase :: bool
  D_VerifySignature :: "bytes \<Rightarrow> bytes \<Rightarrow> bytes \<Rightarrow> bool"
  D_Sum256 :: "bytes \<Rightarrow> bytes"
  D_MarshalAppConfig :: "InstitutionAppConfig \<Rightarrow> bytes"
  D_MarshalParams :: "InstitutionParams \<Rightarrow> bytes"
  D_Proposal :: "(64 word \<Rightarrow> gov_proposal option) option"
  D_UnmarshalFinalize :: "bytes \<Rightarrow> string option"

record inst_state =
  is_params :: "inst_Params option"
  is_institutions :: "Institution kv"
  is_roles :: "RoleGrant kv"
  is_approvals :: "bytes kv"
  is_counters :: "bytes kv"
  is_deposits :: "bytes kv"
  is_fx :: "FxEntryRequest kv"
  is_epochs :: "bytes kv"
  is_subjects :: "bytes kv"
  is_cursor :: "bytes option"
  is_tiers :: "bytes kv"
  is_attestors :: "bytes kv"
  is_removals :: "bytes kv"

definition empty_inst_state :: inst_state where
  "empty_inst_state =
    \<lparr>is_params = None, is_institutions = [], is_roles = [], is_approvals = [], is_counters = [],
     is_deposits = [], is_fx = [], is_epochs = [], is_subjects = [], is_cursor = None,
     is_tiers = [], is_attestors = [], is_removals = []\<rparr>"

text \<open>The stores an issuance touches: the bank, the coin module and this module.\<close>

record world =
  w_bank :: bank
  w_coin :: coin_state
  w_inst :: inst_state

section \<open>Params and institutions\<close>

definition inst_GetParams :: "inst_state \<Rightarrow> inst_Params" where
  "inst_GetParams s = (case is_params s of None \<Rightarrow> inst_DefaultParams | Some p \<Rightarrow> p)"

definition mustInt :: "string \<Rightarrow> int" where
  "mustInt s = (case NewIntFromString s of Some v \<Rightarrow> v | None \<Rightarrow> 0)"

definition mustIntStrict :: "string \<Rightarrow> int res" where
  "mustIntStrict s = (case NewIntFromString s of
     Some v \<Rightarrow> Inr v | None \<Rightarrow> Inl (Panic ''unparseable vault_balance''))"

definition SumVaultBalance :: "inst_state \<Rightarrow> int res" where
  "SumVaultBalance s =
    foldE (\<lambda>e sum. bindE (mustIntStrict (in_VaultBalance (snd e))) (\<lambda>v. Inr (sum + v)))
      (is_institutions s) 0"

definition inst_SetParams :: "sdk_env \<Rightarrow> inst_state \<Rightarrow> inst_Params \<Rightarrow> inst_state res" where
  "inst_SetParams E s p =
    bindE (inst_Params_Validate E p) (\<lambda>_.
    if mp_PhiToToman (inst_GetParams s) \<noteq> mp_PhiToToman p
    then bindE (SumVaultBalance s) (\<lambda>v.
      if 0 < v then Inl inst_ErrInvalidParams else Inr (s\<lparr>is_params := Some p\<rparr>))
    else Inr (s\<lparr>is_params := Some p\<rparr>))"

definition SetInstitution :: "inst_state \<Rightarrow> Institution \<Rightarrow> inst_state" where
  "SetInstitution s inst =
    s\<lparr>is_institutions := kv_set (is_institutions s) (InstitutionKey (in_Id inst)) inst\<rparr>"

definition GetInstitution :: "inst_state \<Rightarrow> string \<Rightarrow> Institution option" where
  "GetInstitution s i = kv_get (is_institutions s) (InstitutionKey i)"

definition HasInstitution :: "inst_state \<Rightarrow> string \<Rightarrow> bool" where
  "HasInstitution s i = kv_has (is_institutions s) (InstitutionKey i)"

definition removeInstitutionSingleRecords :: "inst_state \<Rightarrow> string \<Rightarrow> inst_state" where
  "removeInstitutionSingleRecords s i =
    s\<lparr>is_institutions := kv_delete (is_institutions s) (InstitutionKey i),
      is_epochs := kv_delete (is_epochs s) (AdminEpochKey i),
      is_attestors := kv_delete (is_attestors s) (LastAttestorKey i)\<rparr>"

primrec first_address :: "sdk_env \<Rightarrow> string list \<Rightarrow> bytes option" where
  "first_address E [] = None"
| "first_address E (c # cs) =
    (if c = [] then first_address E cs
     else case AccAddressFromBech32 E c of
         Some addr \<Rightarrow> Some addr
       | None \<Rightarrow> first_address E cs)"

definition PenaltyDestination :: "inst_deps \<Rightarrow> inst_state \<Rightarrow> bytes option" where
  "PenaltyDestination D s = (let p = inst_GetParams s in
    first_address (D_env D) [mp_PenaltyDestination p, mp_Operator p, D_authority D])"

text \<open>The module account's name.\<close>

definition inst_ModuleName :: string where "inst_ModuleName = ''institutions''"

definition RedirectSlashedToPenalty ::
    "inst_deps \<Rightarrow> inst_state \<Rightarrow> bank \<Rightarrow> int \<Rightarrow> bank res" where
  "RedirectSlashedToPenalty D s b slashed =
    (if \<not> 0 < slashed then Inr b
     else bindE (MintCoins (D_env D) b inst_ModuleName slashed) (\<lambda>b1.
       case PenaltyDestination D s of
         None \<Rightarrow> Inr b1
       | Some dest \<Rightarrow>
          (case SendCoinsFromModuleToAccount (D_env D) b1 inst_ModuleName dest slashed of
             Inl _ \<Rightarrow> Inr b1
           | Inr b2 \<Rightarrow> Inr b2)))"

section \<open>Invariants\<close>

definition SolvencyInvariant :: "bank \<Rightarrow> inst_state \<Rightarrow> bool res" where
  "SolvencyInvariant b s =
    bindE (SumVaultBalance s) (\<lambda>sumVault.
      Inr (total_supply b * uint (mp_PhiToToman (inst_GetParams s)) \<noteq> sumVault * UphiPerPhi))"

definition NonNegativeVaultInvariant :: "inst_state \<Rightarrow> bool" where
  "NonNegativeVaultInvariant s =
    list_ex (\<lambda>e. mustInt (in_VaultBalance (snd e)) < 0) (is_institutions s)"

definition BackingShortfallInvariant :: "inst_state \<Rightarrow> bool" where
  "BackingShortfallInvariant s =
    list_ex (\<lambda>e. mustInt (in_AttestedReserve (snd e)) < mustInt (in_VaultBalance (snd e)))
      (is_institutions s)"

text \<open>True when a registered invariant is broken; the vault sum panics on an unreadable balance.\<close>

definition inst_AllInvariants :: "bank \<Rightarrow> inst_state \<Rightarrow> bool res" where
  "inst_AllInvariants b s =
    bindE (SolvencyInvariant b s) (\<lambda>broken.
      Inr (if broken then True else NonNegativeVaultInvariant s))"

definition assertSolvency :: "bank \<Rightarrow> inst_state \<Rightarrow> unit res" where
  "assertSolvency b s =
    bindE (SolvencyInvariant b s) (\<lambda>broken. if broken then Inl ErrSolvencyBroken else Inr ())"

section \<open>Roles\<close>

definition SetRole :: "sdk_env \<Rightarrow> inst_state \<Rightarrow> string \<Rightarrow> bytes \<Rightarrow> InstitutionRole \<Rightarrow> inst_state" where
  "SetRole E s i addr role =
    s\<lparr>is_roles := kv_set (is_roles s) (RoleKey i addr)
        \<lparr>rg_Institution = i, rg_Address = AccAddress_String E addr, rg_Role = role\<rparr>\<rparr>"

definition GetRole :: "inst_state \<Rightarrow> string \<Rightarrow> bytes \<Rightarrow> InstitutionRole" where
  "GetRole s i addr = (case kv_get (is_roles s) (RoleKey i addr) of
      None \<Rightarrow> INSTITUTION_ROLE_UNSPECIFIED
    | Some rg \<Rightarrow> rg_Role rg)"

definition DeleteRole :: "inst_state \<Rightarrow> string \<Rightarrow> bytes \<Rightarrow> inst_state" where
  "DeleteRole s i addr = s\<lparr>is_roles := kv_delete (is_roles s) (RoleKey i addr)\<rparr>"

definition IterateRolesFor :: "inst_state \<Rightarrow> string \<Rightarrow> RoleGrant list" where
  "IterateRolesFor s i = map snd (kv_prefix (is_roles s) (RolePrefixFor i))"

definition effectiveRole :: "sdk_env \<Rightarrow> inst_state \<Rightarrow> Institution \<Rightarrow> bytes \<Rightarrow> InstitutionRole" where
  "effectiveRole E s inst signer =
    (if AccAddress_String E signer = in_Admin inst then INSTITUTION_ROLE_ADMIN
     else GetRole s (in_Id inst) signer)"

definition requireRole ::
    "sdk_env \<Rightarrow> inst_state \<Rightarrow> Institution \<Rightarrow> string \<Rightarrow> InstitutionRole list \<Rightarrow> unit res" where
  "requireRole E s inst signerBech allowed =
    (case AccAddressFromBech32 E signerBech of
       None \<Rightarrow> Inl (Plain ''invalid signer address'')
     | Some signer \<Rightarrow>
        if effectiveRole E s inst signer \<in> set allowed then Inr () else Inl ErrRoleNotAuthorized)"

text \<open>The distinct admin address strings: the root admin and every ADMIN grant that parses.\<close>

definition admin_addresses :: "sdk_env \<Rightarrow> inst_state \<Rightarrow> Institution \<Rightarrow> string list" where
  "admin_addresses E s inst =
    remdups (filter (\<lambda>a. AccAddressFromBech32 E a \<noteq> None)
      (in_Admin inst # map rg_Address (filter (\<lambda>rg. rg_Role rg = INSTITUTION_ROLE_ADMIN)
                                        (IterateRolesFor s (in_Id inst)))))"

definition countAdmins :: "sdk_env \<Rightarrow> inst_state \<Rightarrow> Institution \<Rightarrow> 32 word" where
  "countAdmins E s inst = word_of_nat (length (admin_addresses E s inst))"

definition effectiveThreshold :: "sdk_env \<Rightarrow> inst_state \<Rightarrow> Institution \<Rightarrow> 32 word" where
  "effectiveThreshold E s inst =
    (let t0 = ip_SensitiveThreshold (in_Params inst);
         t = (if t0 = 0 then DefaultSensitiveThreshold else t0);
         a0 = countAdmins E s inst;
         admins = (if a0 = 0 then 1 else a0)
     in if admins < t then admins else t)"

section \<open>Aggregated approvals\<close>

definition adminEpoch :: "inst_state \<Rightarrow> string \<Rightarrow> 64 word" where
  "adminEpoch s i = (case kv_get (is_epochs s) (AdminEpochKey i) of
      None \<Rightarrow> 0
    | Some bz \<Rightarrow> if length bz \<noteq> 8 then 0 else dec64 bz)"

definition bumpAdminEpoch :: "inst_state \<Rightarrow> string \<Rightarrow> inst_state" where
  "bumpAdminEpoch s i =
    s\<lparr>is_epochs := kv_set (is_epochs s) (AdminEpochKey i) (be64 (adminEpoch s i + 1))\<rparr>"

definition countApprovals :: "sdk_env \<Rightarrow> inst_state \<Rightarrow> Institution \<Rightarrow> bytes \<Rightarrow> 32 word" where
  "countApprovals E s inst contentHash =
    (let pre = ApprovalPrefixFor (in_Id inst) contentHash; epoch = adminEpoch s (in_Id inst) in
     word_of_nat (length (filter
       (\<lambda>(key, v). length v = 8 \<and> dec64 v = epoch \<and>
          effectiveRole E s inst (drop (length pre) key) = INSTITUTION_ROLE_ADMIN)
       (kv_prefix (is_approvals s) pre))))"

definition recordApproval ::
    "sdk_env \<Rightarrow> inst_state \<Rightarrow> Institution \<Rightarrow> bytes \<Rightarrow> bytes \<Rightarrow> 32 word \<times> inst_state" where
  "recordApproval E s inst contentHash signer =
    (let s' = s\<lparr>is_approvals := kv_set (is_approvals s)
                  (ApprovalKey (in_Id inst) contentHash signer) (be64 (adminEpoch s (in_Id inst)))\<rparr>
     in (countApprovals E s' inst contentHash, s'))"

definition clearApprovals :: "inst_state \<Rightarrow> string \<Rightarrow> bytes \<Rightarrow> inst_state" where
  "clearApprovals s i contentHash =
    s\<lparr>is_approvals := kv_delete_all (is_approvals s)
        (map fst (kv_prefix (is_approvals s) (ApprovalPrefixFor i contentHash)))\<rparr>"

definition contentHashOf :: "inst_deps \<Rightarrow> bytes list \<Rightarrow> bytes" where
  "contentHashOf D parts = D_Sum256 D (lengthPrefixed parts)"

definition roleBytes :: "InstitutionRole \<Rightarrow> bytes" where
  "roleBytes r = be32 (word_of_nat (role_number r))"

record sensitiveResult =
  sr_executed :: bool
  sr_approvals :: "32 word"
  sr_threshold :: "32 word"

definition trySensitive ::
    "inst_deps \<Rightarrow> inst_state \<Rightarrow> Institution \<Rightarrow> string \<Rightarrow> bytes \<Rightarrow> (sensitiveResult \<times> inst_state) res" where
  "trySensitive D s inst signerBech contentHash = (let E = D_env D in
    bindE (requireRole E s inst signerBech [INSTITUTION_ROLE_ADMIN]) (\<lambda>_.
    case AccAddressFromBech32 E signerBech of
      None \<Rightarrow> Inl (Plain ''invalid signer address'')
    | Some signer \<Rightarrow>
       (case recordApproval E s inst contentHash signer of (approvals, s1) \<Rightarrow>
          (let threshold = effectiveThreshold E s1 inst in
           Inr (\<lparr>sr_executed = threshold \<le> approvals, sr_approvals = approvals,
                 sr_threshold = threshold\<rparr>, s1)))))"

section \<open>KYC tiers\<close>

definition HolderKycTier :: "inst_state \<Rightarrow> string \<Rightarrow> bytes \<Rightarrow> 32 word option" where
  "HolderKycTier s i holder = (case kv_get (is_tiers s) (HolderKycTierKey i holder) of
      None \<Rightarrow> None
    | Some bz \<Rightarrow> if length bz \<noteq> 4 then None else Some (dec32 bz))"

definition SetHolderKycTier :: "inst_state \<Rightarrow> string \<Rightarrow> bytes \<Rightarrow> 32 word \<Rightarrow> inst_state" where
  "SetHolderKycTier s i holder tier =
    s\<lparr>is_tiers := kv_set (is_tiers s) (HolderKycTierKey i holder) (be32 tier)\<rparr>"

definition kycTierDailyLimit :: "InstitutionParams \<Rightarrow> 32 word \<Rightarrow> int" where
  "kycTierDailyLimit p tier =
    (case find (\<lambda>kt. kt_Tier kt = tier) (ip_KycTierLimits p) of
       Some kt \<Rightarrow> CapInt (kt_DailyLimitToman kt)
     | None \<Rightarrow> 0)"

definition strictestKycLimit :: "InstitutionParams \<Rightarrow> int option" where
  "strictestKycLimit p =
    foldl (\<lambda>strictest kt. (let lim = CapInt (kt_DailyLimitToman kt) in
        if \<not> 0 < lim then strictest
        else case strictest of
            None \<Rightarrow> Some lim
          | Some v \<Rightarrow> if lim < v then Some lim else strictest)) None (ip_KycTierLimits p)"

definition effectiveMintKycDailyLimit ::
    "inst_state \<Rightarrow> Institution \<Rightarrow> bytes \<Rightarrow> 32 word \<Rightarrow> int" where
  "effectiveMintKycDailyLimit s inst recipient asserted =
    (let p = in_Params inst; limit0 = kycTierDailyLimit p asserted;
         recorded_or = (\<lambda>limit. case HolderKycTier s (in_Id inst) recipient of
             None \<Rightarrow> limit
           | Some recorded \<Rightarrow>
              (let rl = kycTierDailyLimit p recorded in
               if 0 < rl \<and> rl < limit then rl else limit))
     in if \<not> 0 < limit0
        then (case strictestKycLimit p of None \<Rightarrow> 0 | Some strictest \<Rightarrow> recorded_or strictest)
        else recorded_or limit0)"

definition effectiveKycDailyLimit :: "inst_state \<Rightarrow> Institution \<Rightarrow> bytes \<Rightarrow> int" where
  "effectiveKycDailyLimit s inst holder =
    (let p = in_Params inst;
         strictest = (case strictestKycLimit p of None \<Rightarrow> 0 | Some v \<Rightarrow> v)
     in case HolderKycTier s (in_Id inst) holder of
          None \<Rightarrow> strictest
        | Some tier \<Rightarrow> (let lim = kycTierDailyLimit p tier in if 0 < lim then lim else strictest))"

section \<open>Counters\<close>

definition dayIndex :: "ctx \<Rightarrow> int" where
  "dayIndex c = block_time c sdiv 86400"

definition parseCounter :: "bytes option \<Rightarrow> int" where
  "parseCounter bz = (case bz of
      None \<Rightarrow> 0
    | Some v \<Rightarrow> (case NewIntFromString v of Some n \<Rightarrow> n | None \<Rightarrow> 0))"

definition getCounterTotal :: "inst_state \<Rightarrow> string \<Rightarrow> string \<Rightarrow> int \<Rightarrow> int" where
  "getCounterTotal s i kind day = parseCounter (kv_get (is_counters s) (CounterTotalKey i kind day))"

definition getCounterUser :: "inst_state \<Rightarrow> string \<Rightarrow> string \<Rightarrow> int \<Rightarrow> bytes \<Rightarrow> int" where
  "getCounterUser s i kind day addr =
    parseCounter (kv_get (is_counters s) (CounterUserKey i kind day addr))"

definition addCounterTotal :: "inst_state \<Rightarrow> string \<Rightarrow> string \<Rightarrow> int \<Rightarrow> int \<Rightarrow> inst_state" where
  "addCounterTotal s i kind day amt =
    s\<lparr>is_counters := kv_set (is_counters s) (CounterTotalKey i kind day)
        (Int_String (getCounterTotal s i kind day + amt))\<rparr>"

definition addCounterUser :: "inst_state \<Rightarrow> string \<Rightarrow> string \<Rightarrow> int \<Rightarrow> bytes \<Rightarrow> int \<Rightarrow> inst_state" where
  "addCounterUser s i kind day addr amt =
    s\<lparr>is_counters := kv_set (is_counters s) (CounterUserKey i kind day addr)
        (Int_String (getCounterUser s i kind day addr + amt))\<rparr>"

definition RedeemSubjectDID :: char where "RedeemSubjectDID = CHR 0x01"
definition RedeemSubjectUnidentified :: char where "RedeemSubjectUnidentified = CHR 0x02"
definition UnidentifiedRedeemSubject :: string where "UnidentifiedRedeemSubject = ''unidentified''"

definition redeemSubject :: "inst_deps \<Rightarrow> bytes \<Rightarrow> char \<times> string" where
  "redeemSubject D holder =
    (case D_SubjectDID D (AccAddress_String (D_env D) holder) of
       Some did \<Rightarrow> (if did \<noteq> [] then (RedeemSubjectDID, did)
                    else (RedeemSubjectUnidentified, UnidentifiedRedeemSubject))
     | None \<Rightarrow> (RedeemSubjectUnidentified, UnidentifiedRedeemSubject))"

definition getRedeemSubjectTotal :: "inst_state \<Rightarrow> int \<Rightarrow> char \<Rightarrow> string \<Rightarrow> int" where
  "getRedeemSubjectTotal s day kind subject =
    parseCounter (kv_get (is_subjects s) (RedeemSubjectCounterKey day kind subject))"

definition addRedeemSubjectTotal :: "inst_state \<Rightarrow> int \<Rightarrow> char \<Rightarrow> string \<Rightarrow> int \<Rightarrow> inst_state" where
  "addRedeemSubjectTotal s day kind subject uphi =
    s\<lparr>is_subjects := kv_set (is_subjects s) (RedeemSubjectCounterKey day kind subject)
        (Int_String (getRedeemSubjectTotal s day kind subject + uphi))\<rparr>"

definition withinFloorReservation :: "inst_deps \<Rightarrow> ctx \<Rightarrow> inst_state \<Rightarrow> bytes \<Rightarrow> int \<Rightarrow> bool" where
  "withinFloorReservation D c s holder uphi =
    (let mp = inst_GetParams s; floorToman = CapInt (mp_RedeemFloorPerTx mp) in
     if \<not> 0 < floorToman then False
     else case MintedUphiForToman floorToman (mp_PhiToToman mp) of (floorUphi, integral) \<Rightarrow>
       if \<not> integral \<or> \<not> 0 < floorUphi then False
       else case redeemSubject D holder of (kind, subject) \<Rightarrow>
         getRedeemSubjectTotal s (dayIndex c) kind subject + uphi \<le> floorUphi)"

section \<open>Caps\<close>

definition enforceMintCaps ::
    "ctx \<Rightarrow> inst_state \<Rightarrow> Institution \<Rightarrow> bytes \<Rightarrow> int \<Rightarrow> 32 word \<Rightarrow> unit res" where
  "enforceMintCaps c s inst recipient toman kycTier =
    (let caps = ip_Caps (in_Params inst); day = dayIndex c; mp = inst_GetParams s;
         ceil_tx = CapInt (mp_MintCeilingPerTx mp);
         ceil_day = CapInt (mp_MintCeilingDaily mp);
         lim_tx = CapInt (cap_MintPerTx caps);
         lim_day = CapInt (cap_MintDaily caps);
         lim_user = CapInt (cap_MintPerUser caps);
         lim_kyc = effectiveMintKycDailyLimit s inst recipient kycTier;
         total = getCounterTotal s (in_Id inst) ''md'' day;
         user = getCounterUser s (in_Id inst) ''mu'' day recipient
     in
     if 0 < ceil_tx \<and> ceil_tx < toman then Inl ErrCapExceeded
     else if 0 < ceil_day \<and> ceil_day < total + toman then Inl ErrCapExceeded
     else if 0 < lim_tx \<and> lim_tx < toman then Inl ErrCapExceeded
     else if 0 < lim_day \<and> lim_day < total + toman then Inl ErrCapExceeded
     else if 0 < lim_user \<and> lim_user < user + toman then Inl ErrCapExceeded
     else if 0 < lim_kyc \<and> lim_kyc < user + toman then Inl ErrKycTierExceeded
     else Inr ())"

definition addMintCounters :: "ctx \<Rightarrow> inst_state \<Rightarrow> Institution \<Rightarrow> bytes \<Rightarrow> int \<Rightarrow> inst_state" where
  "addMintCounters c s inst recipient toman = (let day = dayIndex c in
    addCounterUser (addCounterTotal s (in_Id inst) ''md'' day toman)
      (in_Id inst) ''mu'' day recipient toman)"

definition enforceRedeemCaps ::
    "inst_deps \<Rightarrow> ctx \<Rightarrow> inst_state \<Rightarrow> Institution \<Rightarrow> bytes \<Rightarrow> int \<Rightarrow> int \<Rightarrow> unit res" where
  "enforceRedeemCaps D c s inst holder toman uphi =
    (let caps = ip_Caps (in_Params inst); day = dayIndex c; mp = inst_GetParams s;
         floor = CapInt (mp_RedeemFloorPerTx mp);
         lim_tx = AtLeastFloor (CapInt (cap_RedeemPerTx caps)) floor;
         lim_day = AtLeastFloor (CapInt (cap_RedeemDaily caps)) floor;
         lim_user = AtLeastFloor (CapInt (cap_RedeemPerUser caps)) floor;
         lim_kyc = AtLeastFloor (effectiveKycDailyLimit s inst holder) floor;
         lim_did = AtLeastFloor (CapInt (mp_RedeemDailyCapPerDidUphi mp)) (RedeemFloorUphi mp);
         total = getCounterTotal s (in_Id inst) ''rd'' day;
         user = getCounterUser s (in_Id inst) ''ru'' day holder;
         em = mp_EmergencyRedemption mp
     in
     if 0 < lim_tx \<and> lim_tx < toman then Inl ErrCapExceeded
     else if 0 < lim_day \<and> lim_day < total + toman \<and> \<not> withinFloorReservation D c s holder uphi
       then Inl ErrCapExceeded
     else if 0 < lim_user \<and> lim_user < user + toman then Inl ErrCapExceeded
     else if 0 < lim_kyc \<and> lim_kyc < user + toman then Inl ErrKycTierExceeded
     else if 0 < lim_did \<and> (case redeemSubject D holder of (kind, subject) \<Rightarrow>
              lim_did < getRedeemSubjectTotal s day kind subject + uphi)
       then Inl ErrCapExceeded
     else if em_Active em
       then (case emergencyCapForElapsed em (i64 (block_time c - em_StartedAt em)) of
           None \<Rightarrow> Inr ()
         | Some capToman \<Rightarrow>
            if capToman < getCounterUser s (in_Id inst) ''er'' (em_StartedAt em) holder + toman
            then Inl ErrRedemptionThrottled else Inr ())
     else Inr ())"

definition addRedeemCounters ::
    "inst_deps \<Rightarrow> ctx \<Rightarrow> inst_state \<Rightarrow> Institution \<Rightarrow> bytes \<Rightarrow> int \<Rightarrow> int \<Rightarrow> inst_state" where
  "addRedeemCounters D c s inst holder toman uphi =
    (let day = dayIndex c;
         s1 = addCounterTotal s (in_Id inst) ''rd'' day toman;
         s2 = addCounterUser s1 (in_Id inst) ''ru'' day holder toman
     in case redeemSubject D holder of (kind, subject) \<Rightarrow>
       (let s3 = addRedeemSubjectTotal s2 day kind subject uphi;
            em = mp_EmergencyRedemption (inst_GetParams s3)
        in if em_Active em
           then (case emergencyCapForElapsed em (i64 (block_time c - em_StartedAt em)) of
               None \<Rightarrow> s3
             | Some _ \<Rightarrow> addCounterUser s3 (in_Id inst) ''er'' (em_StartedAt em) holder toman)
           else s3))"

section \<open>Anti-replay markers, tightening, separation of duties\<close>

definition depositSeen :: "inst_state \<Rightarrow> string \<Rightarrow> string \<Rightarrow> string \<Rightarrow> bool" where
  "depositSeen s i direction ref = kv_has (is_deposits s) (DepositKey i direction ref)"

definition markDeposit :: "inst_state \<Rightarrow> string \<Rightarrow> string \<Rightarrow> string \<Rightarrow> inst_state" where
  "markDeposit s i direction ref =
    s\<lparr>is_deposits := kv_set (is_deposits s) (DepositKey i direction ref) [CHR 0x01]\<rparr>"

definition validateParamsTightenOnly :: "inst_state \<Rightarrow> InstitutionParams \<Rightarrow> unit res" where
  "validateParamsTightenOnly s p =
    (let mp = inst_GetParams s; floor = CapInt (mp_RedeemFloorPerTx mp);
         ceil = mp_MaxAttestationStalenessSeconds mp
     in if RedeemCapsBelowFloor p floor \<noteq> None then Inl ErrLooserThanFloor
        else if 0 < ceil \<and> ceil < ip_MaxVaultAttestationLatencyS p then Inl ErrLooserThanFloor
        else Inr ())"

definition SetLastAttestor :: "inst_state \<Rightarrow> string \<Rightarrow> bytes \<Rightarrow> inst_state" where
  "SetLastAttestor s i attestor =
    s\<lparr>is_attestors := kv_set (is_attestors s) (LastAttestorKey i) attestor\<rparr>"

definition LastAttestor :: "inst_state \<Rightarrow> string \<Rightarrow> bytes option" where
  "LastAttestor s i = (case kv_get (is_attestors s) (LastAttestorKey i) of
      None \<Rightarrow> None
    | Some bz \<Rightarrow> if bz = [] then None else Some bz)"

definition requireMintSeparation ::
    "sdk_env \<Rightarrow> inst_state \<Rightarrow> Institution \<Rightarrow> string \<Rightarrow> unit res" where
  "requireMintSeparation E s inst minterBech =
    (if countAdmins E s inst < MinAdminsForMint then Inl ErrTooFewAdmins
     else case AccAddressFromBech32 E minterBech of
         None \<Rightarrow> Inl (Plain ''invalid minter address'')
       | Some minter \<Rightarrow>
          (case LastAttestor s (in_Id inst) of
             None \<Rightarrow> Inl ErrAttestorIsMinter
           | Some attestor \<Rightarrow> if attestor = minter then Inl ErrAttestorIsMinter else Inr ()))"

section \<open>Removal queue\<close>

definition enqueueRemoval :: "inst_state \<Rightarrow> string \<Rightarrow> inst_state" where
  "enqueueRemoval s i = s\<lparr>is_removals := kv_set (is_removals s) (RemovalQueueKey i) [CHR 0x01]\<rparr>"

definition dequeueRemoval :: "inst_state \<Rightarrow> string \<Rightarrow> inst_state" where
  "dequeueRemoval s i = s\<lparr>is_removals := kv_delete (is_removals s) (RemovalQueueKey i)\<rparr>"

definition HasPendingRemoval :: "inst_state \<Rightarrow> string \<Rightarrow> bool" where
  "HasPendingRemoval s i = kv_has (is_removals s) (RemovalQueueKey i)"

definition firstPendingRemoval :: "inst_state \<Rightarrow> string option" where
  "firstPendingRemoval s = (case is_removals s of
      [] \<Rightarrow> None
    | e # _ \<Rightarrow> ParseRemovalQueueKey (fst e))"

end
