(* ===== verification/InstMsgs.thy ===== *)
theory InstMsgs
  imports InstKeeper
begin

text \<open>
  The institutions message handlers (\<^verbatim>\<open>keeper/msg_server.go\<close>,
  \<^verbatim>\<open>keeper/msg_server_rbac.go\<close>, \<^verbatim>\<open>keeper/emergency.go\<close>,
  \<^verbatim>\<open>keeper/fx_onboarding.go\<close>) and the stateless checks of \<^verbatim>\<open>types/msgs.go\<close>.
  A handler that returns an error has no effect: the transaction's writes are discarded.
  Events and telemetry are not part of the state.
\<close>

section \<open>Messages\<close>

record MsgRegisterInstitution =
  mr_Operator :: string
  mr_Id :: string
  mr_License :: string
  mr_Admin :: string
  mr_VaultAccount :: string
  mr_VaultApi :: string
  mr_Bond :: string
  mr_InstitutionType :: InstitutionType

record MsgRemoveInstitution =
  mx_Operator :: string
  mx_Id :: string

record MsgInstitutionMint =
  mm_Admin :: string
  mm_Institution :: string
  mm_Recipient :: string
  mm_AmountToman :: string
  mm_DepositProof :: bytes
  mm_DepositRef :: string
  mm_FxCurrency :: string
  mm_FxAmount :: string
  mm_FxTxRef :: string
  mm_KycTier :: "32 word"

record MsgInstitutionRedeem =
  md_Admin :: string
  md_Institution :: string
  md_Holder :: string
  md_AmountToman :: string
  md_RedeemRef :: string
  md_FxCurrency :: string
  md_FxAmount :: string
  md_FxTxRef :: string
  md_KycTier :: "32 word"

record MsgPublishInstitutionAttestation =
  ma_Admin :: string
  ma_Institution :: string
  ma_AttestedReserve :: string

record MsgFreezeInstitution =
  mf_Operator :: string
  mf_Id :: string
  mf_Frozen :: bool

record MsgSetEmergencyRedemption =
  me_Authority :: string
  me_Active :: bool
  me_CapBeforeDay30 :: string
  me_CapFromDay30 :: string
  me_CapFromDay60 :: string

record MsgGrantInstitutionRole =
  mg_Signer :: string
  mg_Institution :: string
  mg_Grantee :: string
  mg_Role :: InstitutionRole

record MsgRevokeInstitutionRole =
  mv_Signer :: string
  mv_Institution :: string
  mv_Grantee :: string

record MsgRequestFxEntry =
  fr_Applicant :: string
  fr_FxId :: string
  fr_License :: string
  fr_GuarantorId :: string

record MsgGuaranteeFxEntry =
  fg_GuarantorAdmin :: string
  fg_FxId :: string
  fg_Approve :: bool

record MsgFinalizeFxEntry =
  ff_Operator :: string
  ff_FxId :: string
  ff_ProposalId :: "64 word"

section \<open>Stateless checks\<close>

definition MaxLicenseLen :: nat where "MaxLicenseLen = 1024"
definition MaxRefLen :: nat where "MaxRefLen = 128"
definition MaxFxFieldLen :: nat where "MaxFxFieldLen = 128"

text \<open>The address check every \<^verbatim>\<open>ValidateBasic\<close> starts with.\<close>

definition check_address :: "sdk_env \<Rightarrow> string \<Rightarrow> unit res" where
  "check_address E a = (if AccAddressFromBech32 E a = None then Inl ErrInvalidAddress else Inr ())"

definition MsgRegisterInstitution_ValidateBasic :: "sdk_env \<Rightarrow> MsgRegisterInstitution \<Rightarrow> unit res" where
  "MsgRegisterInstitution_ValidateBasic E m =
    bindE (check_address E (mr_Operator m)) (\<lambda>_.
    bindE (check_address E (mr_Admin m)) (\<lambda>_.
    if mr_Id m = [] then Inl ErrInstitutionNotFound
    else if MaxInstitutionIDLen < length (mr_Id m) then Inl ErrIDTooLong
    else if mr_License m = [] then Inl inst_ErrInvalidParams
    else if mr_InstitutionType m \<noteq> INSTITUTION_TYPE_FINANCIAL
         \<and> mr_InstitutionType m \<noteq> INSTITUTION_TYPE_FX then Inl ErrInvalidInstitutionType
    else if mr_Bond m \<noteq> [] then
      (case NewIntFromString (mr_Bond m) of
         None \<Rightarrow> Inl inst_ErrInvalidAmount
       | Some v \<Rightarrow> if v < 0 then Inl inst_ErrInvalidAmount else Inr ())
    else Inr ()))"

definition MsgRemoveInstitution_ValidateBasic :: "sdk_env \<Rightarrow> MsgRemoveInstitution \<Rightarrow> unit res" where
  "MsgRemoveInstitution_ValidateBasic E m =
    bindE (check_address E (mx_Operator m)) (\<lambda>_.
    if mx_Id m = [] then Inl ErrInstitutionNotFound else Inr ())"

definition validateRefLen :: "string \<Rightarrow> nat \<Rightarrow> unit res" where
  "validateRefLen s mx = (if mx < length s then Inl ErrInvalidRequest else Inr ())"

definition validateFxFieldLens :: "string \<Rightarrow> string \<Rightarrow> string \<Rightarrow> unit res" where
  "validateFxFieldLens fxCurrency fxAmount fxTxRef =
    allE (\<lambda>v. if MaxFxFieldLen < length v then Inl ErrInvalidRequest else Inr ())
      [fxCurrency, fxAmount, fxTxRef]"

definition check_positive_amount :: "string \<Rightarrow> unit res" where
  "check_positive_amount s = (case NewIntFromString s of
      None \<Rightarrow> Inl inst_ErrInvalidAmount
    | Some v \<Rightarrow> if \<not> 0 < v then Inl inst_ErrInvalidAmount else Inr ())"

definition MsgInstitutionMint_ValidateBasic :: "sdk_env \<Rightarrow> MsgInstitutionMint \<Rightarrow> unit res" where
  "MsgInstitutionMint_ValidateBasic E m =
    bindE (check_address E (mm_Admin m)) (\<lambda>_.
    bindE (check_address E (mm_Recipient m)) (\<lambda>_.
    if mm_Institution m = [] then Inl ErrInstitutionNotFound
    else bindE (check_positive_amount (mm_AmountToman m)) (\<lambda>_.
         bindE (validateRefLen (mm_DepositRef m) MaxRefLen) (\<lambda>_.
         validateFxFieldLens (mm_FxCurrency m) (mm_FxAmount m) (mm_FxTxRef m)))))"

definition MsgInstitutionRedeem_ValidateBasic :: "sdk_env \<Rightarrow> MsgInstitutionRedeem \<Rightarrow> unit res" where
  "MsgInstitutionRedeem_ValidateBasic E m =
    bindE (check_address E (md_Admin m)) (\<lambda>_.
    bindE (check_address E (md_Holder m)) (\<lambda>_.
    if md_Admin m \<noteq> md_Holder m then Inl inst_ErrUnauthorized
    else if md_Institution m = [] then Inl ErrInstitutionNotFound
    else bindE (check_positive_amount (md_AmountToman m)) (\<lambda>_.
         bindE (validateRefLen (md_RedeemRef m) MaxRefLen) (\<lambda>_.
         validateFxFieldLens (md_FxCurrency m) (md_FxAmount m) (md_FxTxRef m)))))"

definition MsgGrantInstitutionRole_ValidateBasic :: "sdk_env \<Rightarrow> MsgGrantInstitutionRole \<Rightarrow> unit res" where
  "MsgGrantInstitutionRole_ValidateBasic E m =
    bindE (check_address E (mg_Signer m)) (\<lambda>_.
    bindE (check_address E (mg_Grantee m)) (\<lambda>_.
    if mg_Institution m = [] then Inl ErrInstitutionNotFound
    else if mg_Role m = INSTITUTION_ROLE_UNSPECIFIED then Inl ErrInvalidRole
    else Inr ()))"

definition MsgRequestFxEntry_ValidateBasic :: "sdk_env \<Rightarrow> MsgRequestFxEntry \<Rightarrow> unit res" where
  "MsgRequestFxEntry_ValidateBasic E m =
    bindE (check_address E (fr_Applicant m)) (\<lambda>_.
    if fr_FxId m = [] then Inl ErrFxOnboarding
    else if MaxInstitutionIDLen < length (fr_FxId m) then Inl ErrIDTooLong
    else if fr_License m = [] then Inl inst_ErrInvalidParams
    else if MaxLicenseLen < length (fr_License m) then Inl inst_ErrInvalidParams
    else if fr_GuarantorId m = [] then Inl ErrGuarantorRequired
    else Inr ())"

definition MsgSetEmergencyRedemption_ValidateBasic ::
    "sdk_env \<Rightarrow> MsgSetEmergencyRedemption \<Rightarrow> unit res" where
  "MsgSetEmergencyRedemption_ValidateBasic E m =
    bindE (check_address E (me_Authority m)) (\<lambda>_.
    allE (\<lambda>v. if v = [] then Inr () else case NewIntFromString v of
            None \<Rightarrow> Inl inst_ErrInvalidAmount
          | Some n \<Rightarrow> if n < 0 then Inl inst_ErrInvalidAmount else Inr ())
      [me_CapBeforeDay30 m, me_CapFromDay30 m, me_CapFromDay60 m])"

section \<open>Registry\<close>

definition canManageRegistry :: "inst_deps \<Rightarrow> inst_state \<Rightarrow> string \<Rightarrow> bool" where
  "canManageRegistry D s signer =
    (if signer = D_authority D then True
     else (let params = inst_GetParams s in
           D_BootstrapPhase D \<and> mp_Operator params \<noteq> [] \<and> signer = mp_Operator params))"

text \<open>The record a registration or an fx finalization stores.\<close>

definition new_institution ::
    "string \<Rightarrow> string \<Rightarrow> string \<Rightarrow> string \<Rightarrow> string \<Rightarrow> string \<Rightarrow> InstitutionType \<Rightarrow> int \<Rightarrow> Institution" where
  "new_institution i license admin vaultAccount vaultApi bond ty now =
    \<lparr>in_Id = i, in_License = license, in_Admin = admin, in_VaultAccount = vaultAccount,
     in_VaultApi = vaultApi, in_Bond = bond, in_Status = INSTITUTION_STATUS_HEALTHY,
     in_VaultBalance = ''0'', in_AttestedReserve = ''0'', in_PausedMint = False,
     in_AppConfig = empty_app_config, in_Params = empty_inst_params, in_InstitutionType = ty,
     in_DepositPubkey = [], in_LastAttestedAt = now\<rparr>"

definition RegisterInstitution ::
    "inst_deps \<Rightarrow> ctx \<Rightarrow> inst_state \<Rightarrow> MsgRegisterInstitution \<Rightarrow> inst_state res" where
  "RegisterInstitution D c s m =
    (if \<not> canManageRegistry D s (mr_Operator m) then Inl inst_ErrUnauthorized
     else if mr_Id m = [] then Inl ErrInstitutionNotFound
     else if MaxInstitutionIDLen < length (mr_Id m) then Inl ErrIDTooLong
     else if HasInstitution s (mr_Id m) then Inl ErrInstitutionExists
     else if HasPendingRemoval s (mr_Id m) then Inl ErrRemovalInProgress
     else if mr_InstitutionType m \<noteq> INSTITUTION_TYPE_FINANCIAL
          \<and> mr_InstitutionType m \<noteq> INSTITUTION_TYPE_FX then Inl ErrInvalidInstitutionType
     else
      (let bond = (if mr_Bond m \<noteq> [] then mr_Bond m else ''0'') in
       Inr (SetInstitution s (new_institution (mr_Id m) (mr_License m) (mr_Admin m)
              (mr_VaultAccount m) (mr_VaultApi m) bond (mr_InstitutionType m) (block_time c)))))"

definition RemoveInstitution :: "inst_deps \<Rightarrow> inst_state \<Rightarrow> MsgRemoveInstitution \<Rightarrow> inst_state res" where
  "RemoveInstitution D s m =
    (if \<not> canManageRegistry D s (mx_Operator m) then Inl inst_ErrUnauthorized
     else case GetInstitution s (mx_Id m) of
         None \<Rightarrow> Inl ErrInstitutionNotFound
       | Some inst \<Rightarrow>
          if mustInt (in_VaultBalance inst) \<noteq> 0 then Inl ErrVaultNotEmpty
          else Inr (enqueueRemoval (removeInstitutionSingleRecords s (mx_Id m)) (mx_Id m)))"

definition FreezeInstitution :: "inst_deps \<Rightarrow> inst_state \<Rightarrow> MsgFreezeInstitution \<Rightarrow> inst_state res" where
  "FreezeInstitution D s m =
    (if \<not> canManageRegistry D s (mf_Operator m) then Inl inst_ErrUnauthorized
     else case GetInstitution s (mf_Id m) of
         None \<Rightarrow> Inl ErrInstitutionNotFound
       | Some inst \<Rightarrow>
          Inr (SetInstitution s (inst\<lparr>in_Status :=
            (if mf_Frozen m then INSTITUTION_STATUS_FROZEN else INSTITUTION_STATUS_HEALTHY)\<rparr>)))"

definition inst_UpdateParams ::
    "inst_deps \<Rightarrow> inst_state \<Rightarrow> string \<Rightarrow> inst_Params \<Rightarrow> inst_state res" where
  "inst_UpdateParams D s authority params =
    (if authority \<noteq> D_authority D then Inl ErrInvalidSigner
     else if mp_PenaltyDestination params \<noteq> [] then
      (case AccAddressFromBech32 (D_env D) (mp_PenaltyDestination params) of
         None \<Rightarrow> Inl inst_ErrInvalidParams
       | Some dest \<Rightarrow>
          if BlockedAddr (D_env D) dest then Inl inst_ErrInvalidParams
          else inst_SetParams (D_env D) s params)
     else inst_SetParams (D_env D) s params)"

definition SetEmergencyRedemption ::
    "inst_deps \<Rightarrow> ctx \<Rightarrow> inst_state \<Rightarrow> MsgSetEmergencyRedemption \<Rightarrow> inst_state res" where
  "SetEmergencyRedemption D c s m =
    (if me_Authority m \<noteq> D_authority D then Inl ErrInvalidSigner
     else
      (let params = inst_GetParams s; em = mp_EmergencyRedemption params; now = block_time c;
           em' = (if me_Active m
             then em\<lparr>em_StartedAt :=
                       (if em_StartedAt em = 0
                           \<or> \<not> em_Active em \<and> EmergencyDay90 \<le> i64 (now - em_StartedAt em)
                        then now else em_StartedAt em),
                     em_Active := True,
                     em_CapBeforeDay30 := me_CapBeforeDay30 m,
                     em_CapFromDay30 :=
                       defaultIfEmpty (me_CapFromDay30 m) DefaultEmergencyCapFromDay30Toman,
                     em_CapFromDay60 :=
                       defaultIfEmpty (me_CapFromDay60 m) DefaultEmergencyCapFromDay60Toman\<rparr>
             else em\<lparr>em_Active := False\<rparr>)
       in inst_SetParams (D_env D) s (params\<lparr>mp_EmergencyRedemption := em'\<rparr>)))"

section \<open>Attestation\<close>

definition PublishInstitutionAttestation ::
    "inst_deps \<Rightarrow> ctx \<Rightarrow> inst_state \<Rightarrow> MsgPublishInstitutionAttestation \<Rightarrow> inst_state res" where
  "PublishInstitutionAttestation D c s m =
    (case GetInstitution s (ma_Institution m) of
       None \<Rightarrow> Inl ErrInstitutionNotFound
     | Some inst \<Rightarrow>
        bindE (requireRole (D_env D) s inst (ma_Admin m) [INSTITUTION_ROLE_COMPLIANCE]) (\<lambda>_.
        case NewIntFromString (ma_AttestedReserve m) of
          None \<Rightarrow> Inl inst_ErrInvalidAmount
        | Some reserve \<Rightarrow>
           if reserve < 0 then Inl inst_ErrInvalidAmount
           else case AccAddressFromBech32 (D_env D) (ma_Admin m) of
               None \<Rightarrow> Inl (Plain ''invalid attestor address'')
             | Some attestor \<Rightarrow>
                (let s1 = SetLastAttestor s (in_Id inst) attestor;
                     status = (if \<not> in_PausedMint inst \<and> in_Status inst \<noteq> INSTITUTION_STATUS_FROZEN
                       then (if reserve < mustInt (in_VaultBalance inst)
                             then INSTITUTION_STATUS_LOW_LIQ else INSTITUTION_STATUS_HEALTHY)
                       else in_Status inst)
                 in Inr (SetInstitution s1 (inst\<lparr>in_AttestedReserve := Int_String reserve,
                      in_LastAttestedAt := block_time c, in_Status := status\<rparr>)))))"

section \<open>Mint\<close>

definition validateFxMetadata :: "InstitutionType \<Rightarrow> string \<Rightarrow> string \<Rightarrow> string \<Rightarrow> unit res" where
  "validateFxMetadata instType currency amount txRef =
    (let isFx = (instType = INSTITUTION_TYPE_FX);
         hasAll = (currency \<noteq> [] \<and> amount \<noteq> [] \<and> txRef \<noteq> []);
         hasAny = (currency \<noteq> [] \<or> amount \<noteq> [] \<or> txRef \<noteq> [])
     in if isFx \<and> \<not> hasAll then Inl ErrInvalidFxMetadata
        else if \<not> isFx \<and> hasAny then Inl ErrInvalidFxMetadata
        else Inr ())"

definition depositMessageDomain :: string where
  "depositMessageDomain = ''phi-deposit-attestation-v2''"

definition buildDepositMessage ::
    "string \<Rightarrow> string \<Rightarrow> string \<Rightarrow> string \<Rightarrow> bool \<Rightarrow> string \<Rightarrow> string \<Rightarrow> string \<Rightarrow> bytes" where
  "buildDepositMessage instID recipient amountToman depositRef isFx fxCurrency fxAmount fxTxRef =
    lengthPrefixed ([depositMessageDomain, instID, recipient, amountToman, depositRef]
      @ (if isFx then [fxCurrency, fxAmount, fxTxRef] else []))"

text \<open>
  The checks of a mint up to the large-mint gate, in the handler's order; the result is the
  institution, the toman and uphi amounts, the new vault balance and the recipient.
\<close>

definition mint_checks ::
    "inst_deps \<Rightarrow> ctx \<Rightarrow> inst_state \<Rightarrow> MsgInstitutionMint \<Rightarrow> (Institution \<times> int \<times> int \<times> int \<times> bytes) res" where
  "mint_checks D c s m = (let E = D_env D in
    case GetInstitution s (mm_Institution m) of
      None \<Rightarrow> Inl ErrInstitutionNotFound
    | Some inst \<Rightarrow>
       bindE (requireRole E s inst (mm_Admin m) [INSTITUTION_ROLE_OPERATOR, INSTITUTION_ROLE_ADMIN]) (\<lambda>_.
       bindE (validateFxMetadata (in_InstitutionType inst) (mm_FxCurrency m) (mm_FxAmount m) (mm_FxTxRef m)) (\<lambda>_.
       if mm_DepositRef m = [] then Inl ErrMissingRef
       else if depositSeen s (in_Id inst) ''mint'' (mm_DepositRef m) then Inl ErrDuplicateDeposit
       else if in_Status inst = INSTITUTION_STATUS_FROZEN then Inl ErrInstitutionFrozen
       else if in_PausedMint inst then Inl ErrMintPaused
       else if IsStaleAt inst (block_time c) (mp_MaxAttestationStalenessSeconds (inst_GetParams s))
         then Inl ErrAttestationStale
       else
        bindE (requireMintSeparation E s inst (mm_Admin m)) (\<lambda>_.
        case NewIntFromString (mm_AmountToman m) of
          None \<Rightarrow> Inl inst_ErrInvalidAmount
        | Some toman \<Rightarrow>
           if \<not> 0 < toman then Inl inst_ErrInvalidAmount
           else if in_DepositPubkey inst \<noteq> [] \<and>
             \<not> D_VerifySignature D (in_DepositPubkey inst)
                 (buildDepositMessage (in_Id inst) (mm_Recipient m) (mm_AmountToman m)
                   (mm_DepositRef m) (in_InstitutionType inst = INSTITUTION_TYPE_FX)
                   (mm_FxCurrency m) (mm_FxAmount m) (mm_FxTxRef m))
                 (mm_DepositProof m)
             then Inl ErrInvalidDepositProof
           else case MintedUphiForToman toman (mp_PhiToToman (inst_GetParams s)) of (uphi, integral) \<Rightarrow>
             if \<not> integral \<or> \<not> 0 < uphi then Inl ErrNonIntegralMint
             else
              (let newVault = mustInt (in_VaultBalance inst) + toman in
               if mustInt (in_AttestedReserve inst) < newVault then Inl ErrMintExceedsBacking
               else case AccAddressFromBech32 E (mm_Recipient m) of
                   None \<Rightarrow> Inl (Plain ''invalid recipient address'')
                 | Some recipient \<Rightarrow>
                    bindE (enforceMintCaps c s inst recipient toman (mm_KycTier m)) (\<lambda>_.
                    Inr (inst, toman, uphi, newVault, recipient)))))))"

text \<open>
  The large-mint gate: below the governed threshold nothing happens; at or above it the
  signer's approval is recorded, and the mint goes on only once the threshold is reached.
\<close>

definition large_mint_gate ::
    "inst_deps \<Rightarrow> inst_state \<Rightarrow> Institution \<Rightarrow> MsgInstitutionMint \<Rightarrow> int \<Rightarrow> (bool \<times> inst_state) res" where
  "large_mint_gate D s inst m toman =
    (let lim = CapInt (mp_LargeMintThresholdToman (inst_GetParams s)) in
     if 0 < lim \<and> lim \<le> toman
     then
      (let ch = contentHashOf D [''mint'', in_Id inst, mm_Recipient m, mm_AmountToman m,
                  mm_DepositRef m, mm_FxCurrency m, mm_FxAmount m, mm_FxTxRef m] in
       bindE (trySensitive D s inst (mm_Admin m) ch) (\<lambda>(r, s1).
       if \<not> sr_executed r then Inr (False, s1)
       else Inr (True, clearApprovals s1 (in_Id inst) ch)))
     else Inr (True, s))"

text \<open>Issuing: mint the full amount, deliver the customer's part, route the protocol fee.\<close>

definition mint_issue :: "inst_deps \<Rightarrow> bank \<Rightarrow> bytes \<Rightarrow> int \<Rightarrow> int \<Rightarrow> bank res" where
  "mint_issue D b recipient uphi protocolFee = (let E = D_env D in
    bindE (MintCoins E b inst_ModuleName uphi) (\<lambda>b.
    bindE (SendCoinsFromModuleToAccount E b inst_ModuleName recipient (uphi - protocolFee)) (\<lambda>b.
    if 0 < protocolFee
    then SendCoinsFromModuleToModule E b inst_ModuleName RevenueAccountName protocolFee
    else Inr b)))"

definition InstitutionMint ::
    "inst_deps \<Rightarrow> ctx \<Rightarrow> world \<Rightarrow> MsgInstitutionMint \<Rightarrow> (string \<times> world) res" where
  "InstitutionMint D c w m =
    bindE (mint_checks D c (w_inst w) m) (\<lambda>(inst, toman, uphi, newVault, recipient).
    bindE (large_mint_gate D (w_inst w) inst m toman) (\<lambda>(go, s).
    if \<not> go then Inr (''0'', w\<lparr>w_inst := s\<rparr>)
    else
     (let protocolFee = ProtocolFee (inst_GetParams s) uphi in
      bindE (mint_issue D (w_bank w) recipient uphi protocolFee) (\<lambda>b.
      (let coin = AddCoins (w_coin w) (mm_Recipient m) (uphi - protocolFee) (block_time c);
           s1 = SetInstitution s (inst\<lparr>in_VaultBalance := Int_String newVault\<rparr>);
           s2 = addMintCounters c s1 inst recipient toman;
           s3 = markDeposit s2 (in_Id inst) ''mint'' (mm_DepositRef m)
       in bindE (assertSolvency b s3) (\<lambda>_.
          Inr (Int_String uphi, \<lparr>w_bank = b, w_coin = coin, w_inst = s3\<rparr>)))))))"

section \<open>Redeem\<close>

definition redeem_checks ::
    "inst_deps \<Rightarrow> ctx \<Rightarrow> inst_state \<Rightarrow> MsgInstitutionRedeem \<Rightarrow> (Institution \<times> int \<times> int \<times> bytes) res" where
  "redeem_checks D c s m =
    (case GetInstitution s (md_Institution m) of
       None \<Rightarrow> Inl ErrInstitutionNotFound
     | Some inst \<Rightarrow>
        if md_Admin m \<noteq> md_Holder m then Inl inst_ErrUnauthorized
        else
         bindE (validateFxMetadata (in_InstitutionType inst) (md_FxCurrency m) (md_FxAmount m) (md_FxTxRef m)) (\<lambda>_.
         if md_RedeemRef m = [] then Inl ErrMissingRef
         else if depositSeen s (in_Id inst) ''redeem'' (md_RedeemRef m) then Inl ErrDuplicateDeposit
         else case NewIntFromString (md_AmountToman m) of
             None \<Rightarrow> Inl inst_ErrInvalidAmount
           | Some toman \<Rightarrow>
              if \<not> 0 < toman then Inl inst_ErrInvalidAmount
              else if mustInt (in_VaultBalance inst) < toman then Inl ErrInsufficientVault
              else case MintedUphiForToman toman (mp_PhiToToman (inst_GetParams s)) of (uphi, integral) \<Rightarrow>
                if \<not> integral \<or> \<not> 0 < uphi then Inl ErrNonIntegralMint
                else case AccAddressFromBech32 (D_env D) (md_Holder m) of
                    None \<Rightarrow> Inl (Plain ''invalid holder address'')
                  | Some holder \<Rightarrow>
                     bindE (enforceRedeemCaps D c s inst holder toman uphi) (\<lambda>_.
                     Inr (inst, toman, uphi, holder))))"

text \<open>Settling: take the surrendered uphi, route the carve-out, burn the rest.\<close>

definition redeem_settle :: "inst_deps \<Rightarrow> bank \<Rightarrow> bytes \<Rightarrow> RedeemSplit \<Rightarrow> bank res" where
  "redeem_settle D b holder split = (let E = D_env D in
    bindE (SendCoinsFromAccountToModule E b holder inst_ModuleName (rs_UphiIn split)) (\<lambda>b.
    bindE (if 0 < rs_Carved split
           then SendCoinsFromModuleToModule E b inst_ModuleName RevenueAccountName (rs_Carved split)
           else Inr b) (\<lambda>b.
    BurnCoins E b inst_ModuleName (rs_Burned split))))"

definition InstitutionRedeem ::
    "inst_deps \<Rightarrow> ctx \<Rightarrow> world \<Rightarrow> MsgInstitutionRedeem \<Rightarrow> (string \<times> world) res" where
  "InstitutionRedeem D c w m = (let s = w_inst w; phiToToman = mp_PhiToToman (inst_GetParams s) in
    bindE (redeem_checks D c s m) (\<lambda>(inst, toman, uphi, holder).
    case EarlyRedeemPenalty c (w_coin w) (md_Holder m) uphi of (penalty0, coin) \<Rightarrow>
      (let penalty = (if penalty0 < 0 then 0 else penalty0) in
       if uphi < UphiPerToman phiToToman then Inl ErrBelowMinRedeem
       else
        (let split = ComputeRedeemSplit uphi (ProtocolFee (inst_GetParams s) uphi) penalty phiToToman in
         if \<not> 0 < rs_Burned split then Inl ErrNothingRedeemed
         else
          bindE (redeem_settle D (w_bank w) holder split) (\<lambda>b.
          (let s1 = SetInstitution s (inst\<lparr>in_VaultBalance :=
                      Int_String (mustInt (in_VaultBalance inst) - rs_TomanOut split)\<rparr>);
               s2 = addRedeemCounters D c s1 inst holder toman uphi;
               s3 = markDeposit s2 (in_Id inst) ''redeem'' (md_RedeemRef m)
           in bindE (assertSolvency b s3) (\<lambda>_.
              Inr (Int_String (rs_Burned split), \<lparr>w_bank = b, w_coin = coin, w_inst = s3\<rparr>))))))))"

section \<open>Sensitive actions\<close>

text \<open>
  The shape the five sensitive handlers share: look the institution up, record the approval,
  and apply the action once the threshold is reached.
\<close>

definition GrantInstitutionRole ::
    "inst_deps \<Rightarrow> inst_state \<Rightarrow> MsgGrantInstitutionRole \<Rightarrow> (sensitiveResult \<times> inst_state) res" where
  "GrantInstitutionRole D s m =
    (case GetInstitution s (mg_Institution m) of
       None \<Rightarrow> Inl ErrInstitutionNotFound
     | Some inst \<Rightarrow>
        (let ch = contentHashOf D [''grant'', mg_Institution m, mg_Grantee m, roleBytes (mg_Role m)] in
         bindE (trySensitive D s inst (mg_Signer m) ch) (\<lambda>(r, s1).
         if \<not> sr_executed r then Inr (r, s1)
         else case AccAddressFromBech32 (D_env D) (mg_Grantee m) of
             None \<Rightarrow> Inl (Plain ''invalid grantee address'')
           | Some grantee \<Rightarrow>
              (let s2 = clearApprovals (SetRole (D_env D) s1 (in_Id inst) grantee (mg_Role m))
                          (in_Id inst) ch
               in Inr (r, if mg_Role m = INSTITUTION_ROLE_ADMIN
                          then bumpAdminEpoch s2 (in_Id inst) else s2)))))"

definition RevokeInstitutionRole ::
    "inst_deps \<Rightarrow> inst_state \<Rightarrow> MsgRevokeInstitutionRole \<Rightarrow> (sensitiveResult \<times> inst_state) res" where
  "RevokeInstitutionRole D s m =
    (case GetInstitution s (mv_Institution m) of
       None \<Rightarrow> Inl ErrInstitutionNotFound
     | Some inst \<Rightarrow>
        (let ch = contentHashOf D [''revoke'', mv_Institution m, mv_Grantee m] in
         bindE (trySensitive D s inst (mv_Signer m) ch) (\<lambda>(r, s1).
         if \<not> sr_executed r then Inr (r, s1)
         else case AccAddressFromBech32 (D_env D) (mv_Grantee m) of
             None \<Rightarrow> Inl (Plain ''invalid grantee address'')
           | Some grantee \<Rightarrow>
              (let wasAdmin = (GetRole s1 (in_Id inst) grantee = INSTITUTION_ROLE_ADMIN);
                   s2 = clearApprovals (DeleteRole s1 (in_Id inst) grantee) (in_Id inst) ch
               in Inr (r, if wasAdmin then bumpAdminEpoch s2 (in_Id inst) else s2)))))"

definition UpdateInstitutionAppConfig ::
    "inst_deps \<Rightarrow> inst_state \<Rightarrow> string \<Rightarrow> string \<Rightarrow> InstitutionAppConfig
      \<Rightarrow> (sensitiveResult \<times> inst_state) res" where
  "UpdateInstitutionAppConfig D s signer institution config =
    (case GetInstitution s institution of
       None \<Rightarrow> Inl ErrInstitutionNotFound
     | Some inst \<Rightarrow>
        (let ch = contentHashOf D [''appconfig'', institution, D_MarshalAppConfig D config] in
         bindE (trySensitive D s inst signer ch) (\<lambda>(r, s1).
         if \<not> sr_executed r then Inr (r, s1)
         else Inr (r, clearApprovals (SetInstitution s1 (inst\<lparr>in_AppConfig := config\<rparr>))
                        (in_Id inst) ch))))"

definition UpdateInstitutionParams ::
    "inst_deps \<Rightarrow> inst_state \<Rightarrow> string \<Rightarrow> string \<Rightarrow> InstitutionParams
      \<Rightarrow> (sensitiveResult \<times> inst_state) res" where
  "UpdateInstitutionParams D s signer institution params =
    (case GetInstitution s institution of
       None \<Rightarrow> Inl ErrInstitutionNotFound
     | Some inst \<Rightarrow>
        bindE (validateParamsTightenOnly s params) (\<lambda>_.
        (let ch = contentHashOf D [''params'', institution, D_MarshalParams D params] in
         bindE (trySensitive D s inst signer ch) (\<lambda>(r, s1).
         if \<not> sr_executed r then Inr (r, s1)
         else Inr (r, clearApprovals (SetInstitution s1 (inst\<lparr>in_Params := params\<rparr>))
                        (in_Id inst) ch)))))"

definition SetInstitutionDepositKey ::
    "inst_deps \<Rightarrow> inst_state \<Rightarrow> string \<Rightarrow> string \<Rightarrow> bytes \<Rightarrow> (sensitiveResult \<times> inst_state) res" where
  "SetInstitutionDepositKey D s signer institution depositPubkey =
    (case GetInstitution s institution of
       None \<Rightarrow> Inl ErrInstitutionNotFound
     | Some inst \<Rightarrow>
        (let ch = contentHashOf D [''depositkey'', institution, depositPubkey] in
         bindE (trySensitive D s inst signer ch) (\<lambda>(r, s1).
         if \<not> sr_executed r then Inr (r, s1)
         else Inr (r, clearApprovals (SetInstitution s1 (inst\<lparr>in_DepositPubkey := depositPubkey\<rparr>))
                        (in_Id inst) ch))))"

section \<open>Exchange onboarding\<close>

definition SetFxRequest :: "inst_state \<Rightarrow> FxEntryRequest \<Rightarrow> inst_state" where
  "SetFxRequest s req = s\<lparr>is_fx := kv_set (is_fx s) (FxRequestKey (fx_FxId req)) req\<rparr>"

definition GetFxRequest :: "inst_state \<Rightarrow> string \<Rightarrow> FxEntryRequest option" where
  "GetFxRequest s fxID = kv_get (is_fx s) (FxRequestKey fxID)"

definition HasFxRequest :: "inst_state \<Rightarrow> string \<Rightarrow> bool" where
  "HasFxRequest s fxID = kv_has (is_fx s) (FxRequestKey fxID)"

definition DeleteFxRequest :: "inst_state \<Rightarrow> string \<Rightarrow> inst_state" where
  "DeleteFxRequest s fxID = s\<lparr>is_fx := kv_delete (is_fx s) (FxRequestKey fxID)\<rparr>"

definition isActiveFinancialGuarantor :: "Institution \<Rightarrow> bool" where
  "isActiveFinancialGuarantor inst \<longleftrightarrow>
    (in_InstitutionType inst = INSTITUTION_TYPE_FINANCIAL
      \<or> in_InstitutionType inst = INSTITUTION_TYPE_UNSPECIFIED)
    \<and> in_Status inst \<noteq> INSTITUTION_STATUS_FROZEN"

definition RequestFxEntry :: "inst_state \<Rightarrow> MsgRequestFxEntry \<Rightarrow> inst_state res" where
  "RequestFxEntry s m =
    (if fr_FxId m = [] then Inl ErrFxOnboarding
     else if MaxInstitutionIDLen < length (fr_FxId m) then Inl ErrIDTooLong
     else if HasInstitution s (fr_FxId m) then Inl ErrInstitutionExists
     else if HasPendingRemoval s (fr_FxId m) then Inl ErrRemovalInProgress
     else if HasFxRequest s (fr_FxId m) then Inl ErrFxOnboarding
     else case GetInstitution s (fr_GuarantorId m) of
         None \<Rightarrow> Inl ErrGuarantorRequired
       | Some guarantor \<Rightarrow>
          if \<not> isActiveFinancialGuarantor guarantor then Inl ErrGuarantorRequired
          else Inr (SetFxRequest s \<lparr>fx_FxId = fr_FxId m, fx_Applicant = fr_Applicant m,
                 fx_License = fr_License m, fx_GuarantorId = fr_GuarantorId m,
                 fx_Status = FX_ENTRY_REQUESTED\<rparr>))"

definition GuaranteeFxEntry :: "inst_deps \<Rightarrow> inst_state \<Rightarrow> MsgGuaranteeFxEntry \<Rightarrow> inst_state res" where
  "GuaranteeFxEntry D s m =
    (case GetFxRequest s (fg_FxId m) of
       None \<Rightarrow> Inl ErrFxOnboarding
     | Some req \<Rightarrow>
        if fx_Status req \<noteq> FX_ENTRY_REQUESTED then Inl ErrFxOnboarding
        else case GetInstitution s (fx_GuarantorId req) of
            None \<Rightarrow> Inl ErrGuarantorRequired
          | Some guarantor \<Rightarrow>
             if \<not> isActiveFinancialGuarantor guarantor then Inl ErrGuarantorRequired
             else bindE (requireRole (D_env D) s guarantor (fg_GuarantorAdmin m)
                           [INSTITUTION_ROLE_ADMIN, INSTITUTION_ROLE_OPERATOR]) (\<lambda>_.
               if \<not> fg_Approve m then Inr (DeleteFxRequest s (fg_FxId m))
               else Inr (SetFxRequest s (req\<lparr>fx_Status := FX_ENTRY_GUARANTEED\<rparr>))))"

definition MsgFinalizeFxEntryTypeURL :: string where
  "MsgFinalizeFxEntryTypeURL = ''/phi.institutions.MsgFinalizeFxEntry''"

definition requirePassedProposalFor :: "inst_deps \<Rightarrow> 64 word \<Rightarrow> string \<Rightarrow> unit res" where
  "requirePassedProposalFor D proposalID fxID =
    (if proposalID = 0 then Inl ErrFxOnboarding
     else case D_Proposal D of
         None \<Rightarrow> Inl ErrFxOnboarding
       | Some lookup \<Rightarrow>
          (case lookup proposalID of
             None \<Rightarrow> Inl ErrFxOnboarding
           | Some prop \<Rightarrow>
              if gp_Status prop \<noteq> PROPOSAL_STATUS_PASSED then Inl ErrFxOnboarding
              else if list_ex (\<lambda>anyMsg. case anyMsg of
                     None \<Rightarrow> False
                   | Some (url, value) \<Rightarrow>
                      url = MsgFinalizeFxEntryTypeURL \<and> D_UnmarshalFinalize D value = Some fxID)
                   (gp_Messages prop)
                then Inr ()
              else Inl ErrFxOnboarding))"

definition FinalizeFxEntry ::
    "inst_deps \<Rightarrow> ctx \<Rightarrow> inst_state \<Rightarrow> MsgFinalizeFxEntry \<Rightarrow> inst_state res" where
  "FinalizeFxEntry D c s m =
    (let params = inst_GetParams s;
         isOperator = (mp_Operator params \<noteq> [] \<and> ff_Operator m = mp_Operator params);
         isAuthority = (ff_Operator m = D_authority D)
     in if \<not> isOperator \<and> \<not> isAuthority then Inl inst_ErrUnauthorized
     else case GetFxRequest s (ff_FxId m) of
         None \<Rightarrow> Inl ErrFxOnboarding
       | Some req \<Rightarrow>
          if fx_Status req \<noteq> FX_ENTRY_GUARANTEED then Inl ErrFxOnboarding
          else if HasInstitution s (ff_FxId m) then Inl ErrInstitutionExists
          else if HasPendingRemoval s (ff_FxId m) then Inl ErrRemovalInProgress
          else bindE (if \<not> D_BootstrapPhase D \<and> \<not> isAuthority
                      then requirePassedProposalFor D (ff_ProposalId m) (fx_FxId req)
                      else Inr ()) (\<lambda>_.
            Inr (DeleteFxRequest
              (SetInstitution s (new_institution (fx_FxId req) (fx_License req) (fx_Applicant req)
                 [] [] ''0'' INSTITUTION_TYPE_FX (block_time c)))
              (fx_FxId req))))"

end
