(* ===== verification/InstSweep.thy ===== *)
theory InstSweep
  imports InstMsgs
begin

text \<open>
  The institutions module's block hooks: the pruning of past-day counters
  (\<^verbatim>\<open>keeper/counter_prune.go\<close>), the draining of removed institutions
  (\<^verbatim>\<open>keeper/removal_sweep.go\<close>), both under a fixed per-block budget, the
  begin and end blockers (\<^verbatim>\<open>module.go\<close>), and the two guards that
  \<^verbatim>\<open>app/\<close> wraps around burns by governance and by slashing.
\<close>

section \<open>Counter pruning\<close>

definition CounterRetentionDays :: int where "CounterRetentionDays = 2"
definition CounterPruneBudget :: nat where "CounterPruneBudget = 256"
definition RemovalPruneBudget :: nat where "RemovalPruneBudget = 512"

definition pruneRedeemSubjectCounters :: "inst_state \<Rightarrow> int \<Rightarrow> inst_state" where
  "pruneRedeemSubjectCounters s staleBefore =
    s\<lparr>is_subjects := kv_delete_all (is_subjects s)
        (take CounterPruneBudget (map fst
          (kv_range (is_subjects s) RedeemSubjectPrefix (RedeemSubjectDayBound staleBefore))))\<rparr>"

definition stale_counter_key :: "int \<Rightarrow> bytes \<Rightarrow> bool" where
  "stale_counter_key staleBefore key = (case ParseCounterKeyDay key of
      None \<Rightarrow> False
    | Some (kind, day) \<Rightarrow> IsPrunableCounterKind kind \<and> day < staleBefore)"

text \<open>\<^verbatim>\<open>PrefixEndBytes\<close> of the counter prefix.\<close>

definition CounterPrefixEnd :: bytes where "CounterPrefixEnd = [CHR 0x41]"

definition pruneCounterPrefix :: "inst_state \<Rightarrow> int \<Rightarrow> inst_state" where
  "pruneCounterPrefix s staleBefore =
    (let start = (case is_cursor s of
                    Some cur \<Rightarrow> if cur \<noteq> [] then cur @ [CHR 0x00] else [CHR 0x40]
                  | None \<Rightarrow> [CHR 0x40]);
         entries = kv_range (is_counters s) start CounterPrefixEnd;
         examined = map fst (take CounterPruneBudget entries);
         exhausted = length entries \<le> CounterPruneBudget;
         counters = kv_delete_all (is_counters s) (filter (stale_counter_key staleBefore) examined)
     in s\<lparr>is_counters := counters,
          is_cursor := (if exhausted \<or> examined = [] then None else Some (last examined))\<rparr>)"

definition PruneStaleCounters :: "ctx \<Rightarrow> inst_state \<Rightarrow> inst_state" where
  "PruneStaleCounters c s =
    (let staleBefore = i64 (dayIndex c - CounterRetentionDays) in
     if staleBefore \<le> 0 then s
     else pruneCounterPrefix (pruneRedeemSubjectCounters s staleBefore) staleBefore)"

section \<open>Removal sweep\<close>

text \<open>One range of the drain: delete at most \<^verbatim>\<open>budget\<close> keys under the prefix.\<close>

definition drain_range :: "'v kv \<Rightarrow> bytes \<Rightarrow> nat \<Rightarrow> nat \<times> 'v kv" where
  "drain_range m pre budget =
    (let ks = take budget (map fst (kv_prefix m pre)) in (length ks, kv_delete_all m ks))"

definition drainInstitutionRanged :: "inst_state \<Rightarrow> string \<Rightarrow> nat \<Rightarrow> nat \<times> inst_state" where
  "drainInstitutionRanged s i budget =
    (case drain_range (is_roles s) (RolePrefixFor i) budget of (d1, roles) \<Rightarrow>
     case drain_range (is_approvals s) (ApprovalInstitutionPrefixFor i) (budget - d1) of (d2, approvals) \<Rightarrow>
     case drain_range (is_tiers s) (HolderKycTierPrefixFor i) (budget - d1 - d2) of (d3, tiers) \<Rightarrow>
       (d1 + d2 + d3, s\<lparr>is_roles := roles, is_approvals := approvals, is_tiers := tiers\<rparr>))"

definition institutionRangedEmpty :: "inst_state \<Rightarrow> string \<Rightarrow> bool" where
  "institutionRangedEmpty s i \<longleftrightarrow>
    kv_prefix (is_roles s) (RolePrefixFor i) = []
    \<and> kv_prefix (is_approvals s) (ApprovalInstitutionPrefixFor i) = []
    \<and> kv_prefix (is_tiers s) (HolderKycTierPrefixFor i) = []"

function sweep_loop :: "int \<Rightarrow> inst_state \<Rightarrow> inst_state" where
  "sweep_loop budget s =
    (if \<not> 0 < budget then s
     else case firstPendingRemoval s of
         None \<Rightarrow> s
       | Some i \<Rightarrow>
          (case drainInstitutionRanged s i (nat budget) of (deleted, s1) \<Rightarrow>
             if institutionRangedEmpty s1 i
             then sweep_loop (budget - int deleted - 1) (dequeueRemoval s1 i)
             else s1))"
  by pat_completeness auto
termination
  by (relation "measure (\<lambda>(budget, s). nat budget)") auto

declare sweep_loop.simps [simp del]

definition SweepRemovals :: "inst_state \<Rightarrow> inst_state" where
  "SweepRemovals s = sweep_loop (int RemovalPruneBudget) s"

section \<open>Block hooks\<close>

definition inst_BeginBlock :: "ctx \<Rightarrow> inst_state \<Rightarrow> inst_state" where
  "inst_BeginBlock c s = SweepRemovals (PruneStaleCounters c s)"

definition inst_EndBlock :: "bank \<Rightarrow> inst_state \<Rightarrow> unit res" where
  "inst_EndBlock b s =
    bindE (inst_AllInvariants b s) (\<lambda>broken.
      if broken then Inl (Panic ''solvency invariant broken'') else Inr ())"

section \<open>Guards around burns\<close>

text \<open>
  \<^verbatim>\<open>app/slash_compensator.go\<close>: the staking keeper's slash is the parameter; whatever supply
  it burned is minted back to the penalty destination.
\<close>

definition compensate ::
    "inst_deps \<Rightarrow> inst_state \<Rightarrow> (bank \<Rightarrow> (int \<times> bank) res) \<Rightarrow> bank \<Rightarrow> (int \<times> bank) res" where
  "compensate D s slash b =
    bindE (slash b) (\<lambda>(burned, b1).
      (let delta = total_supply b - total_supply b1 in
       if 0 < delta
       then bindE (RedirectSlashedToPenalty D s b1 delta) (\<lambda>b2. Inr (burned, b2))
       else Inr (burned, b1)))"

definition FeeCollectorName :: string where "FeeCollectorName = ''fee_collector''"
definition gov_ModuleName :: string where "gov_ModuleName = ''gov''"

text \<open>\<^verbatim>\<open>app/gov_burn_guard.go\<close>, on amounts of the chain's only denomination.\<close>

definition govBurnGuard_BurnCoins ::
    "inst_deps \<Rightarrow> inst_state \<Rightarrow> bank \<Rightarrow> string \<Rightarrow> int \<Rightarrow> bank res" where
  "govBurnGuard_BurnCoins D s b name uphi =
    (if name = gov_ModuleName \<and> 0 < uphi
     then bindE (SumVaultBalance s) (\<lambda>v.
       if 0 < v then SendCoinsFromModuleToModule (D_env D) b gov_ModuleName FeeCollectorName uphi
       else BurnCoins (D_env D) b name uphi)
     else BurnCoins (D_env D) b name uphi)"

end
