(* ===== verification/InstInv.thy ===== *)
theory InstInv
  imports InstSweep
begin

text \<open>
  The invariant of the institutions store and the step relation of the ledger: every message
  handler, block hook and guarded burn that can touch the bank, the coin module or the
  institutions store is one kind of step.
\<close>

section \<open>The store invariant\<close>

definition rate_ok :: "inst_Params \<Rightarrow> bool" where
  "rate_ok p \<longleftrightarrow> 0 < uint (mp_PhiToToman p) \<and> UphiPerPhi mod uint (mp_PhiToToman p) = 0"

definition vault_ok :: "Institution \<Rightarrow> bool" where
  "vault_ok inst = (case NewIntFromString (in_VaultBalance inst) of Some n \<Rightarrow> 0 \<le> n | None \<Rightarrow> False)"

definition inst_inv :: "inst_state \<Rightarrow> bool" where
  "inst_inv s \<longleftrightarrow> kv_sorted (is_institutions s)
    \<and> list_all (\<lambda>(k, inst). k = InstitutionKey (in_Id inst) \<and> vault_ok inst) (is_institutions s)
    \<and> list_all (\<lambda>(k, req). k = FxRequestKey (fx_FxId req)) (is_fx s)
    \<and> rate_ok (inst_GetParams s)"

definition vault_total :: "inst_state \<Rightarrow> int" where
  "vault_total s = (\<Sum>(k, inst) \<leftarrow> is_institutions s. mustInt (in_VaultBalance inst))"

definition solvent :: "bank \<Rightarrow> inst_state \<Rightarrow> bool" where
  "solvent b s \<longleftrightarrow>
    total_supply b * uint (mp_PhiToToman (inst_GetParams s)) = vault_total s * UphiPerPhi"

definition world_inv :: "world \<Rightarrow> bool" where
  "world_inv w \<longleftrightarrow> bank_inv (w_bank w) \<and> inst_inv (w_inst w) \<and> solvent (w_bank w) (w_inst w)"

section \<open>Facts on the invariant\<close>

lemma InstitutionKey_eq_iff [simp, key_simps]: "InstitutionKey i = InstitutionKey j \<longleftrightarrow> i = j"
  by (simp add: InstitutionKey_def)

lemma vault_ok_iff:
  "vault_ok inst \<longleftrightarrow> NewIntFromString (in_VaultBalance inst) = Some (mustInt (in_VaultBalance inst))
     \<and> 0 \<le> mustInt (in_VaultBalance inst)"
  by (simp add: vault_ok_def mustInt_def split: option.splits)

lemma SumVault_fold:
  "list_all (\<lambda>(k, inst). vault_ok inst) m \<Longrightarrow>
    foldE (\<lambda>e sum. bindE (mustIntStrict (in_VaultBalance (snd e))) (\<lambda>v. Inr (sum + v))) m a
      = Inr (a + (\<Sum>(k, inst) \<leftarrow> m. mustInt (in_VaultBalance inst)))"
  by (induction m arbitrary: a) (auto simp: vault_ok_iff mustIntStrict_def)

lemma inst_inv_vaults: "inst_inv s \<Longrightarrow> list_all (\<lambda>(k, inst). vault_ok inst) (is_institutions s)"
  by (auto simp: inst_inv_def list_all_iff)

lemma SumVaultBalance_total: "inst_inv s \<Longrightarrow> SumVaultBalance s = Inr (vault_total s)"
  using SumVault_fold [OF inst_inv_vaults, of s 0] by (simp add: SumVaultBalance_def vault_total_def)

lemma vault_total_nonneg: "inst_inv s \<Longrightarrow> 0 \<le> vault_total s"
  using inst_inv_vaults [of s] unfolding vault_total_def
  by (intro sum_list_nonneg) (auto simp: list_all_iff vault_ok_iff)

lemma inst_inv_get:
  assumes "inst_inv s" "GetInstitution s i = Some inst"
  shows "in_Id inst = i \<and> vault_ok inst"
  using assms kv_get_mem [of "is_institutions s" "InstitutionKey i" inst]
  by (auto simp: inst_inv_def GetInstitution_def list_all_iff)

lemma inst_inv_rate: "inst_inv s \<Longrightarrow> rate_ok (inst_GetParams s)"
  by (simp add: inst_inv_def)

lemma assertSolvency_iff:
  assumes "inst_inv s"
  shows "assertSolvency b s = (if solvent b s then Inr () else Inl ErrSolvencyBroken)"
  by (simp add: assertSolvency_def SolvencyInvariant_def SumVaultBalance_total [OF assms] solvent_def)

lemma inst_inv_SetInstitution:
  assumes "inst_inv s" "vault_ok inst"
  shows "inst_inv (SetInstitution s inst)"
  using assms set_kv_set_subset [of "is_institutions s" "InstitutionKey (in_Id inst)" inst]
  by (fastforce simp: inst_inv_def SetInstitution_def list_all_iff inst_GetParams_def)

lemma vault_total_SetInstitution:
  assumes "inst_inv s"
  shows "vault_total (SetInstitution s inst) = vault_total s
    - (case GetInstitution s (in_Id inst) of None \<Rightarrow> 0 | Some old \<Rightarrow> mustInt (in_VaultBalance old))
    + mustInt (in_VaultBalance inst)"
  using kv.entries_sum_put [of "is_institutions s" "\<lambda>_ i. mustInt (in_VaultBalance i)"
      "InstitutionKey (in_Id inst)" inst] assms
  by (simp add: vault_total_def SetInstitution_def GetInstitution_def inst_inv_def)

text \<open>Replacing a stored institution by one with the same id and vault changes neither sum.\<close>

lemma SetInstitution_same_vault:
  assumes "inst_inv s" "GetInstitution s i = Some old"
    "in_Id inst = in_Id old" "in_VaultBalance inst = in_VaultBalance old"
  shows "inst_inv (SetInstitution s inst) \<and> vault_total (SetInstitution s inst) = vault_total s"
  using assms inst_inv_get [OF assms(1,2)] inst_inv_SetInstitution [OF assms(1), of inst]
  by (simp add: vault_total_SetInstitution vault_ok_def)

section \<open>What leaves the institutions, the requests and the parameters alone\<close>

definition same_core :: "inst_state \<Rightarrow> inst_state \<Rightarrow> bool" where
  "same_core s s' \<longleftrightarrow> is_institutions s' = is_institutions s \<and> is_params s' = is_params s
    \<and> is_fx s' = is_fx s"

named_theorems core_intros "operations that leave the institutions and parameters alone"

lemma same_core_refl [core_intros]: "same_core s s"
  by (simp add: same_core_def)

lemma same_core_trans: "same_core s t \<Longrightarrow> same_core t u \<Longrightarrow> same_core s u"
  by (simp add: same_core_def)

lemma same_core_inv: "same_core s s' \<Longrightarrow> inst_inv s' \<longleftrightarrow> inst_inv s"
  by (simp add: same_core_def inst_inv_def inst_GetParams_def)

lemma same_core_solvent: "same_core s s' \<Longrightarrow> solvent b s' \<longleftrightarrow> solvent b s"
  by (simp add: same_core_def solvent_def vault_total_def inst_GetParams_def)

lemma same_core_get: "same_core s s' \<Longrightarrow> GetInstitution s' i = GetInstitution s i"
  by (simp add: same_core_def GetInstitution_def)

lemma same_core_params: "same_core s s' \<Longrightarrow> inst_GetParams s' = inst_GetParams s"
  by (simp add: same_core_def inst_GetParams_def)

lemma same_core_writes [core_intros]:
  "same_core s (s\<lparr>is_roles := x1\<rparr>)" "same_core s (s\<lparr>is_approvals := x2\<rparr>)"
  "same_core s (s\<lparr>is_counters := x3\<rparr>)" "same_core s (s\<lparr>is_deposits := x4\<rparr>)"
  "same_core s (s\<lparr>is_epochs := x6\<rparr>)"
  "same_core s (s\<lparr>is_subjects := x7\<rparr>)" "same_core s (s\<lparr>is_tiers := x8\<rparr>)"
  "same_core s (s\<lparr>is_attestors := x9\<rparr>)" "same_core s (s\<lparr>is_removals := x10\<rparr>)"
  by (simp_all add: same_core_def)

lemma same_core_ops [core_intros]:
  "same_core s (clearApprovals s i ch)"
  "same_core s (bumpAdminEpoch s i)"
  "same_core s (SetRole E s i a r)"
  "same_core s (DeleteRole s i a)"
  "same_core s (SetLastAttestor s i a)"
  "same_core s (markDeposit s i d ref)"
  "same_core s (enqueueRemoval s i)"
  "same_core s (dequeueRemoval s i)"
  "same_core s (addCounterTotal s i kind day n)"
  "same_core s (addCounterUser s i kind day a n)"
  "same_core s (addRedeemSubjectTotal s day k subj n)"
  "same_core s (addMintCounters c s inst a n)"
  "same_core s (addRedeemCounters D c s inst a n u)"
  by (simp_all add: same_core_def clearApprovals_def bumpAdminEpoch_def SetRole_def DeleteRole_def
      SetLastAttestor_def markDeposit_def enqueueRemoval_def
      dequeueRemoval_def addCounterTotal_def addCounterUser_def addRedeemSubjectTotal_def
      addMintCounters_def addRedeemCounters_def Let_def split: prod.splits option.splits)

lemma trySensitive_ok [ok_simps]:
  "trySensitive D s inst signer ch = Inr (r, s1) \<longleftrightarrow>
    (\<exists>a. requireRole (D_env D) s inst signer [INSTITUTION_ROLE_ADMIN] = Inr ()
      \<and> AccAddressFromBech32 (D_env D) signer = Some a
      \<and> s1 = snd (recordApproval (D_env D) s inst ch a)
      \<and> r = \<lparr>sr_executed = effectiveThreshold (D_env D) s1 inst \<le> countApprovals (D_env D) s1 inst ch,
             sr_approvals = countApprovals (D_env D) s1 inst ch,
             sr_threshold = effectiveThreshold (D_env D) s1 inst\<rparr>)"
  by (auto simp: trySensitive_def recordApproval_def Let_def bindE_Inr_iff split: option.splits)

lemma trySensitive_core: "trySensitive D s inst signer ch = Inr (r, s1) \<Longrightarrow> same_core s s1"
  by (auto simp: trySensitive_ok recordApproval_def Let_def same_core_def)

lemma prune_core: "same_core s (PruneStaleCounters c s)"
  by (simp add: PruneStaleCounters_def pruneCounterPrefix_def pruneRedeemSubjectCounters_def
      same_core_def Let_def)

lemma drain_core: "drainInstitutionRanged s i n = (d, s1) \<Longrightarrow> same_core s s1"
  by (auto simp: drainInstitutionRanged_def same_core_def split: prod.splits)

lemma sweep_loop_core: "same_core s (sweep_loop n s)"
proof (induction n s rule: sweep_loop.induct)
  case (1 budget s)
  show ?case
  proof (cases "0 < budget \<and> firstPendingRemoval s \<noteq> None")
    case False
    then show ?thesis by (auto simp: sweep_loop.simps [of budget s] same_core_refl)
  next
    case True
    then obtain i where i: "firstPendingRemoval s = Some i" by auto
    obtain d s1 where d: "drainInstitutionRanged s i (nat budget) = (d, s1)" by force
    have "same_core s1 (sweep_loop (budget - int d - 1) (dequeueRemoval s1 i))"
      if "institutionRangedEmpty s1 i"
      using same_core_trans [OF same_core_ops(8) 1] True i d that by simp
    with drain_core [OF d] True i d show ?thesis
      by (auto simp: sweep_loop.simps [of budget s] intro: same_core_trans)
  qed
qed

lemma begin_block_core: "same_core s (inst_BeginBlock c s)"
  unfolding inst_BeginBlock_def SweepRemovals_def
  using same_core_trans [OF prune_core sweep_loop_core] by blast

lemma inst_inv_fx:
  assumes "inst_inv s" "GetFxRequest s i = Some req"
  shows "fx_FxId req = i"
proof -
  have "(FxRequestKey i, req) \<in> set (is_fx s)" using assms(2) by (simp add: GetFxRequest_def kv_get_in)
  with assms(1) show ?thesis by (auto simp: inst_inv_def list_all_iff FxRequestKey_def)
qed

lemma inst_inv_fx_writes:
  assumes "inst_inv s"
  shows "inst_inv (SetFxRequest s req)" "inst_inv (DeleteFxRequest s i)"
  using assms set_kv_set_subset [of "is_fx s" "FxRequestKey (fx_FxId req)" req]
  by (fastforce simp: inst_inv_def SetFxRequest_def DeleteFxRequest_def list_all_iff inst_GetParams_def
      kv_delete_def)+

section \<open>Conversion\<close>

lemma rate_factor:
  assumes "rate_ok p"
  shows "UphiPerToman (mp_PhiToToman p) * uint (mp_PhiToToman p) = UphiPerPhi"
    and "0 < UphiPerToman (mp_PhiToToman p)"
proof -
  let ?r = "uint (mp_PhiToToman p)"
  have r: "0 < ?r" "?r dvd UphiPerPhi" using assms by (auto simp: rate_ok_def dvd_eq_mod_eq_0)
  show e: "UphiPerToman (mp_PhiToToman p) * ?r = UphiPerPhi"
    using r by (simp add: UphiPerToman_def sdiv_nonneg UphiPerPhi_def)
  have "0 < UphiPerToman (mp_PhiToToman p) * ?r" by (simp add: e UphiPerPhi_def)
  with r(1) show "0 < UphiPerToman (mp_PhiToToman p)" by (simp add: zero_less_mult_iff)
qed

lemma MintedUphi_exact:
  assumes "rate_ok p" "0 \<le> toman"
  shows "MintedUphiForToman toman (mp_PhiToToman p) = (toman * UphiPerToman (mp_PhiToToman p), True)"
proof -
  let ?r = "uint (mp_PhiToToman p)" and ?k = "UphiPerToman (mp_PhiToToman p)"
  have "0 < ?r" using assms(1) by (simp add: rate_ok_def)
  moreover have e: "toman * UphiPerPhi = (toman * ?k) * ?r"
    using rate_factor(1) [OF assms(1)] by simp
  ultimately show ?thesis
    unfolding MintedUphiForToman_def Let_def e
    using assms(2) rate_factor(2) [OF assms(1)] by (simp add: sdiv_nonneg)
qed

lemma uphi_of_toman:
  assumes "rate_ok p"
  shows "(toman * UphiPerToman (mp_PhiToToman p)) * uint (mp_PhiToToman p) = toman * UphiPerPhi"
  using rate_factor(1) [OF assms] by simp

section \<open>Effects of the handlers\<close>

lemma mint_checks_ok:
  assumes "mint_checks D c s m = Inr (inst, toman, uphi, newVault, recipient)"
  shows "GetInstitution s (mm_Institution m) = Some inst"
    and "requireRole (D_env D) s inst (mm_Admin m) [INSTITUTION_ROLE_OPERATOR, INSTITUTION_ROLE_ADMIN] = Inr ()"
    and "mm_DepositRef m \<noteq> []" "\<not> depositSeen s (in_Id inst) ''mint'' (mm_DepositRef m)"
    and "in_Status inst \<noteq> INSTITUTION_STATUS_FROZEN" "\<not> in_PausedMint inst"
    and "\<not> IsStaleAt inst (block_time c) (mp_MaxAttestationStalenessSeconds (inst_GetParams s))"
    and "requireMintSeparation (D_env D) s inst (mm_Admin m) = Inr ()"
    and "NewIntFromString (mm_AmountToman m) = Some toman" "0 < toman"
    and "MintedUphiForToman toman (mp_PhiToToman (inst_GetParams s)) = (uphi, True)" "0 < uphi"
    and "newVault = mustInt (in_VaultBalance inst) + toman"
    and "newVault \<le> mustInt (in_AttestedReserve inst)"
    and "AccAddressFromBech32 (D_env D) (mm_Recipient m) = Some recipient"
    and "enforceMintCaps c s inst recipient toman (mm_KycTier m) = Inr ()"
  using assms
  by (auto simp: mint_checks_def Let_def bindE_Inr_iff split: option.splits if_splits prod.splits)

lemma redeem_checks_ok:
  assumes "redeem_checks D c s m = Inr (inst, toman, uphi, holder)"
  shows "GetInstitution s (md_Institution m) = Some inst" "md_Admin m = md_Holder m"
    and "md_RedeemRef m \<noteq> []" "\<not> depositSeen s (in_Id inst) ''redeem'' (md_RedeemRef m)"
    and "NewIntFromString (md_AmountToman m) = Some toman" "0 < toman"
    and "toman \<le> mustInt (in_VaultBalance inst)"
    and "MintedUphiForToman toman (mp_PhiToToman (inst_GetParams s)) = (uphi, True)" "0 < uphi"
    and "AccAddressFromBech32 (D_env D) (md_Holder m) = Some holder"
    and "enforceRedeemCaps D c s inst holder toman uphi = Inr ()"
  using assms
  by (auto simp: redeem_checks_def Let_def bindE_Inr_iff split: option.splits if_splits prod.splits)

lemma mustInt_fits: "fits (mustInt s)"
  by (auto simp: mustInt_def fits_def split: option.splits dest!: NewIntFromString_fits)

lemma mustInt_Int_String: "fits n \<Longrightarrow> mustInt (Int_String n) = n"
  by (simp add: mustInt_def)

lemma mint_issue_bank:
  assumes "mint_issue D b recipient uphi fee = Inr b'"
  shows "total_supply b' = total_supply b + uphi" "bank_inv b \<Longrightarrow> bank_inv b'"
proof -
  from assms obtain b1 b2 where
      m: "MintCoins (D_env D) b inst_ModuleName uphi = Inr b1"
      and a: "SendCoinsFromModuleToAccount (D_env D) b1 inst_ModuleName recipient (uphi - fee) = Inr b2"
      and r: "b' = b2 \<or> SendCoinsFromModuleToModule (D_env D) b2 inst_ModuleName RevenueAccountName fee = Inr b'"
    by (auto simp: mint_issue_def Let_def bindE_Inr_iff split: if_splits)
  show "total_supply b' = total_supply b + uphi"
    using ledger.mint_supply [OF m] module_sends_supply(1) [OF a] r module_sends_supply(2) by fastforce
  show "bank_inv b'" if "bank_inv b"
    using ledger.mint_inv [OF that m] module_sends_inv(1) [OF a] r module_sends_inv(2) by blast
qed

lemma redeem_settle_bank:
  assumes "redeem_settle D b holder split = Inr b'"
  shows "total_supply b' = total_supply b - rs_Burned split" "bank_inv b \<Longrightarrow> bank_inv b'"
proof -
  from assms obtain b1 b2 where
      a: "SendCoinsFromAccountToModule (D_env D) b holder inst_ModuleName (rs_UphiIn split) = Inr b1"
      and r: "b2 = b1 \<or> SendCoinsFromModuleToModule (D_env D) b1 inst_ModuleName RevenueAccountName
                (rs_Carved split) = Inr b2"
      and u: "BurnCoins (D_env D) b2 inst_ModuleName (rs_Burned split) = Inr b'"
    by (auto simp: redeem_settle_def Let_def bindE_Inr_iff split: if_splits)
  show "total_supply b' = total_supply b - rs_Burned split"
    using module_sends_supply(3) [OF a] r module_sends_supply(2) ledger.burn_supply [OF u] by fastforce
  show "bank_inv b'" if "bank_inv b"
    using module_sends_inv(3) [OF a that] r module_sends_inv(2) ledger.burn_inv [OF _ u] by blast
qed

section \<open>The redemption split\<close>

lemma redeem_split_facts:
  assumes "0 < UphiPerToman r" "0 \<le> uphiIn" "0 \<le> fee" "0 \<le> penalty"
  defines "sp \<equiv> ComputeRedeemSplit uphiIn fee penalty r"
  shows "rs_Burned sp + rs_ProtocolFee sp + rs_Penalty sp + rs_Dust sp = uphiIn"
    and "rs_Carved sp = rs_ProtocolFee sp + rs_Penalty sp + rs_Dust sp"
    and "0 \<le> rs_ProtocolFee sp" "rs_ProtocolFee sp \<le> fee"
    and "0 \<le> rs_Penalty sp" "rs_Penalty sp \<le> penalty"
    and "0 \<le> rs_Dust sp" "rs_Dust sp < UphiPerToman r"
    and "0 \<le> rs_Burned sp" "rs_Burned sp mod UphiPerToman r = 0"
    and "UphiPerToman r \<le> uphiIn \<Longrightarrow> 0 < rs_Burned sp"
    and "rs_TomanOut sp * UphiPerToman r = rs_Burned sp"
    and "rs_UphiIn sp = uphiIn"
proof -
  define k where "k = UphiPerToman r"
  define carve where "carve = (if uphiIn < fee + penalty then uphiIn else fee + penalty)"
  define f where "f = (if uphiIn < fee + penalty \<and> uphiIn < fee then uphiIn else fee)"
  define pn where "pn = (if uphiIn < fee + penalty then carve - f else penalty)"
  define bn where "bn = uphiIn - carve"
  define b1 where "b1 = bn - bn mod k"
  define z where "z \<longleftrightarrow> \<not> 0 < b1 \<and> k \<le> uphiIn"
  define fp where "fp = min (k - bn) pn"
  have k: "0 < k" using assms(1) by (simp add: k_def)
  have carve: "0 \<le> f" "0 \<le> pn" "f \<le> fee" "pn \<le> penalty" "f + pn = carve" "0 \<le> bn" "carve \<le> uphiIn"
    using assms(2-4) by (auto simp: f_def pn_def carve_def bn_def)
  have m: "0 \<le> bn mod k" "bn mod k < k" "b1 mod k = 0" "0 \<le> b1"
    using k carve(6) by (auto simp: b1_def mod_diff_right_eq zmod_le_nonneg_dividend)
  have zb: "bn < k" if z
    using that m(2) unfolding z_def b1_def by linarith
  have sp: "sp = \<lparr>rs_UphiIn = uphiIn, rs_Burned = (if z then k else b1),
      rs_ProtocolFee = (if z then f - min (k - bn - fp) f else f),
      rs_Penalty = (if z then pn - fp else pn),
      rs_Dust = uphiIn - (if z then k else b1) - (if z then f - min (k - bn - fp) f else f)
                - (if z then pn - fp else pn),
      rs_Carved = uphiIn - (if z then k else b1),
      rs_TomanOut = (if z then k else b1) sdiv k\<rparr>"
    unfolding sp_def ComputeRedeemSplit_def Let_def z_def b1_def bn_def fp_def pn_def f_def carve_def k_def
    by simp
  have zsum: "fp + min (k - bn - fp) f = k - bn" if z
    using zb [OF that] that carve by (auto simp: fp_def min_def z_def bn_def)
  show "rs_Burned sp + rs_ProtocolFee sp + rs_Penalty sp + rs_Dust sp = uphiIn"
    "rs_Carved sp = rs_ProtocolFee sp + rs_Penalty sp + rs_Dust sp" "rs_UphiIn sp = uphiIn"
    by (simp_all add: sp)
  show "0 \<le> rs_ProtocolFee sp" "rs_ProtocolFee sp \<le> fee" "0 \<le> rs_Penalty sp" "rs_Penalty sp \<le> penalty"
    using carve zb by (auto simp: sp fp_def min_def)
  have d: "rs_Dust sp = (if z then 0 else bn mod k)"
    using zsum carve by (auto simp: sp b1_def bn_def)
  show "0 \<le> rs_Dust sp" "rs_Dust sp < UphiPerToman r"
    using d m k by (auto simp: k_def)
  show "0 \<le> rs_Burned sp" "rs_Burned sp mod UphiPerToman r = 0"
    using m k by (auto simp: sp k_def)
  show "UphiPerToman r \<le> uphiIn \<Longrightarrow> 0 < rs_Burned sp"
    using k by (auto simp: sp z_def k_def [symmetric])
  show "rs_TomanOut sp * UphiPerToman r = rs_Burned sp"
    using m k by (auto simp: sp k_def [symmetric] sdiv_nonneg dvd_eq_mod_eq_0 [symmetric])
qed

lemma redeem_split_toman_le:
  assumes "0 < UphiPerToman r" "0 \<le> fee" "0 \<le> penalty" "0 \<le> toman"
  shows "rs_TomanOut (ComputeRedeemSplit (toman * UphiPerToman r) fee penalty r) \<le> toman"
    and "0 \<le> rs_TomanOut (ComputeRedeemSplit (toman * UphiPerToman r) fee penalty r)"
proof -
  let ?sp = "ComputeRedeemSplit (toman * UphiPerToman r) fee penalty r"
  have u: "0 \<le> toman * UphiPerToman r" using assms by simp
  note sp = redeem_split_facts [OF assms(1) u assms(2,3)]
  have "rs_Burned ?sp \<le> toman * UphiPerToman r" using sp(1,3,5,7) by linarith
  with sp(12) have "rs_TomanOut ?sp * UphiPerToman r \<le> toman * UphiPerToman r" by simp
  with assms(1) show "rs_TomanOut ?sp \<le> toman" by simp
  have "0 \<le> rs_TomanOut ?sp * UphiPerToman r" using sp(9,12) by simp
  with assms(1) show "0 \<le> rs_TomanOut ?sp" by (simp add: zero_le_mult_iff)
qed

lemma ProtocolFee_nonneg: "0 \<le> uphi \<Longrightarrow> 0 \<le> ProtocolFee p uphi"
  by (simp add: ProtocolFee_def sdiv_nonneg BpsDenominator_def pos_imp_zdiv_nonneg_iff)

end
