(* ===== verification/InstSteps.thy ===== *)
theory InstSteps
  imports InstInv
begin

text \<open>
  The effect of each handler on the ledger invariant, the step relation of the ledger and the
  reachability of its states.
\<close>

section \<open>Issuing and redeeming\<close>

lemma gate_core:
  assumes "large_mint_gate D s inst m toman = Inr (go, s1)"
  shows "same_core s s1 \<and> is_deposits s1 = is_deposits s"
  using assms same_core_trans [OF _ same_core_ops(1)]
  by (auto simp: large_mint_gate_def Let_def bindE_Inr_iff recordApproval_def clearApprovals_def
      trySensitive_ok same_core_def split: if_splits)

text \<open>The state an executed mint leaves in the institutions store.\<close>

definition minted_state :: "ctx \<Rightarrow> inst_state \<Rightarrow> Institution \<Rightarrow> MsgInstitutionMint \<Rightarrow> int \<Rightarrow> bytes \<Rightarrow> inst_state" where
  "minted_state c s inst m toman recipient =
    markDeposit (addMintCounters c
        (SetInstitution s (inst\<lparr>in_VaultBalance := Int_String (mustInt (in_VaultBalance inst) + toman)\<rparr>))
        inst recipient toman)
      (in_Id inst) ''mint'' (mm_DepositRef m)"

lemma set_vault:
  assumes "inst_inv s" "GetInstitution s i = Some inst" "fits v" "0 \<le> v"
  defines "s' \<equiv> SetInstitution s (inst\<lparr>in_VaultBalance := Int_String v\<rparr>)"
  shows "inst_inv s'" "vault_total s' = vault_total s - mustInt (in_VaultBalance inst) + v"
    "inst_GetParams s' = inst_GetParams s"
proof -
  have v: "vault_ok (inst\<lparr>in_VaultBalance := Int_String v\<rparr>)"
    using assms(3,4) by (simp add: vault_ok_def)
  show "inst_inv s'" unfolding s'_def by (rule inst_inv_SetInstitution [OF assms(1) v])
  have "in_Id inst = i" using inst_inv_get [OF assms(1,2)] by blast
  then show "vault_total s' = vault_total s - mustInt (in_VaultBalance inst) + v"
    using assms(2,3) by (simp add: s'_def vault_total_SetInstitution [OF assms(1)] mustInt_Int_String)
  show "inst_GetParams s' = inst_GetParams s"
    by (simp add: s'_def inst_GetParams_def SetInstitution_def)
qed

lemma minted_state_facts:
  assumes inv: "inst_inv s0" and core: "same_core s0 s"
    and chk: "mint_checks D c s0 m = Inr (inst, toman, uphi, newVault, recipient)"
  defines "s' \<equiv> minted_state c s inst m toman recipient"
  shows "inst_inv s'" "vault_total s' = vault_total s0 + toman"
    "inst_GetParams s' = inst_GetParams s0" "depositSeen s' (mm_Institution m) ''mint'' (mm_DepositRef m)"
proof -
  note ok = mint_checks_ok [OF chk]
  have i: "in_Id inst = mm_Institution m" "vault_ok inst"
    using inst_inv_get [OF inv ok(1)] by auto
  have s: "inst_inv s" "GetInstitution s (mm_Institution m) = Some inst"
    using inv ok(1) by (simp_all add: same_core_inv [OF core] same_core_get [OF core])
  have v: "fits newVault" "0 \<le> newVault"
    using i(2) ok(10,13,14) mustInt_fits [of "in_AttestedReserve inst"]
    by (auto simp: vault_ok_iff intro: fits_mono)
  let ?s1 = "SetInstitution s (inst\<lparr>in_VaultBalance := Int_String newVault\<rparr>)"
  have c1: "same_core ?s1 s'"
    unfolding s'_def minted_state_def ok(13) [symmetric]
    by (blast intro: same_core_trans core_intros)
  note sv = set_vault [OF s v]
  show "inst_inv s'" using same_core_inv [OF c1] sv(1) by blast
  have "vault_total s' = vault_total ?s1" "vault_total s = vault_total s0"
    using c1 core by (simp_all add: vault_total_def same_core_def)
  then show "vault_total s' = vault_total s0 + toman" using sv(2) ok(13) by simp
  show "inst_GetParams s' = inst_GetParams s0"
    using same_core_params [OF c1] sv(3) same_core_params [OF core] by simp
  show "depositSeen s' (mm_Institution m) ''mint'' (mm_DepositRef m)"
    by (simp add: s'_def minted_state_def depositSeen_def markDeposit_def i(1))
qed

lemma InstitutionMint_run:
  assumes inv: "world_inv w"
    and chk: "mint_checks D c (w_inst w) m = Inr (inst, toman, uphi, newVault, recipient)"
    and gate: "large_mint_gate D (w_inst w) inst m toman = Inr (True, s)"
    and issue: "mint_issue D (w_bank w) recipient uphi (ProtocolFee (inst_GetParams s) uphi) = Inr b"
  shows "InstitutionMint D c w m = Inr (Int_String uphi,
      \<lparr>w_bank = b,
       w_coin = AddCoins (w_coin w) (mm_Recipient m) (uphi - ProtocolFee (inst_GetParams s) uphi) (block_time c),
       w_inst = minted_state c s inst m toman recipient\<rparr>)"
    and "bank_inv b" "solvent b (minted_state c s inst m toman recipient)"
    and "total_supply b = total_supply (w_bank w) + uphi"
proof -
  note ok = mint_checks_ok [OF chk]
  from inv have i: "inst_inv (w_inst w)" "bank_inv (w_bank w)" "solvent (w_bank w) (w_inst w)"
    by (simp_all add: world_inv_def)
  have core: "same_core (w_inst w) s" using gate_core [OF gate] by blast
  note f = minted_state_facts [OF i(1) core chk]
  note bk = mint_issue_bank [OF issue]
  have r: "rate_ok (inst_GetParams (w_inst w))" by (rule inst_inv_rate [OF i(1)])
  have u: "uphi * uint (mp_PhiToToman (inst_GetParams (w_inst w))) = toman * UphiPerPhi"
    using MintedUphi_exact [OF r, of toman] uphi_of_toman [OF r, of toman] ok(10,11) by simp
  show sol: "solvent b (minted_state c s inst m toman recipient)"
    using i(3) bk(1) f(2,3) u by (simp add: solvent_def algebra_simps)
  show "InstitutionMint D c w m = Inr (Int_String uphi,
      \<lparr>w_bank = b,
       w_coin = AddCoins (w_coin w) (mm_Recipient m) (uphi - ProtocolFee (inst_GetParams s) uphi) (block_time c),
       w_inst = minted_state c s inst m toman recipient\<rparr>)"
    using sol f(1) ok(13)
    by (simp add: InstitutionMint_def chk gate minted_state_def issue Let_def assertSolvency_iff)
  show "bank_inv b" by (rule bk(2) [OF i(2)])
  show "total_supply b = total_supply (w_bank w) + uphi" by (rule bk(1))
qed

lemma InstitutionMint_cases:
  assumes "InstitutionMint D c w m = Inr (out, w')"
  obtains (pending) inst toman uphi newVault recipient s where
      "mint_checks D c (w_inst w) m = Inr (inst, toman, uphi, newVault, recipient)"
      "large_mint_gate D (w_inst w) inst m toman = Inr (False, s)"
      "out = ''0''" "w' = w\<lparr>w_inst := s\<rparr>"
    | (executed) inst toman uphi newVault recipient s b where
      "mint_checks D c (w_inst w) m = Inr (inst, toman, uphi, newVault, recipient)"
      "large_mint_gate D (w_inst w) inst m toman = Inr (True, s)"
      "mint_issue D (w_bank w) recipient uphi (ProtocolFee (inst_GetParams s) uphi) = Inr b"
proof -
  from assms obtain inst toman uphi newVault recipient go s where
      c: "mint_checks D c (w_inst w) m = Inr (inst, toman, uphi, newVault, recipient)"
      and g: "large_mint_gate D (w_inst w) inst m toman = Inr (go, s)"
    by (auto simp: InstitutionMint_def bindE_Inr_iff split: prod.splits)
  show thesis
  proof (cases go)
    case True
    with assms c g obtain b where
      "mint_issue D (w_bank w) recipient uphi (ProtocolFee (inst_GetParams s) uphi) = Inr b"
      by (auto simp: InstitutionMint_def Let_def bindE_Inr_iff)
    with True c g show ?thesis by (auto intro: executed)
  next
    case False
    with assms c g show ?thesis by (auto simp: InstitutionMint_def intro: pending)
  qed
qed

lemma InstitutionMint_inv:
  assumes "InstitutionMint D c w m = Inr (out, w')" "world_inv w"
  shows "world_inv w'"
  using assms(1)
proof (cases rule: InstitutionMint_cases)
  case (pending inst toman uphi newVault recipient s)
  have core: "same_core (w_inst w) s" using gate_core [OF pending(2)] by blast
  from assms(2) pending(4) show ?thesis
    by (simp add: world_inv_def same_core_inv [OF core] same_core_solvent [OF core])
next
  case (executed inst toman uphi newVault recipient s b)
  note run = InstitutionMint_run [OF assms(2) executed]
  have "inst_inv (w_inst w)" using assms(2) by (simp add: world_inv_def)
  from minted_state_facts(1) [OF this _ executed(1)] gate_core [OF executed(2)]
  have "inst_inv (minted_state c s inst m toman recipient)" by blast
  with run assms(1) show ?thesis by (simp add: world_inv_def)
qed

text \<open>The split and the state of a redemption.\<close>

definition redeem_split :: "ctx \<Rightarrow> world \<Rightarrow> MsgInstitutionRedeem \<Rightarrow> int \<Rightarrow> RedeemSplit" where
  "redeem_split c w m uphi =
    (let p = inst_GetParams (w_inst w); pen = fst (EarlyRedeemPenalty c (w_coin w) (md_Holder m) uphi) in
     ComputeRedeemSplit uphi (ProtocolFee p uphi) (if pen < 0 then 0 else pen) (mp_PhiToToman p))"

definition redeemed_state ::
    "inst_deps \<Rightarrow> ctx \<Rightarrow> inst_state \<Rightarrow> Institution \<Rightarrow> MsgInstitutionRedeem \<Rightarrow> int \<Rightarrow> int \<Rightarrow> bytes
      \<Rightarrow> RedeemSplit \<Rightarrow> inst_state" where
  "redeemed_state D c s inst m toman uphi holder split =
    markDeposit (addRedeemCounters D c
        (SetInstitution s (inst\<lparr>in_VaultBalance :=
           Int_String (mustInt (in_VaultBalance inst) - rs_TomanOut split)\<rparr>))
        inst holder toman uphi)
      (in_Id inst) ''redeem'' (md_RedeemRef m)"

lemma redeem_uphi:
  assumes "inst_inv s" "redeem_checks D c s m = Inr (inst, toman, uphi, holder)"
  shows "uphi = toman * UphiPerToman (mp_PhiToToman (inst_GetParams s))"
    "UphiPerToman (mp_PhiToToman (inst_GetParams s)) \<le> uphi"
proof -
  note ok = redeem_checks_ok [OF assms(2)]
  note r = inst_inv_rate [OF assms(1)]
  show e: "uphi = toman * UphiPerToman (mp_PhiToToman (inst_GetParams s))"
    using MintedUphi_exact [OF r, of toman] ok(6,8) by simp
  show "UphiPerToman (mp_PhiToToman (inst_GetParams s)) \<le> uphi"
    using rate_factor(2) [OF r] ok(6) by (simp add: e)
qed

lemma redeem_split_ok:
  assumes inv: "inst_inv (w_inst w)"
    and chk: "redeem_checks D c (w_inst w) m = Inr (inst, toman, uphi, holder)"
  defines "sp \<equiv> redeem_split c w m uphi" and "k \<equiv> UphiPerToman (mp_PhiToToman (inst_GetParams (w_inst w)))"
  shows "0 < rs_Burned sp" "rs_TomanOut sp * k = rs_Burned sp" "0 \<le> rs_TomanOut sp"
    "rs_TomanOut sp \<le> toman" "rs_Burned sp + rs_Carved sp = uphi" "0 \<le> rs_Carved sp" "rs_UphiIn sp = uphi"
proof -
  let ?p = "inst_GetParams (w_inst w)"
  let ?pen = "fst (EarlyRedeemPenalty c (w_coin w) (md_Holder m) uphi)"
  let ?pn = "if ?pen < 0 then 0 else ?pen"
  have k: "0 < UphiPerToman (mp_PhiToToman ?p)" by (rule rate_factor(2) [OF inst_inv_rate [OF inv]])
  note u = redeem_uphi [OF inv chk] and ok = redeem_checks_ok [OF chk]
  have fee: "0 \<le> ProtocolFee ?p uphi" "0 \<le> ?pn" "0 \<le> uphi" "0 \<le> toman"
    using ok(6,9) by (simp_all add: ProtocolFee_nonneg)
  have sp: "sp = ComputeRedeemSplit uphi (ProtocolFee ?p uphi) ?pn (mp_PhiToToman ?p)"
    by (simp add: sp_def redeem_split_def Let_def)
  note f = redeem_split_facts [OF k fee(3,1,2), folded sp k_def]
  note t = redeem_split_toman_le [OF k fee(1,2,4), folded u(1), folded sp]
  show "0 < rs_Burned sp" using f(11) u(2) by (simp add: k_def)
  show "rs_TomanOut sp * k = rs_Burned sp" by (rule f(12))
  show "0 \<le> rs_TomanOut sp" "rs_TomanOut sp \<le> toman" by (rule t)+
  show "rs_Burned sp + rs_Carved sp = uphi" "0 \<le> rs_Carved sp" "rs_UphiIn sp = uphi"
    using f(1-3,5,7,13) by linarith+
qed

lemma redeemed_state_facts:
  assumes inv: "inst_inv s"
    and chk: "redeem_checks D c s m = Inr (inst, toman, uphi, holder)"
    and sp: "0 \<le> rs_TomanOut sp" "rs_TomanOut sp \<le> toman"
  defines "s' \<equiv> redeemed_state D c s inst m toman uphi holder sp"
  shows "inst_inv s'" "vault_total s' = vault_total s - rs_TomanOut sp"
    "inst_GetParams s' = inst_GetParams s" "depositSeen s' (md_Institution m) ''redeem'' (md_RedeemRef m)"
proof -
  note ok = redeem_checks_ok [OF chk]
  have i: "in_Id inst = md_Institution m" "vault_ok inst"
    using inst_inv_get [OF inv ok(1)] by auto
  let ?v = "mustInt (in_VaultBalance inst) - rs_TomanOut sp"
  have v: "fits ?v" "0 \<le> ?v"
    using sp ok(7) fits_mono [of ?v, OF _ _ mustInt_fits [of "in_VaultBalance inst"]] by auto
  let ?s1 = "SetInstitution s (inst\<lparr>in_VaultBalance := Int_String ?v\<rparr>)"
  have c1: "same_core ?s1 s'"
    unfolding s'_def redeemed_state_def by (blast intro: same_core_trans core_intros)
  note sv = set_vault [OF inv ok(1) v]
  show "inst_inv s'" using same_core_inv [OF c1] sv(1) by blast
  have "vault_total s' = vault_total ?s1" using c1 by (simp add: vault_total_def same_core_def)
  then show "vault_total s' = vault_total s - rs_TomanOut sp" using sv(2) by simp
  show "inst_GetParams s' = inst_GetParams s" using same_core_params [OF c1] sv(3) by simp
  show "depositSeen s' (md_Institution m) ''redeem'' (md_RedeemRef m)"
    by (simp add: s'_def redeemed_state_def depositSeen_def markDeposit_def i(1))
qed

lemma InstitutionRedeem_run:
  assumes inv: "world_inv w"
    and chk: "redeem_checks D c (w_inst w) m = Inr (inst, toman, uphi, holder)"
    and settle: "redeem_settle D (w_bank w) holder (redeem_split c w m uphi) = Inr b"
  defines "sp \<equiv> redeem_split c w m uphi"
  shows "InstitutionRedeem D c w m = Inr (Int_String (rs_Burned sp),
      \<lparr>w_bank = b, w_coin = snd (EarlyRedeemPenalty c (w_coin w) (md_Holder m) uphi),
       w_inst = redeemed_state D c (w_inst w) inst m toman uphi holder sp\<rparr>)"
    and "bank_inv b" "solvent b (redeemed_state D c (w_inst w) inst m toman uphi holder sp)"
    and "total_supply b = total_supply (w_bank w) - rs_Burned sp"
proof -
  from inv have i: "inst_inv (w_inst w)" "bank_inv (w_bank w)" "solvent (w_bank w) (w_inst w)"
    by (simp_all add: world_inv_def)
  note s = redeem_split_ok [OF i(1) chk, folded sp_def]
  note f = redeemed_state_facts [OF i(1) chk s(3,4)]
  note bk = redeem_settle_bank [OF settle, folded sp_def]
  have r: "rate_ok (inst_GetParams (w_inst w))" by (rule inst_inv_rate [OF i(1)])
  have u: "rs_Burned sp * uint (mp_PhiToToman (inst_GetParams (w_inst w))) = rs_TomanOut sp * UphiPerPhi"
    using uphi_of_toman [OF r, of "rs_TomanOut sp"] s(2) by simp
  show sol: "solvent b (redeemed_state D c (w_inst w) inst m toman uphi holder sp)"
    using i(3) bk(1) f(2,3) u by (simp add: solvent_def left_diff_distrib)
  obtain pen coin where e: "EarlyRedeemPenalty c (w_coin w) (md_Holder m) uphi = (pen, coin)" by force
  have sp: "ComputeRedeemSplit uphi (ProtocolFee (inst_GetParams (w_inst w)) uphi)
      (if pen < 0 then 0 else pen) (mp_PhiToToman (inst_GetParams (w_inst w))) = sp"
    by (simp add: sp_def redeem_split_def e Let_def)
  show "InstitutionRedeem D c w m = Inr (Int_String (rs_Burned sp),
      \<lparr>w_bank = b, w_coin = snd (EarlyRedeemPenalty c (w_coin w) (md_Holder m) uphi),
       w_inst = redeemed_state D c (w_inst w) inst m toman uphi holder sp\<rparr>)"
    using sol f(1) s(1) redeem_uphi(2) [OF i(1) chk] settle [folded sp_def]
    unfolding InstitutionRedeem_def Let_def chk
    by (simp add: e sp redeemed_state_def assertSolvency_iff)
  show "bank_inv b" by (rule bk(2) [OF i(2)])
  show "total_supply b = total_supply (w_bank w) - rs_Burned sp" by (rule bk(1))
qed

lemma InstitutionRedeem_cases:
  assumes "InstitutionRedeem D c w m = Inr (out, w')"
  obtains inst toman uphi holder b where
      "redeem_checks D c (w_inst w) m = Inr (inst, toman, uphi, holder)"
      "redeem_settle D (w_bank w) holder (redeem_split c w m uphi) = Inr b"
proof -
  from assms have "redeem_checks D c (w_inst w) m \<noteq> Inl e" for e
    by (auto simp: InstitutionRedeem_def)
  then obtain inst toman uphi holder where
      c: "redeem_checks D c (w_inst w) m = Inr (inst, toman, uphi, holder)"
    by (metis prod.exhaust sumE)
  obtain pen coin where e: "EarlyRedeemPenalty c (w_coin w) (md_Holder m) uphi = (pen, coin)" by force
  from assms c obtain b where
      "redeem_settle D (w_bank w) holder (redeem_split c w m uphi) = Inr b"
    by (auto simp: InstitutionRedeem_def Let_def bindE_Inr_iff e redeem_split_def split: if_splits)
  with c show thesis by (rule that)
qed

lemma InstitutionRedeem_inv:
  assumes "InstitutionRedeem D c w m = Inr (out, w')" "world_inv w"
  shows "world_inv w'"
  using assms(1)
proof (cases rule: InstitutionRedeem_cases)
  case (1 inst toman uphi holder b)
  have i: "inst_inv (w_inst w)" using assms(2) by (simp add: world_inv_def)
  note s = redeem_split_ok [OF i 1(1)]
  from redeemed_state_facts(1) [OF i 1(1) s(3,4)] InstitutionRedeem_run [OF assms(2) 1] assms(1)
  show ?thesis by (simp add: world_inv_def)
qed

section \<open>The other handlers\<close>

text \<open>A handler that moves no value keeps the invariant, the vault total and the rate.\<close>

definition keeps_vaults :: "inst_state \<Rightarrow> inst_state \<Rightarrow> bool" where
  "keeps_vaults s s' \<longleftrightarrow> (inst_inv s \<longrightarrow> inst_inv s' \<and> vault_total s' = vault_total s
     \<and> mp_PhiToToman (inst_GetParams s') = mp_PhiToToman (inst_GetParams s))"

lemma keeps_vaults_solvent:
  "keeps_vaults s s' \<Longrightarrow> inst_inv s \<Longrightarrow> solvent b s \<Longrightarrow> inst_inv s' \<and> solvent b s'"
  by (simp add: keeps_vaults_def solvent_def)

lemma keeps_vaults_core: "same_core s s' \<Longrightarrow> keeps_vaults s s'"
  using same_core_inv [of s s'] by (simp add: keeps_vaults_def inst_GetParams_def vault_total_def same_core_def)

lemma keeps_vaults_trans: "keeps_vaults s t \<Longrightarrow> keeps_vaults t u \<Longrightarrow> keeps_vaults s u"
  by (simp add: keeps_vaults_def)

lemma keeps_vaults_replace:
  assumes "GetInstitution s i = Some old" "in_Id inst = in_Id old"
    "in_VaultBalance inst = in_VaultBalance old"
  shows "keeps_vaults s (SetInstitution s inst)"
  using SetInstitution_same_vault [OF _ assms]
  by (simp add: keeps_vaults_def inst_GetParams_def SetInstitution_def)

lemma SetInstitution_GetParams [simp]: "inst_GetParams (SetInstitution s inst) = inst_GetParams s"
  by (simp add: inst_GetParams_def SetInstitution_def)

lemma new_institution_simps [simp]:
  "in_Id (new_institution i l a va vp bo ty t) = i"
  "in_VaultBalance (new_institution i l a va vp bo ty t) = ''0''"
  by (simp_all add: new_institution_def)

lemma keeps_vaults_new:
  assumes "\<not> HasInstitution s i"
  shows "keeps_vaults s (SetInstitution s (new_institution i l a va vp bo ty t))"
proof -
  have "NewIntFromString ''0'' = Some 0" by code_simp
  then have "vault_ok (new_institution i l a va vp bo ty t)" "mustInt ''0'' = 0"
    by (simp_all add: vault_ok_def mustInt_def)
  with assms show ?thesis
    by (simp add: keeps_vaults_def inst_inv_SetInstitution vault_total_SetInstitution HasInstitution_def
        GetInstitution_def kv_has_def)
qed

lemma RegisterInstitution_keeps:
  "RegisterInstitution D c s m = Inr s' \<Longrightarrow> keeps_vaults s s'"
  using keeps_vaults_new by (auto simp: RegisterInstitution_def Let_def split: if_splits)

lemma FreezeInstitution_keeps:
  "FreezeInstitution D s m = Inr s' \<Longrightarrow> keeps_vaults s s'"
  by (auto simp: FreezeInstitution_def intro!: keeps_vaults_replace split: if_splits option.splits)

lemma RemoveInstitution_keeps:
  assumes "RemoveInstitution D s m = Inr s'"
  shows "keeps_vaults s s'"
proof -
  from assms obtain inst where g: "GetInstitution s (mx_Id m) = Some inst"
      and z: "mustInt (in_VaultBalance inst) = 0"
      and s': "s' = enqueueRemoval (removeInstitutionSingleRecords s (mx_Id m)) (mx_Id m)"
    by (auto simp: RemoveInstitution_def split: if_splits option.splits)
  let ?t = "removeInstitutionSingleRecords s (mx_Id m)"
  have "keeps_vaults s ?t"
    using g z kv.entries_sum_del [of "is_institutions s" "\<lambda>_ i. mustInt (in_VaultBalance i)"
        "InstitutionKey (mx_Id m)"]
    by (auto simp: keeps_vaults_def removeInstitutionSingleRecords_def inst_inv_def vault_total_def
        inst_GetParams_def GetInstitution_def list_all_iff kv_delete_def kv_sorted_filter)
  with keeps_vaults_core [OF same_core_ops(7)] show ?thesis
    unfolding s' by (blast intro: keeps_vaults_trans)
qed

lemma PublishInstitutionAttestation_ok:
  assumes "PublishInstitutionAttestation D c s m = Inr s'"
  obtains inst res a where "GetInstitution s (ma_Institution m) = Some inst"
    "requireRole (D_env D) s inst (ma_Admin m) [INSTITUTION_ROLE_COMPLIANCE] = Inr ()"
    "NewIntFromString (ma_AttestedReserve m) = Some res" "0 \<le> res"
    "AccAddressFromBech32 (D_env D) (ma_Admin m) = Some a"
    "s' = SetInstitution (SetLastAttestor s (in_Id inst) a)
       (inst\<lparr>in_AttestedReserve := Int_String res, in_LastAttestedAt := block_time c,
         in_Status := (if \<not> in_PausedMint inst \<and> in_Status inst \<noteq> INSTITUTION_STATUS_FROZEN
                       then (if res < mustInt (in_VaultBalance inst)
                             then INSTITUTION_STATUS_LOW_LIQ else INSTITUTION_STATUS_HEALTHY)
                       else in_Status inst)\<rparr>)"
  using assms unfolding PublishInstitutionAttestation_def Let_def
  by (fastforce simp: bindE_Inr_iff if_Inl_Inr_iff case_option_Inl_Inr_iff)

lemma PublishInstitutionAttestation_keeps:
  assumes "PublishInstitutionAttestation D c s m = Inr s'"
  shows "keeps_vaults s s'"
  using assms
proof (cases rule: PublishInstitutionAttestation_ok)
  case (1 inst res a)
  let ?t = "SetLastAttestor s (in_Id inst) a"
  have g: "GetInstitution ?t (ma_Institution m) = Some inst"
    using 1(1) same_core_get [OF same_core_ops(5)] by simp
  show ?thesis unfolding 1(6)
    by (rule keeps_vaults_trans [OF keeps_vaults_core [OF same_core_ops(5)] keeps_vaults_replace [OF g]])
      simp_all
qed

lemma sensitive_replace_keeps:
  assumes "GetInstitution s i = Some inst" "trySensitive D s inst signer ch = Inr (r, s1)"
    "in_Id inst' = in_Id inst" "in_VaultBalance inst' = in_VaultBalance inst"
  shows "keeps_vaults s (clearApprovals (SetInstitution s1 inst') (in_Id inst) ch)"
proof -
  have core: "same_core s s1" by (rule trySensitive_core [OF assms(2)])
  have "GetInstitution s1 i = Some inst" using same_core_get [OF core] assms(1) by simp
  from keeps_vaults_trans [OF keeps_vaults_trans [OF keeps_vaults_core [OF core]
        keeps_vaults_replace [OF this assms(3,4)]] keeps_vaults_core [OF same_core_ops(1)]]
  show ?thesis .
qed

lemma role_updates_core:
  assumes "same_core s s1"
  shows "same_core s (clearApprovals (SetRole E s1 i a r) i ch)"
    "same_core s (clearApprovals (DeleteRole s1 i a) i ch)"
    "same_core s (bumpAdminEpoch (clearApprovals (SetRole E s1 i a r) i ch) i)"
    "same_core s (bumpAdminEpoch (clearApprovals (DeleteRole s1 i a) i ch) i)"
  using assms by (simp_all add: same_core_def clearApprovals_def bumpAdminEpoch_def SetRole_def DeleteRole_def)

lemma GrantInstitutionRole_keeps: "GrantInstitutionRole D s m = Inr (r, s') \<Longrightarrow> keeps_vaults s s'"
  by (auto simp: GrantInstitutionRole_def Let_def bindE_Inr_iff dest!: trySensitive_core
      intro!: keeps_vaults_core role_updates_core split: option.splits if_splits)

lemma RevokeInstitutionRole_keeps: "RevokeInstitutionRole D s m = Inr (r, s') \<Longrightarrow> keeps_vaults s s'"
  by (auto simp: RevokeInstitutionRole_def Let_def bindE_Inr_iff dest!: trySensitive_core
      intro!: keeps_vaults_core role_updates_core split: option.splits if_splits)

lemma UpdateInstitutionAppConfig_keeps:
  assumes "UpdateInstitutionAppConfig D s sg i cf = Inr (r, s')"
  shows "keeps_vaults s s'"
proof -
  from assms obtain inst ch s1 where g: "GetInstitution s i = Some inst"
      and t: "trySensitive D s inst sg ch = Inr (r, s1)"
      and s': "s' = s1 \<or> s' = clearApprovals (SetInstitution s1 (inst\<lparr>in_AppConfig := cf\<rparr>)) (in_Id inst) ch"
    by (auto simp: UpdateInstitutionAppConfig_def Let_def bindE_Inr_iff split: option.splits if_splits)
  from s' keeps_vaults_core [OF trySensitive_core [OF t]] sensitive_replace_keeps [OF g t]
  show ?thesis by auto
qed

lemma UpdateInstitutionParams_keeps:
  assumes "UpdateInstitutionParams D s sg i p = Inr (r, s')"
  shows "keeps_vaults s s'"
proof -
  from assms obtain inst ch s1 where g: "GetInstitution s i = Some inst"
      and t: "trySensitive D s inst sg ch = Inr (r, s1)"
      and s': "s' = s1 \<or> s' = clearApprovals (SetInstitution s1 (inst\<lparr>in_Params := p\<rparr>)) (in_Id inst) ch"
    by (auto simp: UpdateInstitutionParams_def Let_def bindE_Inr_iff split: option.splits if_splits)
  from s' keeps_vaults_core [OF trySensitive_core [OF t]] sensitive_replace_keeps [OF g t]
  show ?thesis by auto
qed

lemma SetInstitutionDepositKey_keeps:
  assumes "SetInstitutionDepositKey D s sg i k = Inr (r, s')"
  shows "keeps_vaults s s'"
proof -
  from assms obtain inst ch s1 where g: "GetInstitution s i = Some inst"
      and t: "trySensitive D s inst sg ch = Inr (r, s1)"
      and s': "s' = s1 \<or> s' = clearApprovals (SetInstitution s1 (inst\<lparr>in_DepositPubkey := k\<rparr>)) (in_Id inst) ch"
    by (auto simp: SetInstitutionDepositKey_def Let_def bindE_Inr_iff split: option.splits if_splits)
  from s' keeps_vaults_core [OF trySensitive_core [OF t]] sensitive_replace_keeps [OF g t]
  show ?thesis by auto
qed

lemma fx_writes_keep:
  "keeps_vaults s (SetFxRequest s req)" "keeps_vaults s (DeleteFxRequest s i)"
  by (simp_all add: keeps_vaults_def inst_inv_fx_writes)
    (simp_all add: vault_total_def inst_GetParams_def SetFxRequest_def DeleteFxRequest_def)

lemma RequestFxEntry_keeps: "RequestFxEntry s m = Inr s' \<Longrightarrow> keeps_vaults s s'"
  by (auto simp: RequestFxEntry_def intro!: fx_writes_keep split: if_splits option.splits)

lemma GuaranteeFxEntry_keeps: "GuaranteeFxEntry D s m = Inr s' \<Longrightarrow> keeps_vaults s s'"
  by (auto simp: GuaranteeFxEntry_def bindE_Inr_iff intro!: fx_writes_keep split: if_splits option.splits)

lemma FinalizeFxEntry_ok:
  assumes "FinalizeFxEntry D c s m = Inr s'"
  obtains req where "GetFxRequest s (ff_FxId m) = Some req" "fx_Status req = FX_ENTRY_GUARANTEED"
    "\<not> HasInstitution s (ff_FxId m)" "\<not> HasPendingRemoval s (ff_FxId m)"
    "s' = DeleteFxRequest (SetInstitution s (new_institution (fx_FxId req) (fx_License req)
            (fx_Applicant req) [] [] ''0'' INSTITUTION_TYPE_FX (block_time c))) (fx_FxId req)"
  using assms unfolding FinalizeFxEntry_def Let_def
  by (fastforce simp: bindE_Inr_iff if_Inl_Inr_iff case_option_Inl_Inr_iff)

lemma FinalizeFxEntry_keeps:
  assumes "FinalizeFxEntry D c s m = Inr s'"
  shows "keeps_vaults s s'"
proof (cases "inst_inv s")
  case True
  from assms show ?thesis
  proof (cases rule: FinalizeFxEntry_ok)
    case (1 req)
    then have "\<not> HasInstitution s (fx_FxId req)" using inst_inv_fx [OF True 1(1)] by simp
    then show ?thesis
      unfolding 1(5) by (rule keeps_vaults_trans [OF keeps_vaults_new fx_writes_keep(2)])
  qed
qed (simp add: keeps_vaults_def)

lemma inst_SetParams_ok:
  assumes "inst_SetParams E s p = Inr s'" "inst_inv s" "solvent b s"
  shows "s' = s\<lparr>is_params := Some p\<rparr>" "inst_inv s'" "solvent b s'"
proof -
  from assms(1) have v: "inst_Params_Validate E p = Inr ()" and s': "s' = s\<lparr>is_params := Some p\<rparr>"
    by (auto simp: inst_SetParams_def bindE_Inr_iff split: if_splits)
  show "s' = s\<lparr>is_params := Some p\<rparr>" by (rule s')
  have "mp_PhiToToman p \<noteq> 0" "UphiPerPhi mod uint (mp_PhiToToman p) = 0"
    using v by (auto simp: inst_Params_Validate_def split: if_splits)
  then have "rate_ok p" by (simp add: rate_ok_def less_le uint_0_iff)
  with assms(2) show "inst_inv s'" by (simp add: inst_inv_def s' inst_GetParams_def)
  show "solvent b s'"
  proof (cases "mp_PhiToToman (inst_GetParams s) = mp_PhiToToman p")
    case True
    with assms(3) show ?thesis by (simp add: solvent_def s' inst_GetParams_def vault_total_def)
  next
    case False
    with assms(1) have "vault_total s \<le> 0"
      by (auto simp: inst_SetParams_def v SumVaultBalance_total [OF assms(2)] split: if_splits)
    with vault_total_nonneg [OF assms(2)] have z: "vault_total s = 0" by simp
    with assms(3) inst_inv_rate [OF assms(2)] have "total_supply b = 0"
      by (simp add: solvent_def rate_ok_def)
    with z show ?thesis by (simp add: solvent_def s' vault_total_def)
  qed
qed

section \<open>Guarded burns\<close>

text \<open>
  What the compensation relies on of the staking keeper's slash: it burns pool tokens, so the
  supply does not rise, and the bank stays consistent.
\<close>

definition slash_burns :: "(bank \<Rightarrow> (int \<times> bank) res) \<Rightarrow> bool" where
  "slash_burns slash \<longleftrightarrow> (\<forall>b n b'. slash b = Inr (n, b') \<longrightarrow>
     total_supply b' \<le> total_supply b \<and> (bank_inv b \<longrightarrow> bank_inv b'))"

lemma RedirectSlashed_bank:
  assumes "RedirectSlashedToPenalty D s b n = Inr b'" "0 < n"
  shows "total_supply b' = total_supply b + n" "bank_inv b \<Longrightarrow> bank_inv b'"
proof -
  from assms obtain b1 where m: "MintCoins (D_env D) b inst_ModuleName n = Inr b1"
      and r0: "(case PenaltyDestination D s of None \<Rightarrow> Inr b1 | Some dest \<Rightarrow>
          (case SendCoinsFromModuleToAccount (D_env D) b1 inst_ModuleName dest n of
             Inl _ \<Rightarrow> Inr b1 | Inr b2 \<Rightarrow> Inr b2)) = (Inr b' :: bank res)"
    by (auto simp: RedirectSlashedToPenalty_def bindE_Inr_iff)
  from r0 have r: "b' = b1 \<or> (\<exists>dest. SendCoinsFromModuleToAccount (D_env D) b1 inst_ModuleName dest n = Inr b')"
    by (auto split: option.splits sum.splits)
  show "total_supply b' = total_supply b + n"
    using ledger.mint_supply [OF m] r module_sends_supply(1) by fastforce
  show "bank_inv b'" if "bank_inv b"
    using ledger.mint_inv [OF that m] r module_sends_inv(1) by blast
qed

lemma compensate_bank:
  assumes "compensate D s slash b = Inr (n, b')" "slash_burns slash"
  shows "total_supply b' = total_supply b" "bank_inv b \<Longrightarrow> bank_inv b'"
proof -
  from assms(1) obtain b1 where sl: "slash b = Inr (n, b1)"
      and r: "(if 0 < total_supply b - total_supply b1
               then RedirectSlashedToPenalty D s b1 (total_supply b - total_supply b1) = Inr b' else b' = b1)"
    by (auto simp: compensate_def Let_def bindE_Inr_iff split: if_splits)
  have sb: "total_supply b1 \<le> total_supply b" "bank_inv b \<longrightarrow> bank_inv b1"
    using assms(2) sl by (auto simp: slash_burns_def)
  show "total_supply b' = total_supply b"
    using r sb RedirectSlashed_bank(1) [of D s b1 "total_supply b - total_supply b1" b']
    by (auto split: if_splits)
  show "bank_inv b'" if "bank_inv b"
    using r sb that RedirectSlashed_bank(2) [of D s b1 "total_supply b - total_supply b1" b']
    by (auto split: if_splits)
qed

lemma burn_needs_supply:
  assumes "BurnCoins E b m n = Inr b'" "bank_inv b" "0 < n"
  shows "0 < total_supply b"
  using ledger.burn_supply [OF assms(1)] bank_inv_supply_nonneg [OF ledger.burn_inv [OF assms(2,1)]] assms(3)
  by simp

lemma gov_burn_bank:
  assumes "govBurnGuard_BurnCoins D s b gov_ModuleName n = Inr b'" "0 < n"
    "bank_inv b" "inst_inv s" "solvent b s"
  shows "total_supply b' = total_supply b \<and> bank_inv b'"
proof (cases "0 < vault_total s")
  case True
  with assms have "SendCoinsFromModuleToModule (D_env D) b gov_ModuleName FeeCollectorName n = Inr b'"
    by (simp add: govBurnGuard_BurnCoins_def SumVaultBalance_total)
  from module_sends_supply(2) [OF this] module_sends_inv(2) [OF this assms(3)] show ?thesis by simp
next
  case False
  with vault_total_nonneg [OF assms(4)] have z: "vault_total s = 0" by simp
  with assms have "BurnCoins (D_env D) b gov_ModuleName n = Inr b'"
    by (simp add: govBurnGuard_BurnCoins_def SumVaultBalance_total)
  from burn_needs_supply [OF this assms(3,2)] assms(5) z inst_inv_rate [OF assms(4)]
  have False by (simp add: solvent_def rate_ok_def)
  then show ?thesis ..
qed

section \<open>The step relation\<close>

text \<open>
  One step of the ledger: a message of the institutions or the coin module executed in some
  block under some surroundings, a bank send (the bank module's own transfers and the fee
  collection), the module's begin blocker, a compensated slash, or a governance deposit burn
  behind its guard.
\<close>

inductive ledger_step :: "world \<Rightarrow> world \<Rightarrow> bool" where
  step_mint: "InstitutionMint D c w m1 = Inr (out, w') \<Longrightarrow> ledger_step w w'"
| step_redeem: "InstitutionRedeem D c w m2 = Inr (out, w') \<Longrightarrow> ledger_step w w'"
| step_register: "RegisterInstitution D c (w_inst w) m3 = Inr s \<Longrightarrow> ledger_step w (w\<lparr>w_inst := s\<rparr>)"
| step_remove: "RemoveInstitution D (w_inst w) m4 = Inr s \<Longrightarrow> ledger_step w (w\<lparr>w_inst := s\<rparr>)"
| step_freeze: "FreezeInstitution D (w_inst w) m5 = Inr s \<Longrightarrow> ledger_step w (w\<lparr>w_inst := s\<rparr>)"
| step_attest: "PublishInstitutionAttestation D c (w_inst w) m6 = Inr s \<Longrightarrow> ledger_step w (w\<lparr>w_inst := s\<rparr>)"
| step_params: "inst_UpdateParams D (w_inst w) auth p = Inr s \<Longrightarrow> ledger_step w (w\<lparr>w_inst := s\<rparr>)"
| step_emergency: "SetEmergencyRedemption D c (w_inst w) m7 = Inr s \<Longrightarrow> ledger_step w (w\<lparr>w_inst := s\<rparr>)"
| step_grant: "GrantInstitutionRole D (w_inst w) m8 = Inr (r, s) \<Longrightarrow> ledger_step w (w\<lparr>w_inst := s\<rparr>)"
| step_revoke: "RevokeInstitutionRole D (w_inst w) m9 = Inr (r, s) \<Longrightarrow> ledger_step w (w\<lparr>w_inst := s\<rparr>)"
| step_config: "UpdateInstitutionAppConfig D (w_inst w) sg i cf = Inr (r, s) \<Longrightarrow> ledger_step w (w\<lparr>w_inst := s\<rparr>)"
| step_inst_params: "UpdateInstitutionParams D (w_inst w) sg i ip = Inr (r, s) \<Longrightarrow> ledger_step w (w\<lparr>w_inst := s\<rparr>)"
| step_deposit_key: "SetInstitutionDepositKey D (w_inst w) sg i k = Inr (r, s) \<Longrightarrow> ledger_step w (w\<lparr>w_inst := s\<rparr>)"
| step_fx_request: "RequestFxEntry (w_inst w) m10 = Inr s \<Longrightarrow> ledger_step w (w\<lparr>w_inst := s\<rparr>)"
| step_fx_guarantee: "GuaranteeFxEntry D (w_inst w) m11 = Inr s \<Longrightarrow> ledger_step w (w\<lparr>w_inst := s\<rparr>)"
| step_fx_finalize: "FinalizeFxEntry D c (w_inst w) m12 = Inr s \<Longrightarrow> ledger_step w (w\<lparr>w_inst := s\<rparr>)"
| step_begin_block: "ledger_step w (w\<lparr>w_inst := inst_BeginBlock c (w_inst w)\<rparr>)"
| step_transfer: "Transfer E c (w_bank w, w_coin w) mt = Inr (b, cs) \<Longrightarrow> ledger_step w (w\<lparr>w_bank := b, w_coin := cs\<rparr>)"
| step_withdraw: "WithdrawRevenue E auth (w_bank w, w_coin w) mw = Inr (b, cs)
    \<Longrightarrow> ledger_step w (w\<lparr>w_bank := b, w_coin := cs\<rparr>)"
| step_coin_params: "coin_UpdateParams E auth (w_coin w) sender cp = Inr cs \<Longrightarrow> ledger_step w (w\<lparr>w_coin := cs\<rparr>)"
| step_send: "SendCoins E (w_bank w) x y n = Inr b \<Longrightarrow> ledger_step w (w\<lparr>w_bank := b\<rparr>)"
| step_slash: "compensate D (w_inst w) slash (w_bank w) = Inr (n, b) \<Longrightarrow> slash_burns slash
    \<Longrightarrow> ledger_step w (w\<lparr>w_bank := b\<rparr>)"
| step_gov_burn: "govBurnGuard_BurnCoins D (w_inst w) (w_bank w) gov_ModuleName n = Inr b \<Longrightarrow> 0 < n
    \<Longrightarrow> ledger_step w (w\<lparr>w_bank := b\<rparr>)"

lemma world_inv_inst:
  "world_inv w \<Longrightarrow> keeps_vaults (w_inst w) s \<Longrightarrow> world_inv (w\<lparr>w_inst := s\<rparr>)"
  using keeps_vaults_solvent by (auto simp: world_inv_def)

lemma world_inv_bank:
  "world_inv w \<Longrightarrow> total_supply b = total_supply (w_bank w) \<Longrightarrow> bank_inv b \<Longrightarrow>
    world_inv (w\<lparr>w_bank := b\<rparr>) \<and> world_inv (w\<lparr>w_bank := b, w_coin := cs\<rparr>)"
  by (simp add: world_inv_def solvent_def)

lemma Transfer_send:
  assumes "Transfer E c (b, cs) mt = Inr (b', cs')"
  obtains x y n where "SendCoins E b x y n = Inr b'"
proof -
  from assms obtain x y n b1 where "SendCoins E b x y n = Inr b1"
      "(case keeper_SpendOldestFirst c cs (mt_From mt) n of (consumed, s) \<Rightarrow>
          Inr (b1, credit_lots s (mt_To mt) consumed)) = (Inr (b', cs') :: (bank \<times> coin_state) res)"
    unfolding Transfer_def by (auto simp: bindE_Inr_iff if_Inl_Inr_iff case_option_Inl_Inr_iff)
  then show thesis by (auto intro: that split: prod.splits)
qed

lemma WithdrawRevenue_send:
  assumes "WithdrawRevenue E auth (b, cs) mw = Inr (b', cs')"
  obtains y n where "SendCoinsFromModuleToAccount E b RevenueAccountName y n = Inr b'"
  using assms unfolding WithdrawRevenue_def Let_def
  by (auto simp: bindE_Inr_iff if_Inl_Inr_iff case_option_Inl_Inr_iff wrapE_Inr_iff)

lemma coin_messages_bank:
  "Transfer E c (b, cs) mt = Inr (b', cs') \<Longrightarrow> total_supply b' = total_supply b \<and> (bank_inv b \<longrightarrow> bank_inv b')"
  "WithdrawRevenue E auth (b, cs) mw = Inr (b', cs') \<Longrightarrow> total_supply b' = total_supply b \<and> (bank_inv b \<longrightarrow> bank_inv b')"
  by (metis Transfer_send ledger.send_supply ledger.send_inv)
    (metis WithdrawRevenue_send module_sends_supply(1) module_sends_inv(1))

lemma inst_UpdateParams_set:
  "inst_UpdateParams D s auth p = Inr s' \<Longrightarrow> inst_SetParams (D_env D) s p = Inr s'"
  by (auto simp: inst_UpdateParams_def split: if_splits option.splits)

lemma SetEmergencyRedemption_set:
  assumes "SetEmergencyRedemption D c s m = Inr s'"
  obtains p where "inst_SetParams (D_env D) s p = Inr s'"
  using assms unfolding SetEmergencyRedemption_def Let_def if_Inl_Inr_iff by blast

lemma world_inv_params:
  "world_inv w \<Longrightarrow> inst_SetParams E (w_inst w) p = Inr s \<Longrightarrow> world_inv (w\<lparr>w_inst := s\<rparr>)"
  using inst_SetParams_ok [of E "w_inst w" p s "w_bank w"] by (auto simp: world_inv_def)

lemma ledger_step_inv:
  assumes "ledger_step w w'" "world_inv w"
  shows "world_inv w'"
  using assms(1)
proof cases
  case step_mint then show ?thesis using InstitutionMint_inv assms(2) by blast
next
  case step_redeem then show ?thesis using InstitutionRedeem_inv assms(2) by blast
next
  case step_params then show ?thesis using world_inv_params [OF assms(2) inst_UpdateParams_set] by blast
next
  case step_emergency then show ?thesis
    using world_inv_params [OF assms(2)] SetEmergencyRedemption_set by metis
next
  case step_begin_block then show ?thesis
    using world_inv_inst [OF assms(2) keeps_vaults_core [OF begin_block_core]] by blast
next
  case step_transfer then show ?thesis
    using coin_messages_bank(1) world_inv_bank [OF assms(2)] assms(2) by (auto simp: world_inv_def)
next
  case step_withdraw then show ?thesis
    using coin_messages_bank(2) world_inv_bank [OF assms(2)] assms(2) by (auto simp: world_inv_def)
next
  case step_coin_params then show ?thesis using assms(2) by (simp add: world_inv_def)
next
  case step_send then show ?thesis
    using ledger.send_supply ledger.send_inv world_inv_bank [OF assms(2)] assms(2) by (metis world_inv_def)
next
  case step_slash then show ?thesis
    using compensate_bank world_inv_bank [OF assms(2)] assms(2) by (metis world_inv_def)
next
  case step_gov_burn then show ?thesis
    using gov_burn_bank world_inv_bank [OF assms(2)] assms(2) by (metis world_inv_def)
qed (use world_inv_inst [OF assms(2)] in
  \<open>blast intro: RegisterInstitution_keeps RemoveInstitution_keeps FreezeInstitution_keeps
    PublishInstitutionAttestation_keeps GrantInstitutionRole_keeps RevokeInstitutionRole_keeps
    UpdateInstitutionAppConfig_keeps UpdateInstitutionParams_keeps SetInstitutionDepositKey_keeps
    RequestFxEntry_keeps GuaranteeFxEntry_keeps FinalizeFxEntry_keeps\<close>)+

lemma ledger_steps_inv: "ledger_step\<^sup>*\<^sup>* w w' \<Longrightarrow> world_inv w \<Longrightarrow> world_inv w'"
  by (induction rule: rtranclp_induct) (auto intro: ledger_step_inv)

end
