(* ===== verification/InstExamples.thy ===== *)
theory InstExamples
  imports InstSteps
begin

text \<open>
  A concrete institution, world and messages: the inputs on which the properties of the
  institutions module are evaluated.
\<close>

section \<open>A concrete institution\<close>

definition ienv_example :: sdk_env where
  "ienv_example = \<lparr>AccAddressFromBech32 = (\<lambda>s. if s = [] then None else Some s),
     AccAddress_String = (\<lambda>a. a), ModuleAddress = (\<lambda>m. ''module/'' @ m), LockedCoins = (\<lambda>_. 0)\<rparr>"

definition deps_example :: inst_deps where
  "deps_example = \<lparr>D_env = ienv_example, D_authority = ''gov'', D_SubjectDID = (\<lambda>a. Some (''did:'' @ a)),
     D_BootstrapPhase = True, D_VerifySignature = (\<lambda>_ _ _. False),
     D_Sum256 = (\<lambda>x. take 32 (x @ replicate 32 (CHR 0x00))),
     D_MarshalAppConfig = cfg_LiveScanUrl, D_MarshalParams = ip_VaultApiEndpoint,
     D_Proposal = None, D_UnmarshalFinalize = Some\<rparr>"

definition ictx_example :: ctx where
  "ictx_example = \<lparr>block_time = 2000000, chain_id = ''phi-1'', block_height = 10\<rparr>"

definition inst_example :: Institution where
  "inst_example = (new_institution ''bank'' ''lic'' ''root'' [] [] ''0'' INSTITUTION_TYPE_FINANCIAL 1990000)
     \<lparr>in_VaultBalance := ''100000'', in_AttestedReserve := ''900000''\<rparr>"

definition istate_example :: inst_state where
  "istate_example =
    SetLastAttestor
      (SetRole ienv_example (SetRole ienv_example (SetRole ienv_example
        (SetInstitution empty_inst_state inst_example)
          ''bank'' ''adm2'' INSTITUTION_ROLE_ADMIN)
          ''bank'' ''auditor'' INSTITUTION_ROLE_COMPLIANCE)
          ''bank'' ''op'' INSTITUTION_ROLE_OPERATOR)
      ''bank'' ''auditor''"

definition world_example :: world where
  "world_example = \<lparr>w_bank = \<lparr>balances = [(''cust'', 1000000)], total_supply = 1000000\<rparr>,
     w_coin = empty_coin_state, w_inst = istate_example\<rparr>"

definition mint_example :: MsgInstitutionMint where
  "mint_example = \<lparr>mm_Admin = ''op'', mm_Institution = ''bank'', mm_Recipient = ''cust'',
     mm_AmountToman = ''50000'', mm_DepositProof = [], mm_DepositRef = ''d1'', mm_FxCurrency = [],
     mm_FxAmount = [], mm_FxTxRef = [], mm_KycTier = 0\<rparr>"

definition minted_example :: world where
  "minted_example = (case InstitutionMint deps_example ictx_example world_example mint_example of
     Inr (_, w) \<Rightarrow> w | Inl _ \<Rightarrow> world_example)"

definition redeem_example :: MsgInstitutionRedeem where
  "redeem_example = \<lparr>md_Admin = ''cust'', md_Institution = ''bank'', md_Holder = ''cust'',
     md_AmountToman = ''40000'', md_RedeemRef = ''r1'', md_FxCurrency = [], md_FxAmount = [],
     md_FxTxRef = [], md_KycTier = 0\<rparr>"

lemma istate_example_eval:
  "kv_sorted (is_institutions istate_example) \<and> is_fx istate_example = []
   \<and> is_institutions istate_example = [(InstitutionKey ''bank'', inst_example)]
   \<and> is_params istate_example = None \<and> in_Id inst_example = ''bank''
   \<and> NewIntFromString (in_VaultBalance inst_example) = Some 100000
   \<and> NewIntFromString (in_AttestedReserve inst_example) = Some 900000"
  by code_simp

lemma DefaultParams_rate: "mp_PhiToToman inst_DefaultParams = 100000" "rate_ok inst_DefaultParams"
  by (simp_all add: inst_DefaultParams_def rate_ok_def UphiPerPhi_def)

lemma world_example_inv: "world_inv world_example"
  using istate_example_eval
  by (simp add: world_inv_def world_example_def inst_inv_def vault_ok_def inst_GetParams_def
      DefaultParams_rate solvent_def vault_total_def mustInt_def UphiPerPhi_def
      bank_inv_def total_balances_def kv_sorted_def)

lemma mint_example_eval:
  "mint_checks deps_example ictx_example istate_example mint_example
     = Inr (inst_example, 50000, 500000, 150000, ''cust'')
   \<and> isOK (mint_issue deps_example \<lparr>balances = [(''cust'', 1000000)], total_supply = 1000000\<rparr> ''cust'' 500000 1000)
   \<and> Int_String 500000 = ''500000'' \<and> ProtocolFee inst_DefaultParams 500000 = 1000
   \<and> CapInt (mp_LargeMintThresholdToman inst_DefaultParams) = 0
   \<and> NewIntFromString ''50000'' = Some 50000 \<and> NewIntFromString ''40000'' = Some 40000
   \<and> redeem_checks deps_example ictx_example istate_example redeem_example
       = Inr (inst_example, 40000, 400000, ''cust'')"
  by code_simp

lemma example_simps [simp]:
  "w_inst world_example = istate_example"
  "w_bank world_example = \<lparr>balances = [(''cust'', 1000000)], total_supply = 1000000\<rparr>"
  "inst_GetParams istate_example = inst_DefaultParams"
  "mp_PhiToToman inst_DefaultParams = 100000"
  "GetInstitution istate_example ''bank'' = Some inst_example"
  "in_Id inst_example = ''bank''"
  "mustInt (in_VaultBalance inst_example) = 100000"
  "mustInt (in_AttestedReserve inst_example) = 900000"
  "vault_total istate_example = 100000"
  using istate_example_eval
  by (simp_all add: world_example_def inst_GetParams_def DefaultParams_rate GetInstitution_def mustInt_def
      vault_total_def)

lemma example_amounts [simp]:
  "NewIntFromString ''50000'' = Some 50000" "NewIntFromString ''40000'' = Some 40000"
  using mint_example_eval by simp_all

lemma mint_example_run:
  "InstitutionMint deps_example ictx_example world_example mint_example = Inr (''500000'', minted_example)"
proof -
  obtain b where b: "mint_issue deps_example (w_bank world_example) ''cust'' 500000 1000 = Inr b"
    using mint_example_eval by (auto simp: isOK_iff)
  have g: "large_mint_gate deps_example (w_inst world_example) inst_example mint_example 50000
      = Inr (True, istate_example)"
    using mint_example_eval by (simp add: large_mint_gate_def)
  have "mint_checks deps_example ictx_example (w_inst world_example) mint_example
      = Inr (inst_example, 50000, 500000, 150000, ''cust'')"
    using mint_example_eval by simp
  from InstitutionMint_run(1) [OF world_example_inv this g, of b] b mint_example_eval
  show ?thesis by (simp add: minted_example_def)
qed

lemma redeem_example_run:
  "\<exists>out w'. InstitutionRedeem deps_example ictx_example world_example redeem_example = Inr (out, w')"
proof -
  have chk: "redeem_checks deps_example ictx_example (w_inst world_example) redeem_example
      = Inr (inst_example, 40000, 400000, ''cust'')"
    using mint_example_eval by simp
  have "isOK (redeem_settle deps_example (w_bank world_example) ''cust''
      (redeem_split ictx_example world_example redeem_example 400000))"
    by code_simp
  with InstitutionRedeem_run(1) [OF world_example_inv chk] show ?thesis
    by (auto simp: isOK_iff)
qed

end
