(* ===== verification/InstProps.thy ===== *)
theory InstProps
  imports InstExamples
begin

text \<open>
  Correctness of the institutions module: solvency over every run of the ledger, what a mint
  and a redemption do, replay protection, the multisig, caps, the emergency clock, removal and
  pruning.
\<close>

section \<open>Solvency\<close>

lemma inv_end_block:
  assumes "world_inv w"
  shows "inst_EndBlock (w_bank w) (w_inst w) = Inr ()"
proof -
  have i: "inst_inv (w_inst w)" "solvent (w_bank w) (w_inst w)" using assms by (simp_all add: world_inv_def)
  have "\<not> NonNegativeVaultInvariant (w_inst w)"
    using inst_inv_vaults [OF i(1)]
    by (fastforce simp: NonNegativeVaultInvariant_def list_ex_iff list_all_iff vault_ok_iff)
  with i show ?thesis
    by (simp add: inst_EndBlock_def inst_AllInvariants_def SolvencyInvariant_def SumVaultBalance_total
        solvent_def)
qed

text \<open>
  C12: solvency is an invariant of every run.  From a consistent state in which the supply in
  uphi times the rate equals the sum of the vault balances times 1,000,000, any sequence of
  mints, redemptions, registry, role, parameter and onboarding messages, coin transfers and
  revenue withdrawals, bank sends, block sweeps, compensated slashes and guarded governance
  burns ends in such a state, and the module's EndBlock check passes there.
\<close>
theorem reachable_solvent:
  assumes "world_inv w" "ledger_step\<^sup>*\<^sup>* w w'"
  shows "total_supply (w_bank w') * uint (mp_PhiToToman (inst_GetParams (w_inst w')))
      = vault_total (w_inst w') * UphiPerPhi
    \<and> inst_EndBlock (w_bank w') (w_inst w') = Inr ()"
  using ledger_steps_inv [OF assms(2,1)] inv_end_block by (simp add: world_inv_def solvent_def)

theorem reachable_solvent_witness:
  "ledger_step\<^sup>*\<^sup>* world_example minted_example
   \<and> inst_EndBlock (w_bank minted_example) (w_inst minted_example) = Inr ()"
proof -
  have "ledger_step\<^sup>*\<^sup>* world_example minted_example"
    using mint_example_run by (blast intro: step_mint)
  with reachable_solvent [OF world_example_inv this] show ?thesis by simp
qed

section \<open>Minting\<close>

lemma executed_mint:
  assumes inv: "world_inv w" and run: "InstitutionMint D c w m = Inr (out, w')" and ex: "out \<noteq> ''0''"
  obtains inst toman uphi newVault recipient s b where
    "mint_checks D c (w_inst w) m = Inr (inst, toman, uphi, newVault, recipient)"
    "large_mint_gate D (w_inst w) inst m toman = Inr (True, s)"
    "mint_issue D (w_bank w) recipient uphi (ProtocolFee (inst_GetParams s) uphi) = Inr b"
    "out = Int_String uphi" "w_bank w' = b" "w_inst w' = minted_state c s inst m toman recipient"
    "w_coin w' = AddCoins (w_coin w) (mm_Recipient m) (uphi - ProtocolFee (inst_GetParams s) uphi) (block_time c)"
  using run
proof (cases rule: InstitutionMint_cases)
  case pending
  with ex show ?thesis by simp
next
  case (executed inst toman uphi newVault recipient s b)
  with InstitutionMint_run(1) [OF inv executed] run show ?thesis by (auto intro!: that)
qed

text \<open>
  C13: an executed mint creates exactly the coin its deposit backs.  The supply grows by
  \<^verbatim>\<open>uphi\<close> with \<open>uphi \<cdot> rate = toman \<cdot> 1,000,000\<close>, the institution's vault grows
  by \<^verbatim>\<open>toman\<close> and stays within the reserve it attested, and the total of all vaults
  grows by the same amount.
\<close>
theorem mint_backed:
  assumes "world_inv w" "InstitutionMint D c w m = Inr (out, w')" "out \<noteq> ''0''"
  shows "\<exists>inst toman uphi inst'.
      GetInstitution (w_inst w) (mm_Institution m) = Some inst
    \<and> NewIntFromString (mm_AmountToman m) = Some toman \<and> 0 < toman
    \<and> uphi * uint (mp_PhiToToman (inst_GetParams (w_inst w))) = toman * UphiPerPhi
    \<and> out = Int_String uphi
    \<and> total_supply (w_bank w') = total_supply (w_bank w) + uphi
    \<and> vault_total (w_inst w') = vault_total (w_inst w) + toman
    \<and> GetInstitution (w_inst w') (mm_Institution m) = Some inst'
    \<and> mustInt (in_VaultBalance inst') = mustInt (in_VaultBalance inst) + toman
    \<and> mustInt (in_VaultBalance inst') \<le> mustInt (in_AttestedReserve inst')"
  using assms
proof (cases rule: executed_mint)
  case (1 inst toman uphi newVault recipient s b)
  have i: "inst_inv (w_inst w)" using assms(1) by (simp add: world_inv_def)
  note ok = mint_checks_ok [OF 1(1)]
  have core: "same_core (w_inst w) s" using gate_core [OF 1(2)] by blast
  note f = minted_state_facts [OF i core 1(1)]
  note r = inst_inv_rate [OF i]
  let ?inst' = "inst\<lparr>in_VaultBalance := Int_String newVault\<rparr>"
  have id: "in_Id inst = mm_Institution m" "vault_ok inst" using inst_inv_get [OF i ok(1)] by auto
  have v: "fits newVault"
    using id(2) ok(10,13,14) mustInt_fits [of "in_AttestedReserve inst"]
    by (auto simp: vault_ok_iff intro: fits_mono)
  have core2: "same_core (SetInstitution s ?inst') (w_inst w')"
    unfolding 1(6) minted_state_def ok(13) [symmetric] by (blast intro: same_core_trans core_intros)
  have g: "GetInstitution (w_inst w') (mm_Institution m) = Some ?inst'"
    unfolding same_core_get [OF core2] by (simp add: GetInstitution_def SetInstitution_def id)
  have u: "uphi * uint (mp_PhiToToman (inst_GetParams (w_inst w))) = toman * UphiPerPhi"
    using MintedUphi_exact [OF r, of toman] uphi_of_toman [OF r, of toman] ok(10,11) by simp
  have m: "mustInt (Int_String newVault) = newVault" by (rule mustInt_Int_String [OF v])
  show ?thesis
    by (intro exI [of _ inst] exI [of _ toman] exI [of _ uphi] exI [of _ ?inst'] conjI)
      (use ok 1 f g u m mint_issue_bank(1) [OF 1(3)] in \<open>simp_all\<close>)
qed

theorem mint_backed_witness:
  "\<exists>inst' uphi. GetInstitution (w_inst minted_example) ''bank'' = Some inst'
    \<and> mustInt (in_VaultBalance inst') = 150000
    \<and> total_supply (w_bank minted_example) = 1000000 + uphi \<and> uphi * 100000 = 50000 * UphiPerPhi"
  using mint_backed [OF world_example_inv mint_example_run]
  by (auto simp: mint_example_def example_simps)

lemma staleness_bound:
  assumes "\<not> IsAttestationStale la now th" "in_i64 la" "in_i64 now" "th \<le> MaxAttestationStalenessCeiling"
  shows "th = 0 \<or> 0 \<le> la \<and> now \<le> la + uint th"
proof (cases "th = 0 \<or> now < 0")
  case True
  have "0 \<le> uint th" by simp
  then have "now \<le> la + uint th" if "0 \<le> la" "now < 0" using that by linarith
  with True assms(1) show ?thesis
    by (auto simp: IsAttestationStale_def Let_def not_less split: if_splits)
next
  case False
  with assms(1) have l: "0 \<le> la" and d: "\<not> u64_of_int la + th < u64_of_int now"
    by (auto simp: IsAttestationStale_def Let_def split: if_splits)
  have t: "uint th \<le> 7776000"
    using assms(4) by (simp add: MaxAttestationStalenessCeiling_def word_le_def)
  have u: "uint (u64_of_int la) = la" "uint (u64_of_int now) = now"
    using l False assms(2,3) by (simp_all add: u64_of_int_def uint_word_of_int in_i64_def)
  have "uint (u64_of_int la + th) = la + uint th"
    using l t assms(2) u(1) by (simp add: uint_word_ariths in_i64_def)
  with d u l show ?thesis by (simp add: word_less_def)
qed

lemma word32_ge_two: "(2 :: 32 word) \<le> word_of_nat n \<Longrightarrow> 2 \<le> n"
  by (rule ccontr) (auto simp: not_le less_2_cases_iff word_le_def)

text \<open>
  C14: every accepted mint message, pending or executed, separates duties and rests on a live
  attestation.  The signer holds the OPERATOR or ADMIN role, is not the key that attested the
  reserve, at least two distinct admin addresses exist, the institution is neither frozen nor
  paused, and the attestation is no older than the limit in force.
\<close>
theorem mint_authorised:
  assumes "InstitutionMint D c w m = Inr (out, w')" "in_i64 (block_time c)"
    and "GetInstitution (w_inst w) (mm_Institution m) = Some inst" "in_i64 (in_LastAttestedAt inst)"
    and "th = EffectiveStaleness (mp_MaxAttestationStalenessSeconds (inst_GetParams (w_inst w)))
           (ip_MaxVaultAttestationLatencyS (in_Params inst))" "th \<le> MaxAttestationStalenessCeiling"
  shows "\<exists>minter attestor. AccAddressFromBech32 (D_env D) (mm_Admin m) = Some minter
    \<and> effectiveRole (D_env D) (w_inst w) inst minter \<in> {INSTITUTION_ROLE_OPERATOR, INSTITUTION_ROLE_ADMIN}
    \<and> LastAttestor (w_inst w) (in_Id inst) = Some attestor \<and> attestor \<noteq> minter
    \<and> 2 \<le> length (admin_addresses (D_env D) (w_inst w) inst)
    \<and> in_Status inst \<noteq> INSTITUTION_STATUS_FROZEN \<and> \<not> in_PausedMint inst
    \<and> (th = 0 \<or> 0 \<le> in_LastAttestedAt inst \<and> block_time c \<le> in_LastAttestedAt inst + uint th)"
proof -
  from assms(1) obtain inst' toman uphi newVault recipient where
      chk: "mint_checks D c (w_inst w) m = Inr (inst', toman, uphi, newVault, recipient)"
    by (cases rule: InstitutionMint_cases) auto
  note ok = mint_checks_ok [OF chk]
  have i: "inst' = inst" using ok(1) assms(3) by simp
  have st: "\<not> IsAttestationStale (in_LastAttestedAt inst) (block_time c) th"
    using ok(7) by (simp add: i IsStaleAt_def assms(5))
  show ?thesis
    using ok(2,5,6,8) staleness_bound [OF st assms(4,2,6)]
    by (auto simp: i requireRole_def requireMintSeparation_def countAdmins_def MinAdminsForMint_def not_less
        split: option.splits if_splits intro: word32_ge_two)
qed

theorem mint_authorised_witness:
  "\<exists>minter attestor. AccAddressFromBech32 (D_env deps_example) (mm_Admin mint_example) = Some minter
    \<and> LastAttestor istate_example ''bank'' = Some attestor \<and> attestor \<noteq> minter"
  using mint_authorised [OF mint_example_run _ _ _ refl, of inst_example]
  by (simp add: mint_example_def ictx_example_def in_i64_def inst_example_def new_institution_def
      EffectiveStaleness_def empty_inst_params_def inst_DefaultParams_def MaxAttestationStalenessCeiling_def)
    blast

section \<open>Redeeming\<close>

lemma burn_possible:
  assumes "0 \<le> n" "LockedCoins E (ModuleAddress E inst_ModuleName) = 0"
    "n \<le> GetBalance b (ModuleAddress E inst_ModuleName)"
  obtains b' where "BurnCoins E b inst_ModuleName n = Inr b'"
proof -
  obtain b1 where "subUnlockedCoins E b (ModuleAddress E inst_ModuleName) n = Inr b1"
    using assms by (cases "n = 0") (auto simp: subUnlockedCoins_ok setBalance_ok)
  with assms(1) show thesis
    using that by (simp add: BurnCoins_def maccPerms_def HasPermission_def inst_ModuleName_def)
qed

lemma settle_possible:
  assumes inv: "bank_inv b" and l: "0 \<le> LockedCoins (D_env D) holder"
    "LockedCoins (D_env D) (ModuleAddress (D_env D) inst_ModuleName) = 0"
    and bal: "rs_UphiIn sp \<le> GetBalance b holder - LockedCoins (D_env D) holder"
    and sp: "0 \<le> rs_Carved sp" "0 \<le> rs_Burned sp" "rs_Burned sp + rs_Carved sp = rs_UphiIn sp"
  obtains b' where "redeem_settle D b holder sp = Inr b'"
proof -
  let ?E = "D_env D" and ?M = "ModuleAddress (D_env D) inst_ModuleName"
    and ?R = "ModuleAddress (D_env D) RevenueAccountName"
  have perm: "map_of maccPerms inst_ModuleName \<noteq> None" "map_of maccPerms RevenueAccountName \<noteq> None"
    by (simp_all add: maccPerms_def inst_ModuleName_def RevenueAccountName_def)
  obtain b1 where b1: "SendCoins ?E b holder ?M (rs_UphiIn sp) = Inr b1"
    using send_possible [OF inv _ l(1) bal] sp by (metis add_nonneg_nonneg)
  have i1: "bank_inv b1" by (rule ledger.send_inv [OF inv b1])
  have m1: "rs_UphiIn sp \<le> GetBalance b1 ?M"
    using send_balances [OF b1, of ?M] bank_inv_nonneg [OF inv, of ?M] bal l(1) by auto
  obtain b2 where b2: "SendCoins ?E b1 ?M ?R (rs_Carved sp) = Inr b2"
    using send_possible [OF i1 sp(1), of ?E ?M ?R] l(2) m1 sp by auto
  have "rs_Burned sp \<le> GetBalance (if 0 < rs_Carved sp then b2 else b1) ?M"
    using send_balances [OF b2, of ?M] m1 sp by auto
  with burn_possible [OF sp(2) l(2)] obtain b3 where
      "BurnCoins ?E (if 0 < rs_Carved sp then b2 else b1) inst_ModuleName (rs_Burned sp) = Inr b3" by blast
  with b1 b2 perm show thesis
    using that by (cases "0 < rs_Carved sp")
      (auto simp: redeem_settle_def Let_def SendCoinsFromAccountToModule_def SendCoinsFromModuleToModule_def)
qed

text \<open>
  C15: a redemption that passes its checks always settles.  The holder's spendable balance
  covers it, so the handler returns, burns a positive whole number of tomans' worth of coin,
  pays out exactly that from the vault, records the reference, and leaves the ledger consistent.  Neither the institution's status nor
  a pause is consulted.
\<close>
theorem redeem_goes_through:
  assumes "world_inv w" "redeem_checks D c (w_inst w) m = Inr (inst, toman, uphi, holder)"
    and "uphi \<le> GetBalance (w_bank w) holder - LockedCoins (D_env D) holder"
    and "0 \<le> LockedCoins (D_env D) holder"
    and "LockedCoins (D_env D) (ModuleAddress (D_env D) inst_ModuleName) = 0"
  shows "\<exists>burned payout w'. InstitutionRedeem D c w m = Inr (Int_String burned, w')
    \<and> 0 < burned \<and> burned \<le> uphi
    \<and> payout * UphiPerToman (mp_PhiToToman (inst_GetParams (w_inst w))) = burned
    \<and> total_supply (w_bank w') = total_supply (w_bank w) - burned
    \<and> vault_total (w_inst w') = vault_total (w_inst w) - payout
    \<and> depositSeen (w_inst w') (md_Institution m) ''redeem'' (md_RedeemRef m)
    \<and> world_inv w'"
proof -
  let ?sp = "redeem_split c w m uphi"
  have i: "inst_inv (w_inst w)" "bank_inv (w_bank w)" using assms(1) by (simp_all add: world_inv_def)
  note s = redeem_split_ok [OF i(1) assms(2)]
  have bal: "rs_UphiIn ?sp \<le> GetBalance (w_bank w) holder - LockedCoins (D_env D) holder"
    using s(7) assms(3) by simp
  obtain b where b: "redeem_settle D (w_bank w) holder ?sp = Inr b"
    using settle_possible [OF i(2) assms(4,5) bal s(6)] s(1,5,7) by auto
  note run = InstitutionRedeem_run [OF assms(1,2) b]
  note f = redeemed_state_facts [OF i(1) assms(2) s(3,4)]
  from InstitutionRedeem_inv [OF run(1) assms(1)] run(1,4) f(2,4) s show ?thesis
    by (intro exI [of _ "rs_Burned ?sp"] exI [of _ "rs_TomanOut ?sp"] exI conjI) auto
qed

theorem redeem_goes_through_witness:
  "\<exists>burned w'. InstitutionRedeem deps_example ictx_example world_example redeem_example
      = Inr (Int_String burned, w') \<and> 0 < burned \<and> burned \<le> 400000 \<and> world_inv w'"
  using redeem_goes_through [of world_example deps_example ictx_example redeem_example inst_example
      40000 400000 "''cust''"] world_example_inv mint_example_eval
  by (simp add: deps_example_def ienv_example_def GetBalance_def) blast

section \<open>Replay protection\<close>

lemma deposit_frame [simp]:
  "is_deposits (SetInstitution s inst) = is_deposits s"
  "is_deposits (clearApprovals s i ch) = is_deposits s"
  "is_deposits (bumpAdminEpoch s i) = is_deposits s"
  "is_deposits (SetRole E s i a r) = is_deposits s"
  "is_deposits (DeleteRole s i a) = is_deposits s"
  "is_deposits (SetLastAttestor s i a) = is_deposits s"
  "is_deposits (SetFxRequest s req) = is_deposits s"
  "is_deposits (DeleteFxRequest s i) = is_deposits s"
  "is_deposits (removeInstitutionSingleRecords s i) = is_deposits s"
  "is_deposits (enqueueRemoval s i) = is_deposits s"
  "is_deposits (dequeueRemoval s i) = is_deposits s"
  "is_deposits (addMintCounters c s inst a n) = is_deposits s"
  "is_deposits (addRedeemCounters D c s inst a n u) = is_deposits s"
  "is_deposits (PruneStaleCounters c s) = is_deposits s"
  "is_deposits (snd (recordApproval E s inst ch a)) = is_deposits s"
  by (simp_all add: SetInstitution_def clearApprovals_def bumpAdminEpoch_def SetRole_def DeleteRole_def
      SetLastAttestor_def SetFxRequest_def DeleteFxRequest_def removeInstitutionSingleRecords_def
      enqueueRemoval_def dequeueRemoval_def addMintCounters_def addRedeemCounters_def addCounterTotal_def
      addCounterUser_def addRedeemSubjectTotal_def PruneStaleCounters_def pruneCounterPrefix_def
      pruneRedeemSubjectCounters_def recordApproval_def Let_def split: prod.splits option.splits)

lemma trySensitive_deposits: "trySensitive D s inst sg ch = Inr (r, s1) \<Longrightarrow> is_deposits s1 = is_deposits s"
  by (auto simp: trySensitive_ok)

lemma sweep_loop_deposits: "is_deposits (sweep_loop n s) = is_deposits s"
proof (induction n s rule: sweep_loop.induct)
  case (1 budget s)
  have d: "is_deposits s1 = is_deposits s" if "drainInstitutionRanged s i n = (k, s1)" for i n k s1
    using that by (auto simp: drainInstitutionRanged_def split: prod.splits)
  show ?case
    using 1 by (auto simp: sweep_loop.simps [of budget s] d split: option.splits prod.splits)
qed

lemma handlers_keep_deposits:
  "RegisterInstitution D c s m3 = Inr s' \<Longrightarrow> is_deposits s' = is_deposits s"
  "RemoveInstitution D s m4 = Inr s' \<Longrightarrow> is_deposits s' = is_deposits s"
  "FreezeInstitution D s m5 = Inr s' \<Longrightarrow> is_deposits s' = is_deposits s"
  "inst_SetParams E s p = Inr s' \<Longrightarrow> is_deposits s' = is_deposits s"
  "GrantInstitutionRole D s m8 = Inr (r, s') \<Longrightarrow> is_deposits s' = is_deposits s"
  "RevokeInstitutionRole D s m9 = Inr (r, s') \<Longrightarrow> is_deposits s' = is_deposits s"
  "UpdateInstitutionAppConfig D s sg i cf = Inr (r, s') \<Longrightarrow> is_deposits s' = is_deposits s"
  "UpdateInstitutionParams D s sg i ip = Inr (r, s') \<Longrightarrow> is_deposits s' = is_deposits s"
  "SetInstitutionDepositKey D s sg i k = Inr (r, s') \<Longrightarrow> is_deposits s' = is_deposits s"
  "RequestFxEntry s m10 = Inr s' \<Longrightarrow> is_deposits s' = is_deposits s"
  "GuaranteeFxEntry D s m11 = Inr s' \<Longrightarrow> is_deposits s' = is_deposits s"
  by (auto simp: RegisterInstitution_def RemoveInstitution_def FreezeInstitution_def inst_SetParams_def
      GrantInstitutionRole_def RevokeInstitutionRole_def UpdateInstitutionAppConfig_def
      UpdateInstitutionParams_def SetInstitutionDepositKey_def RequestFxEntry_def GuaranteeFxEntry_def
      Let_def bindE_Inr_iff dest!: trySensitive_deposits split: if_splits option.splits)

lemma handlers_keep_deposits2:
  "PublishInstitutionAttestation D c s m6 = Inr s' \<Longrightarrow> is_deposits s' = is_deposits s"
  "FinalizeFxEntry D c s m12 = Inr s' \<Longrightarrow> is_deposits s' = is_deposits s"
  by (erule PublishInstitutionAttestation_ok FinalizeFxEntry_ok, simp)+

lemma mint_redeem_keep_markers:
  "InstitutionMint D c w m1 = Inr (out, w') \<Longrightarrow> world_inv w \<Longrightarrow> kv_has (is_deposits (w_inst w)) k
    \<Longrightarrow> kv_has (is_deposits (w_inst w')) k"
  "InstitutionRedeem D c w m2 = Inr (out, w') \<Longrightarrow> world_inv w \<Longrightarrow> kv_has (is_deposits (w_inst w)) k
    \<Longrightarrow> kv_has (is_deposits (w_inst w')) k"
proof -
  assume run: "InstitutionMint D c w m1 = Inr (out, w')" and inv: "world_inv w"
    and k: "kv_has (is_deposits (w_inst w)) k"
  from run show "kv_has (is_deposits (w_inst w')) k"
  proof (cases rule: InstitutionMint_cases)
    case pending
    with gate_core [OF pending(2)] k show ?thesis by simp
  next
    case executed
    with InstitutionMint_run(1) [OF inv executed] gate_core [OF executed(2)] run k show ?thesis
      by (simp add: minted_state_def markDeposit_def)
  qed
next
  assume run: "InstitutionRedeem D c w m2 = Inr (out, w')" and inv: "world_inv w"
    and k: "kv_has (is_deposits (w_inst w)) k"
  from run show "kv_has (is_deposits (w_inst w')) k"
  proof (cases rule: InstitutionRedeem_cases)
    case 1
    with InstitutionRedeem_run(1) [OF inv 1] run k show ?thesis
      by (simp add: redeemed_state_def markDeposit_def)
  qed
qed

lemma ledger_step_markers:
  assumes "ledger_step w w'" "world_inv w" "kv_has (is_deposits (w_inst w)) k"
  shows "kv_has (is_deposits (w_inst w')) k"
  using assms(1)
proof cases
  case step_mint then show ?thesis using mint_redeem_keep_markers(1) assms by blast
next
  case step_redeem then show ?thesis using mint_redeem_keep_markers(2) assms by blast
next
  case step_params
  then show ?thesis using handlers_keep_deposits(4) [OF inst_UpdateParams_set] assms(3) by auto
next
  case step_emergency
  then show ?thesis using assms(3)
    by (auto elim!: SetEmergencyRedemption_set dest: handlers_keep_deposits(4))
next
  case step_begin_block
  then show ?thesis
    using assms(3) by (simp add: inst_BeginBlock_def SweepRemovals_def sweep_loop_deposits)
qed (use assms(3) in \<open>auto dest: handlers_keep_deposits handlers_keep_deposits2\<close>)

lemma ledger_steps_markers:
  assumes "ledger_step\<^sup>*\<^sup>* w w'" "world_inv w" "kv_has (is_deposits (w_inst w)) k"
  shows "world_inv w' \<and> kv_has (is_deposits (w_inst w')) k"
  using assms by (induction rule: rtranclp_induct) (auto intro: ledger_step_inv ledger_step_markers)

text \<open>
  C16: a deposit reference is minted against at most once.  After a mint has executed, no later
  mint for the same institution id and reference is accepted, whatever happens in between,
  including the removal and re-registration of the institution.
\<close>
theorem deposit_mints_once:
  assumes "world_inv w" "InstitutionMint D c w m = Inr (out, w1)" "out \<noteq> ''0''"
    and "ledger_step\<^sup>*\<^sup>* w1 w2"
    and "mm_Institution m2 = mm_Institution m" "mm_DepositRef m2 = mm_DepositRef m"
  shows "\<exists>e. InstitutionMint D2 c2 w2 m2 = Inl e"
proof (rule ccontr)
  assume "\<not> ?thesis"
  then obtain out2 w3 where run2: "InstitutionMint D2 c2 w2 m2 = Inr (out2, w3)"
    by (metis sumE prod.exhaust)
  have seen: "depositSeen (w_inst w1) (mm_Institution m) ''mint'' (mm_DepositRef m)"
    using assms(1-3)
  proof (cases rule: executed_mint)
    case (1 inst toman uphi newVault recipient s b)
    have "inst_inv (w_inst w)" "same_core (w_inst w) s"
      using assms(1) gate_core [OF 1(2)] by (simp_all add: world_inv_def)
    from minted_state_facts(4) [OF this 1(1)] 1(6) show ?thesis by simp
  qed
  have "world_inv w1" by (rule InstitutionMint_inv [OF assms(2,1)])
  with ledger_steps_markers [OF assms(4)] seen
  have w2: "world_inv w2" "depositSeen (w_inst w2) (mm_Institution m) ''mint'' (mm_DepositRef m)"
    by (auto simp: depositSeen_def)
  from run2 obtain inst toman uphi newVault recipient where
      chk: "mint_checks D2 c2 (w_inst w2) m2 = Inr (inst, toman, uphi, newVault, recipient)"
    by (cases rule: InstitutionMint_cases) auto
  note ok = mint_checks_ok [OF chk]
  have "in_Id inst = mm_Institution m2"
    using inst_inv_get [OF _ ok(1)] w2(1) by (simp add: world_inv_def)
  with ok(4) w2(2) assms(5,6) show False by simp
qed

theorem deposit_mints_once_witness:
  "\<exists>e. InstitutionMint deps_example ictx_example minted_example mint_example = Inl e"
  using deposit_mints_once [OF world_example_inv mint_example_run _ rtranclp.rtrancl_refl refl refl] by simp

end
