(* ===== verification/InstGuards.thy ===== *)
theory InstGuards
  imports InstExamples
begin

text \<open>
  The guards of the institutions module: the multisig behind sensitive actions, the redemption
  caps and the floor beneath them, and the emergency brake's clock.
\<close>

section \<open>The multisig\<close>

lemma dec64_full: "length v = 8 \<Longrightarrow> be64 (dec64 v) = v"
proof -
  assume v: "length v = 8"
  have "be_dec v < 256 ^ 8" using be_dec_less [of v] v by simp
  then have "unat (dec64 v) = be_dec v" using v by (simp add: dec64_def unat_word64_of_nat)
  then show "be64 (dec64 v) = v" using be_be_dec [OF v] by (simp add: be64_def)
qed

lemma effectiveRole_approvals [simp]:
  "effectiveRole E (s\<lparr>is_approvals := x\<rparr>) inst a = effectiveRole E s inst a"
  by (simp add: effectiveRole_def GetRole_def)

lemma adminEpoch_approvals [simp]: "adminEpoch (s\<lparr>is_approvals := x\<rparr>) i = adminEpoch s i"
  by (simp add: adminEpoch_def)

text \<open>The signers whose approval of an action counts: current admins, at the current epoch.\<close>

definition approvers :: "sdk_env \<Rightarrow> inst_state \<Rightarrow> Institution \<Rightarrow> bytes \<Rightarrow> bytes set" where
  "approvers E s inst ch = {a. effectiveRole E s inst a = INSTITUTION_ROLE_ADMIN
     \<and> kv_get (is_approvals s) (ApprovalKey (in_Id inst) ch a) = Some (be64 (adminEpoch s (in_Id inst)))}"

lemma ApprovalKey_split: "ApprovalKey i ch a = ApprovalPrefixFor i ch @ a"
  by (simp add: ApprovalKey_def ApprovalPrefixFor_def)

lemma countApprovals_card:
  assumes "kv_sorted (is_approvals s)"
  shows "countApprovals E s inst ch = word_of_nat (card (approvers E s inst ch))"
    and "finite (approvers E s inst ch)"
proof -
  let ?pre = "ApprovalPrefixFor (in_Id inst) ch" and ?ep = "adminEpoch s (in_Id inst)"
  define ok where "ok = (\<lambda>(key, v). length v = 8 \<and> dec64 v = ?ep \<and>
      effectiveRole E s inst (drop (length ?pre) key) = INSTITUTION_ROLE_ADMIN)"
  define L where "L = filter ok (kv_prefix (is_approvals s) ?pre)"
  have sorted: "kv_sorted L"
    unfolding L_def kv_prefix_def by (intro kv_sorted_filter assms)
  have dist: "distinct (map fst L)" by (rule kv.entries_distinct [OF sorted])
  have pre: "prefix ?pre (fst e)" if "e \<in> set L" for e
    using that by (simp add: L_def kv_prefix_def)
  have inj: "inj_on (\<lambda>e. drop (length ?pre) (fst e)) (set L)"
  proof (rule inj_onI)
    fix x y assume xy: "x \<in> set L" "y \<in> set L" "drop (length ?pre) (fst x) = drop (length ?pre) (fst y)"
    then have "fst x = fst y" using pre by (metis append_eq_conv_conj prefix_def)
    with xy(1,2) dist show "x = y" by (metis distinct_map inj_onD)
  qed
  have img: "(\<lambda>e. drop (length ?pre) (fst e)) ` set L = approvers E s inst ch"
  proof (rule set_eqI, rule iffI)
    fix a assume "a \<in> (\<lambda>e. drop (length ?pre) (fst e)) ` set L"
    then obtain k v where e: "(k, v) \<in> set L" "a = drop (length ?pre) k" by auto
    then have "k = ?pre @ a" using pre [OF e(1)] by (auto simp: prefix_def)
    moreover have "v = be64 ?ep" "effectiveRole E s inst a = INSTITUTION_ROLE_ADMIN" "(k, v) \<in> set (is_approvals s)"
      using e dec64_full [of v] by (auto simp: L_def ok_def kv_prefix_def)
    ultimately show "a \<in> approvers E s inst ch"
      using kv_get_mem [OF assms] by (simp add: approvers_def ApprovalKey_split)
  next
    fix a assume "a \<in> approvers E s inst ch"
    then have a: "effectiveRole E s inst a = INSTITUTION_ROLE_ADMIN" "(?pre @ a, be64 ?ep) \<in> set (is_approvals s)"
      using kv_get_mem [OF assms] by (auto simp: approvers_def ApprovalKey_split)
    then have "(?pre @ a, be64 ?ep) \<in> set L" by (simp add: L_def ok_def kv_prefix_def)
    then show "a \<in> (\<lambda>e. drop (length ?pre) (fst e)) ` set L" by force
  qed
  show "finite (approvers E s inst ch)" using img by (metis finite_imageI finite_set)
  have "length L = card (set L)" using dist by (simp add: distinct_card distinct_map)
  also have "\<dots> = card (approvers E s inst ch)" using card_image [OF inj] img by simp
  finally show "countApprovals E s inst ch = word_of_nat (card (approvers E s inst ch))"
    by (simp add: countApprovals_def Let_def L_def ok_def)
qed

text \<open>
  C17: a sensitive action executes only with the approval of enough distinct current admins.
  When the multisig reports execution, the signer is an admin, and the admins whose approval of
  this very action is recorded at the current admin epoch, the signer among them, number at
  least the effective threshold.
\<close>
theorem sensitive_needs_admins:
  assumes "trySensitive D s inst signerBech ch = Inr (r, s1)" "sr_executed r"
    and "kv_sorted (is_approvals s)"
  shows "\<exists>signer. AccAddressFromBech32 (D_env D) signerBech = Some signer
    \<and> signer \<in> approvers (D_env D) s1 inst ch
    \<and> finite (approvers (D_env D) s1 inst ch)
    \<and> unat (effectiveThreshold (D_env D) s1 inst) \<le> card (approvers (D_env D) s1 inst ch)
    \<and> (\<forall>a \<in> approvers (D_env D) s1 inst ch. effectiveRole (D_env D) s inst a = INSTITUTION_ROLE_ADMIN)"
proof -
  let ?E = "D_env D"
  from assms(1) obtain a where a: "AccAddressFromBech32 ?E signerBech = Some a"
      and role: "effectiveRole ?E s inst a = INSTITUTION_ROLE_ADMIN"
      and s1: "s1 = s\<lparr>is_approvals := kv_set (is_approvals s) (ApprovalKey (in_Id inst) ch a)
                        (be64 (adminEpoch s (in_Id inst)))\<rparr>"
      and r: "sr_executed r \<longleftrightarrow> effectiveThreshold ?E s1 inst \<le> countApprovals ?E s1 inst ch"
    by (auto simp: trySensitive_ok recordApproval_def Let_def requireRole_def split: if_splits)
  have sorted: "kv_sorted (is_approvals s1)" using assms(3) by (simp add: s1)
  note c = countApprovals_card [OF sorted, of ?E inst ch]
  have "unat (effectiveThreshold ?E s1 inst) \<le> unat (countApprovals ?E s1 inst ch)"
    using r assms(2) by (simp add: word_le_nat_alt)
  also have "\<dots> \<le> card (approvers ?E s1 inst ch)"
    unfolding c(1) by (simp add: unat_of_nat)
  finally have "unat (effectiveThreshold ?E s1 inst) \<le> card (approvers ?E s1 inst ch)" .
  moreover have "a \<in> approvers ?E s1 inst ch" using role by (simp add: approvers_def s1)
  ultimately show ?thesis using a c(2) by (auto simp: approvers_def s1)
qed

definition solo_example :: inst_state where
  "solo_example = SetInstitution empty_inst_state inst_example"

text \<open>With the root as its only admin, an institution's threshold is one.\<close>

lemma solo_example_simps [simp]:
  "is_approvals solo_example = []" "is_roles solo_example = []" "is_epochs solo_example = []"
  "GetInstitution solo_example ''bank'' = Some inst_example"
  by (simp_all add: solo_example_def SetInstitution_def empty_inst_state_def GetInstitution_def)

lemma solo_sensitive:
  "trySensitive deps_example solo_example inst_example ''root'' ch =
    Inr (\<lparr>sr_executed = True, sr_approvals = 1, sr_threshold = 1\<rparr>,
         solo_example\<lparr>is_approvals := [(ApprovalKey ''bank'' ch ''root'', be64 0)]\<rparr>)"
proof -
  have [simp]: "in_Admin inst_example = ''root''" "ip_SensitiveThreshold (in_Params inst_example) = 0"
    by (simp_all add: inst_example_def new_institution_def empty_inst_params_def)
  have [simp]: "adminEpoch solo_example ''bank'' = 0" by (simp add: adminEpoch_def)
  have [simp]: "effectiveRole ienv_example s inst_example ''root'' = INSTITUTION_ROLE_ADMIN" for s
    by (simp add: effectiveRole_def ienv_example_def)
  have [simp]: "AccAddressFromBech32 ienv_example ''root'' = Some ''root''"
    by (simp add: ienv_example_def)
  have "(1 :: 32 word) < 2" by (simp add: word_less_def)
  then show ?thesis
    by (simp add: trySensitive_def recordApproval_def requireRole_def countApprovals_def
        effectiveThreshold_def countAdmins_def admin_addresses_def IterateRolesFor_def kv_prefix_def
        ApprovalKey_split Let_def DefaultSensitiveThreshold_def deps_example_def)
qed

theorem sensitive_needs_admins_witness:
  "\<exists>signer. AccAddressFromBech32 ienv_example ''root'' = Some signer
     \<and> signer \<in> approvers ienv_example
         (solo_example\<lparr>is_approvals := [(ApprovalKey ''bank'' ''h'' ''root'', be64 0)]\<rparr>) inst_example ''h''"
  using sensitive_needs_admins [OF solo_sensitive, of "''h''"]
  by (auto simp: deps_example_def)

text \<open>
  A state in which no recorded approval of the institution is ahead of its admin epoch; the
  handlers only ever record the epoch of the moment, and the epoch only grows.
\<close>

definition approvals_current :: "inst_state \<Rightarrow> string \<Rightarrow> bool" where
  "approvals_current s i \<longleftrightarrow> (\<forall>(k, v) \<in> set (is_approvals s).
     prefix (ApprovalInstitutionPrefixFor i) k \<longrightarrow> length v = 8 \<and> dec64 v \<le> adminEpoch s i)"

lemma approvals_current_delete:
  "approvals_current s i \<Longrightarrow> approvals_current (s\<lparr>is_approvals := kv_delete_all (is_approvals s) ks\<rparr>) i"
  by (auto simp: approvals_current_def kv_delete_all_filter)

lemma approvals_current_record:
  "approvals_current s (in_Id inst) \<Longrightarrow>
    approvals_current (snd (recordApproval E s inst ch a)) (in_Id inst)"
  using set_kv_set_subset [of "is_approvals s" "ApprovalKey (in_Id inst) ch a" "be64 (adminEpoch s (in_Id inst))"]
  by (fastforce simp: approvals_current_def recordApproval_def Let_def)

lemma adminEpoch_bump: "adminEpoch (bumpAdminEpoch s i) i = adminEpoch s i + 1"
  by (simp add: adminEpoch_def bumpAdminEpoch_def)

lemma less_word_inc: "(w :: 64 word) \<noteq> - 1 \<Longrightarrow> w < w + 1"
  by (metis lessI unat_inc word_less_nat_alt word_order.not_eq_extremum Suc_eq_plus1)

lemma bump_voids:
  assumes "approvals_current s i" "adminEpoch s i \<noteq> - 1" "in_Id inst = i"
  shows "countApprovals E (bumpAdminEpoch s i) inst ch = 0" "approvals_current (bumpAdminEpoch s i) i"
proof -
  let ?s = "bumpAdminEpoch s i"
  have lt: "adminEpoch s i < adminEpoch s i + 1"
    using assms(2) by (simp add: less_word_inc)
  have ap: "is_approvals ?s = is_approvals s" by (simp add: bumpAdminEpoch_def)
  have old: "length v = 8 \<and> dec64 v < adminEpoch ?s i"
    if "(k, v) \<in> set (is_approvals s)" "prefix (ApprovalInstitutionPrefixFor i) k" for k v
    using assms(1) that lt unfolding adminEpoch_bump approvals_current_def by fastforce
  then show "approvals_current ?s i" by (fastforce simp: approvals_current_def ap)
  have "prefix (ApprovalPrefixFor i ch) k \<Longrightarrow> prefix (ApprovalInstitutionPrefixFor i) k" for k
    by (auto simp: prefix_def ApprovalPrefixFor_def ApprovalInstitutionPrefixFor_def)
  with old have "filter (\<lambda>(key, v). length v = 8 \<and> dec64 v = adminEpoch ?s i \<and>
        effectiveRole E ?s inst (drop (length (ApprovalPrefixFor i ch)) key) = INSTITUTION_ROLE_ADMIN)
      (kv_prefix (is_approvals s) (ApprovalPrefixFor i ch)) = []"
    by (fastforce simp: filter_empty_conv kv_prefix_def)
  then show "countApprovals E ?s inst ch = 0"
    by (simp add: countApprovals_def Let_def ap assms(3))
qed

text \<open>
  C18: an executed change of the admin set voids every pending approval.  After an ADMIN grant,
  no approval of any action of that institution counts any longer, so a sub-threshold set of
  approvals collected under the old admins can never execute under the new ones.
\<close>
theorem admin_grant_voids_pending:
  assumes "GrantInstitutionRole D s m = Inr (r, s')" "sr_executed r" "mg_Role m = INSTITUTION_ROLE_ADMIN"
    and "GetInstitution s (mg_Institution m) = Some inst"
    and "approvals_current s (in_Id inst)" "adminEpoch s (in_Id inst) \<noteq> - 1"
  shows "countApprovals (D_env D) s' inst ch = 0 \<and> approvals_current s' (in_Id inst)
    \<and> adminEpoch s' (in_Id inst) = adminEpoch s (in_Id inst) + 1"
proof -
  let ?i = "in_Id inst"
  from assms(1-4) obtain h s1 g a where t: "trySensitive D s inst (mg_Signer m) h = Inr (r, s1)"
      and s1: "s1 = snd (recordApproval (D_env D) s inst h a)"
      and s': "s' = bumpAdminEpoch (clearApprovals (SetRole (D_env D) s1 ?i g INSTITUTION_ROLE_ADMIN) ?i h) ?i"
    by (auto simp: GrantInstitutionRole_def Let_def bindE_Inr_iff trySensitive_ok split: option.splits if_splits)
  let ?t = "clearApprovals (SetRole (D_env D) s1 ?i g INSTITUTION_ROLE_ADMIN) ?i h"
  have ep: "adminEpoch ?t ?i = adminEpoch s ?i"
    by (simp add: adminEpoch_def clearApprovals_def SetRole_def s1 recordApproval_def Let_def)
  have "approvals_current s1 ?i" unfolding s1 by (rule approvals_current_record [OF assms(5)])
  then have "approvals_current (SetRole (D_env D) s1 ?i g INSTITUTION_ROLE_ADMIN) ?i"
    by (simp add: approvals_current_def SetRole_def adminEpoch_def)
  then have cur: "approvals_current ?t ?i"
    unfolding clearApprovals_def by (rule approvals_current_delete)
  from bump_voids [OF cur, of inst] ep assms(6) adminEpoch_bump [of ?t ?i] show ?thesis
    unfolding s' by simp
qed

definition grant_example :: MsgGrantInstitutionRole where
  "grant_example = \<lparr>mg_Signer = ''root'', mg_Institution = ''bank'', mg_Grantee = ''adm2'',
     mg_Role = INSTITUTION_ROLE_ADMIN\<rparr>"

definition granted_example :: inst_state where
  "granted_example = (case GrantInstitutionRole deps_example solo_example grant_example of
     Inr (_, s) \<Rightarrow> s | Inl _ \<Rightarrow> solo_example)"

theorem admin_grant_voids_pending_witness:
  "adminEpoch granted_example ''bank'' = 1 \<and> countApprovals ienv_example granted_example inst_example ''h'' = 0"
proof -
  obtain r where r: "GrantInstitutionRole deps_example solo_example grant_example = Inr (r, granted_example)"
      "sr_executed r"
    by (simp add: granted_example_def GrantInstitutionRole_def grant_example_def solo_sensitive Let_def)
      (simp add: deps_example_def ienv_example_def)
  have "adminEpoch solo_example ''bank'' = 0" "approvals_current solo_example ''bank''"
    by (simp_all add: adminEpoch_def approvals_current_def)
  with admin_grant_voids_pending [OF r, of inst_example "''h''"] show ?thesis
    by (simp add: grant_example_def deps_example_def)
qed

section \<open>Redemption caps\<close>

lemma AtLeastFloor_floor: "0 < floor \<Longrightarrow> 0 < AtLeastFloor c floor \<Longrightarrow> floor \<le> AtLeastFloor c floor"
  by (auto simp: AtLeastFloor_def)

lemma CapInt_nonneg: "0 \<le> CapInt s"
  by (auto simp: CapInt_def split: option.splits)

lemma RedeemFloorUphi_rate:
  assumes "rate_ok p" "0 < CapInt (mp_RedeemFloorPerTx p)"
  shows "RedeemFloorUphi p = CapInt (mp_RedeemFloorPerTx p) * UphiPerToman (mp_PhiToToman p)"
proof -
  have "mp_PhiToToman p \<noteq> 0" using assms(1) by (auto simp: rate_ok_def)
  with MintedUphi_exact [OF assms(1), of "CapInt (mp_RedeemFloorPerTx p)"] assms(2) show ?thesis
    by (auto simp: RedeemFloorUphi_def MintedUphiForToman_def Let_def)
qed

text \<open>
  C19: no configuration can cap a small holder out.  Outside an emergency, while a holder's
  redemptions of the day stay within the protocol floor, the cap check accepts the redemption,
  whatever per-transaction, daily, per-user or KYC limits the institution has set and however
  much of its daily total others have used.
\<close>
theorem floor_redemption_never_capped:
  assumes "rate_ok (inst_GetParams s)" "\<not> em_Active (mp_EmergencyRedemption (inst_GetParams s))"
    and "floor = CapInt (mp_RedeemFloorPerTx (inst_GetParams s))" "0 < floor"
    and "uphi = toman * UphiPerToman (mp_PhiToToman (inst_GetParams s))"
    and "0 \<le> getCounterUser s (in_Id inst) ''ru'' (dayIndex c) holder"
    and "getCounterUser s (in_Id inst) ''ru'' (dayIndex c) holder + toman \<le> floor"
    and "redeemSubject D holder = (kind, subject)"
    and "getRedeemSubjectTotal s (dayIndex c) kind subject + uphi \<le> RedeemFloorUphi (inst_GetParams s)"
  shows "enforceRedeemCaps D c s inst holder toman uphi = Inr ()"
proof -
  let ?p = "inst_GetParams s" and ?caps = "ip_Caps (in_Params inst)"
  have k: "0 < UphiPerToman (mp_PhiToToman ?p)" by (rule rate_factor(2) [OF assms(1)])
  have fu: "RedeemFloorUphi ?p = floor * UphiPerToman (mp_PhiToToman ?p)"
    using RedeemFloorUphi_rate [OF assms(1)] assms(3,4) by simp
  have pos: "0 < RedeemFloorUphi ?p" using fu k assms(4) by simp
  have res: "withinFloorReservation D c s holder uphi"
    using MintedUphi_exact [OF assms(1), of floor] assms(3,4,8,9) fu pos
    by (simp add: withinFloorReservation_def Let_def)
  have lim: "\<not> (0 < AtLeastFloor l floor \<and> AtLeastFloor l floor < toman)"
      "\<not> (0 < AtLeastFloor l floor \<and> AtLeastFloor l floor
           < getCounterUser s (in_Id inst) ''ru'' (dayIndex c) holder + toman)" for l
    using AtLeastFloor_floor [OF assms(4), of l] assms(6,7) by linarith+
  have did: "\<not> (0 < AtLeastFloor l (RedeemFloorUphi ?p) \<and> AtLeastFloor l (RedeemFloorUphi ?p)
       < getRedeemSubjectTotal s (dayIndex c) kind subject + uphi)" for l
    using AtLeastFloor_floor [OF pos, of l] assms(9) by linarith
  show ?thesis
    unfolding enforceRedeemCaps_def Let_def assms(3) [symmetric] assms(8)
    using lim did res assms(2) by (simp only: if_False simp_thms if_cancel prod.case)
qed

lemma istate_example_stores [simp]:
  "is_counters istate_example = []" "is_subjects istate_example = []"
  by (simp_all add: istate_example_def SetLastAttestor_def SetRole_def SetInstitution_def empty_inst_state_def)

lemma floor_eval:
  "CapInt ''100000'' = 100000 \<and> CapInt (mp_RedeemDailyCapPerDidUphi inst_DefaultParams) = 200000000
   \<and> RedeemFloorUphi inst_DefaultParams = 1000000"
  by code_simp

theorem floor_redemption_never_capped_witness:
  "enforceRedeemCaps deps_example ictx_example istate_example
     (inst_example\<lparr>in_Params := empty_inst_params\<lparr>ip_Caps := (ip_Caps empty_inst_params)\<lparr>cap_RedeemPerTx := ''1''\<rparr>\<rparr>\<rparr>)
     ''cust'' 40000 400000 = Inr ()"
proof (rule floor_redemption_never_capped [where floor = 100000 and kind = RedeemSubjectDID and subject = "''did:cust''"])
  show "rate_ok (inst_GetParams istate_example)" by (simp add: DefaultParams_rate)
  show fl: "100000 = CapInt (mp_RedeemFloorPerTx (inst_GetParams istate_example))"
    using floor_eval by (simp add: inst_DefaultParams_def)
  show "400000 = 40000 * UphiPerToman (mp_PhiToToman (inst_GetParams istate_example))"
    by (simp add: UphiPerToman_def UphiPerPhi_def sdiv_nonneg)
  show "getRedeemSubjectTotal istate_example (dayIndex ictx_example) RedeemSubjectDID ''did:cust'' + 400000
      \<le> RedeemFloorUphi (inst_GetParams istate_example)"
    using fl by (simp add: getRedeemSubjectTotal_def parseCounter_def RedeemFloorUphi_def Let_def
        UphiPerPhi_def sdiv_nonneg)
qed (simp_all add: inst_DefaultParams_def getCounterUser_def parseCounter_def redeemSubject_def
    deps_example_def ienv_example_def)

section \<open>Cumulative limits\<close>

lemma RedeemSubjectKey_frame [simp]:
  "is_subjects (addCounterTotal s i kd d n) = is_subjects s"
  "is_subjects (addCounterUser s i kd d a n) = is_subjects s"
  "is_subjects (SetInstitution s inst) = is_subjects s"
  "is_subjects (markDeposit s i dir ref) = is_subjects s"
  by (simp_all add: addCounterTotal_def addCounterUser_def SetInstitution_def markDeposit_def)

lemma addRedeemCounters_subject:
  assumes "redeemSubject D holder = (kind, subject)"
  shows "is_subjects (addRedeemCounters D c s inst holder toman uphi) =
    kv_set (is_subjects s) (RedeemSubjectCounterKey (dayIndex c) kind subject)
      (Int_String (getRedeemSubjectTotal s (dayIndex c) kind subject + uphi))"
  by (simp add: addRedeemCounters_def assms Let_def addRedeemSubjectTotal_def getRedeemSubjectTotal_def
      split: option.splits)

lemma redeem_caps_did:
  assumes "enforceRedeemCaps D c s inst holder toman uphi = Inr ()"
    "redeemSubject D holder = (kind, subject)"
    "lim = AtLeastFloor (CapInt (mp_RedeemDailyCapPerDidUphi (inst_GetParams s)))
             (RedeemFloorUphi (inst_GetParams s))" "0 < lim"
  shows "getRedeemSubjectTotal s (dayIndex c) kind subject + uphi \<le> lim"
  using assms(1) unfolding enforceRedeemCaps_def Let_def assms(2) assms(3) [symmetric]
  by (auto simp: if_Inl_Inr_iff assms(4))

text \<open>
  C20: the network-wide daily cap holds over all institutions.  Whatever institution accepts
  a redemption, the subject's running total of the day has grown afterwards and does not exceed
  the cap, which is never below the floor.
\<close>
theorem daily_cap_per_subject:
  assumes "world_inv w" "InstitutionRedeem D c w m = Inr (out, w')"
    and "AccAddressFromBech32 (D_env D) (md_Holder m) = Some holder"
    and "redeemSubject D holder = (kind, subject)"
    and "lim = AtLeastFloor (CapInt (mp_RedeemDailyCapPerDidUphi (inst_GetParams (w_inst w))))
           (RedeemFloorUphi (inst_GetParams (w_inst w)))" "0 < lim" "fits lim"
    and "0 \<le> getRedeemSubjectTotal (w_inst w) (dayIndex c) kind subject"
  shows "getRedeemSubjectTotal (w_inst w') (dayIndex c) kind subject \<le> lim
    \<and> getRedeemSubjectTotal (w_inst w) (dayIndex c) kind subject
        < getRedeemSubjectTotal (w_inst w') (dayIndex c) kind subject"
  using assms(2)
proof (cases rule: InstitutionRedeem_cases)
  case (1 inst toman uphi h b)
  note ok = redeem_checks_ok [OF 1(1)]
  have h: "h = holder" using ok(10) assms(3) by simp
  let ?old = "getRedeemSubjectTotal (w_inst w) (dayIndex c) kind subject"
  have le: "?old + uphi \<le> lim" using redeem_caps_did [OF ok(11) [unfolded h] assms(4-6)] .
  have "fits (?old + uphi)" using le assms(7,8) ok(9) by (auto intro: fits_mono)
  moreover have "is_subjects (w_inst w') = kv_set (is_subjects (w_inst w))
      (RedeemSubjectCounterKey (dayIndex c) kind subject) (Int_String (?old + uphi))"
    using InstitutionRedeem_run(1) [OF assms(1) 1] assms(2)
    by (simp add: redeemed_state_def h addRedeemCounters_subject [OF assms(4)] getRedeemSubjectTotal_def)
  ultimately have "getRedeemSubjectTotal (w_inst w') (dayIndex c) kind subject = ?old + uphi"
    by (simp add: getRedeemSubjectTotal_def parseCounter_def)
  with le ok(9) show ?thesis by simp
qed

definition redeemed_example :: world where
  "redeemed_example = (case InstitutionRedeem deps_example ictx_example world_example redeem_example of
     Inr (_, w) \<Rightarrow> w | Inl _ \<Rightarrow> world_example)"

theorem daily_cap_per_subject_witness:
  "getRedeemSubjectTotal (w_inst redeemed_example) (dayIndex ictx_example) RedeemSubjectDID ''did:cust''
     \<le> 200000000"
proof -
  obtain out where run: "InstitutionRedeem deps_example ictx_example world_example redeem_example
      = Inr (out, redeemed_example)"
    using redeem_example_run by (auto simp: redeemed_example_def)
  have lim: "(200000000 :: int) = AtLeastFloor (CapInt (mp_RedeemDailyCapPerDidUphi (inst_GetParams (w_inst world_example))))
      (RedeemFloorUphi (inst_GetParams (w_inst world_example)))"
    using floor_eval by (simp add: AtLeastFloor_def)
  from daily_cap_per_subject [OF world_example_inv run _ _ lim] show ?thesis
    by (simp add: redeem_example_def deps_example_def ienv_example_def redeemSubject_def fits_def
        getRedeemSubjectTotal_def parseCounter_def)
qed

section \<open>The emergency clock\<close>

lemma SetEmergency_started:
  assumes "SetEmergencyRedemption D c s m = Inr s'"
    and "em = mp_EmergencyRedemption (inst_GetParams s)"
    and "em_StartedAt em \<noteq> 0" "em_Active em \<or> i64 (block_time c - em_StartedAt em) < EmergencyDay90"
  shows "em_StartedAt (mp_EmergencyRedemption (inst_GetParams s')) = em_StartedAt em"
  using assms
  by (auto simp: SetEmergencyRedemption_def inst_SetParams_def Let_def bindE_Inr_iff inst_GetParams_def
      split: if_splits)

text \<open>
  C21: toggling the emergency brake cannot restart its clock.  Once an emergency has started,
  every sequence of activations and deactivations within its ninety days leaves the start time,
  and with it the step the holders have reached, unchanged.  (An activation stamps the block time
  only when no emergency has started or the ninety days of an inactive one are over, although the
  message's comment speaks of every activation.)
\<close>
theorem emergency_clock_not_restarted:
  assumes "foldE (\<lambda>(c, m) s. SetEmergencyRedemption D c s m) msgs s = Inr s'"
    and "t0 = em_StartedAt (mp_EmergencyRedemption (inst_GetParams s))" "t0 \<noteq> 0"
    and "\<forall>(c, m) \<in> set msgs. t0 \<le> block_time c \<and> block_time c - t0 < EmergencyDay90"
  shows "em_StartedAt (mp_EmergencyRedemption (inst_GetParams s')) = t0"
  using assms
proof (induction msgs arbitrary: s)
  case (Cons cm msgs)
  obtain c m where cm: "cm = (c, m)" by force
  from Cons.prems(1) obtain s1 where s1: "SetEmergencyRedemption D c s m = Inr s1"
      and rest: "foldE (\<lambda>(c, m) s. SetEmergencyRedemption D c s m) msgs s1 = Inr s'"
    by (auto simp: cm bindE_Inr_iff)
  have "i64 (block_time c - t0) = block_time c - t0"
    using Cons.prems(4) by (intro i64_id) (auto simp: cm in_i64_def EmergencyDay90_def)
  then have "em_StartedAt (mp_EmergencyRedemption (inst_GetParams s1)) = t0"
    using SetEmergency_started [OF s1 refl] Cons.prems(2-4) by (simp add: cm)
  with Cons.IH [OF rest] Cons.prems(3,4) show ?case by simp
qed simp

definition emergency_example :: inst_state where
  "emergency_example = istate_example\<lparr>is_params := Some (inst_DefaultParams\<lparr>mp_EmergencyRedemption :=
     \<lparr>em_Active = False, em_StartedAt = 1000, em_CapBeforeDay30 = [], em_CapFromDay30 = [],
      em_CapFromDay60 = []\<rparr>\<rparr>)\<rparr>"

definition activate_example :: MsgSetEmergencyRedemption where
  "activate_example = \<lparr>me_Authority = ''gov'', me_Active = True, me_CapBeforeDay30 = [],
     me_CapFromDay30 = [], me_CapFromDay60 = []\<rparr>"

lemma emergency_eval:
  "isOK (foldE (\<lambda>(c, m) s. SetEmergencyRedemption deps_example c s m)
      [(ictx_example, activate_example)] emergency_example)"
  by code_simp

theorem emergency_clock_not_restarted_witness:
  "\<exists>s'. foldE (\<lambda>(c, m) s. SetEmergencyRedemption deps_example c s m)
      [(ictx_example, activate_example)] emergency_example = Inr s'
    \<and> em_StartedAt (mp_EmergencyRedemption (inst_GetParams s')) = 1000"
proof -
  obtain s' where s': "foldE (\<lambda>(c, m) s. SetEmergencyRedemption deps_example c s m)
      [(ictx_example, activate_example)] emergency_example = Inr s'"
    using emergency_eval by (auto simp: isOK_iff)
  have "em_StartedAt (mp_EmergencyRedemption (inst_GetParams s')) = 1000"
    by (rule emergency_clock_not_restarted [OF s'])
      (simp_all add: emergency_example_def inst_GetParams_def ictx_example_def EmergencyDay90_def)
  with s' show ?thesis by blast
qed

end
