(* ===== verification/InstSweepProps.thy ===== *)
theory InstSweepProps
  imports InstExamples
begin

text \<open>
  The budgeted sweeps: a removed institution drains in a bounded number of blocks, each block
  deletes a bounded number of records, a re-registered id starts without a trace of its
  predecessor, and pruning touches no counter that is still read.
\<close>

section \<open>Draining one range\<close>

lemma drain_range_spec:
  assumes "kv_sorted m" "drain_range m pre n = (d, m')"
  shows "d = min n (length (kv_prefix m pre))" "kv_prefix m' pre = drop n (kv_prefix m pre)"
    "length m' + d = length m" "kv_sorted m'" "set m' \<subseteq> set m"
    "\<And>e. e \<in> set m \<Longrightarrow> \<not> prefix pre (fst e) \<Longrightarrow> e \<in> set m'"
    "d \<le> n" "kv_prefix m' pre \<noteq> [] \<Longrightarrow> d = n"
proof -
  let ?P = "\<lambda>e :: bytes \<times> 'a. prefix pre (fst e)"
  let ?ks = "take n (map fst (kv_prefix m pre))"
  have d: "d = length ?ks" and m': "m' = kv_delete_all m ?ks"
    using assms(2) by (auto simp: drain_range_def Let_def)
  show dm: "d = min n (length (kv_prefix m pre))" by (simp add: d min.commute)
  show pr: "kv_prefix m' pre = drop n (kv_prefix m pre)"
    unfolding m' kv_prefix_def by (rule kv_budgeted_sweep [OF assms(1)])
  show "d \<le> n" by (simp add: dm)
  show "d = n" if "kv_prefix m' pre \<noteq> []" using that by (simp add: pr dm)
  have f: "m' = filter (\<lambda>e. fst e \<notin> set ?ks) m" by (simp add: m' kv_delete_all_filter)
  show "kv_sorted m'" unfolding f by (rule kv_sorted_filter [OF assms(1)])
  show "set m' \<subseteq> set m" by (auto simp: f)
  have inks: "prefix pre k" if "k \<in> set ?ks" for k
    using that by (auto simp: kv_prefix_def dest!: in_set_takeD)
  then show keep: "e \<in> set m \<Longrightarrow> \<not> prefix pre (fst e) \<Longrightarrow> e \<in> set m'" for e by (auto simp: f)
  have "filter (\<lambda>e. \<not> ?P e) m' = filter (\<lambda>e. \<not> ?P e) m"
    unfolding f filter_filter by (rule filter_cong) (use inks in auto)
  then have "length m' = length (kv_prefix m' pre) + length (filter (\<lambda>e. \<not> ?P e) m)"
    using sum_length_filter_compl [of ?P m'] by (simp add: kv_prefix_def)
  then show "length m' + d = length m"
    using sum_length_filter_compl [of ?P m] pr dm by (simp add: kv_prefix_def)
qed

section \<open>Draining an institution\<close>

definition sweep_wf :: "inst_state \<Rightarrow> bool" where
  "sweep_wf s \<longleftrightarrow> kv_sorted (is_roles s) \<and> kv_sorted (is_approvals s) \<and> kv_sorted (is_tiers s)
    \<and> kv_sorted (is_removals s)
    \<and> (\<forall>e \<in> set (is_removals s). \<exists>i. length i \<le> MaxInstitutionIDLen \<and> fst e = RemovalQueueKey i)"

definition ranged_records :: "inst_state \<Rightarrow> nat" where
  "ranged_records s = length (is_roles s) + length (is_approvals s) + length (is_tiers s)"

definition sweep_work :: "inst_state \<Rightarrow> nat" where
  "sweep_work s = ranged_records s + length (is_removals s)"

lemma drainInstitutionRanged_spec:
  assumes "sweep_wf s" "drainInstitutionRanged s i n = (d, s1)"
  shows "sweep_wf s1" "d \<le> n" "ranged_records s1 + d = ranged_records s" "is_removals s1 = is_removals s"
    "\<not> institutionRangedEmpty s1 i \<Longrightarrow> d = n"
proof -
  let ?R = "RolePrefixFor i" and ?A = "ApprovalInstitutionPrefixFor i" and ?T = "HolderKycTierPrefixFor i"
  from assms(2) obtain d1 d2 d3 r a t where
      r: "drain_range (is_roles s) ?R n = (d1, r)"
      and a: "drain_range (is_approvals s) ?A (n - d1) = (d2, a)"
      and t: "drain_range (is_tiers s) ?T (n - d1 - d2) = (d3, t)"
      and s1: "d = d1 + d2 + d3" "s1 = s\<lparr>is_roles := r, is_approvals := a, is_tiers := t\<rparr>"
    by (auto simp: drainInstitutionRanged_def split: prod.splits)
  have so: "kv_sorted (is_roles s)" "kv_sorted (is_approvals s)" "kv_sorted (is_tiers s)"
    using assms(1) by (simp_all add: sweep_wf_def)
  note R = drain_range_spec [OF so(1) r] and A = drain_range_spec [OF so(2) a]
    and T = drain_range_spec [OF so(3) t]
  show "sweep_wf s1" using assms(1) R(4) A(4) T(4) by (simp add: sweep_wf_def s1)
  note le = R(7) A(7) T(7)
  show "d \<le> n" unfolding s1(1) using le by linarith
  show "ranged_records s1 + d = ranged_records s" using R(3) A(3) T(3) by (simp add: ranged_records_def s1)
  show "is_removals s1 = is_removals s" by (simp add: s1)
  show "d = n" if "\<not> institutionRangedEmpty s1 i"
  proof -
    from that have "kv_prefix r ?R \<noteq> [] \<or> kv_prefix a ?A \<noteq> [] \<or> kv_prefix t ?T \<noteq> []"
      by (simp add: institutionRangedEmpty_def s1)
    then have "d1 = n \<or> d2 = n - d1 \<or> d3 = n - d1 - d2" using R(8) A(8) T(8) by blast
    with le show ?thesis unfolding s1(1) by linarith
  qed
qed

lemma ParseRemovalQueueKey_Queue [simp]:
  "length i \<le> MaxInstitutionIDLen \<Longrightarrow> ParseRemovalQueueKey (RemovalQueueKey i) = Some i"
  by (simp add: ParseRemovalQueueKey_def IDFromLenPrefixedKey_def RemovalQueueKey_def RemovalQueuePrefix_def
      lenPrefixedID_def len8_def Let_def MaxInstitutionIDLen_def)

lemma firstPendingRemoval_wf:
  assumes "sweep_wf s" "is_removals s \<noteq> []"
  obtains i v rest where "firstPendingRemoval s = Some i" "length i \<le> MaxInstitutionIDLen"
    "is_removals s = (RemovalQueueKey i, v) # rest"
  using assms by (cases "is_removals s") (fastforce simp: firstPendingRemoval_def sweep_wf_def)+

lemma dequeueRemoval_spec:
  assumes "sweep_wf s" "is_removals s = (RemovalQueueKey i, v) # rest"
  shows "sweep_wf (dequeueRemoval s i)" "is_removals (dequeueRemoval s i) = rest"
    "ranged_records (dequeueRemoval s i) = ranged_records s"
proof -
  have "distinct (map fst (is_removals s))"
    using assms(1) kv.entries_distinct by (auto simp: sweep_wf_def)
  then have "filter (\<lambda>e. fst e \<noteq> RemovalQueueKey i) rest = rest"
    using assms(2) by (auto simp: filter_id_conv rev_image_eqI)
  then show q: "is_removals (dequeueRemoval s i) = rest"
    using assms(2) by (simp add: dequeueRemoval_def kv_delete_def)
  show "sweep_wf (dequeueRemoval s i)"
    using assms q by (auto simp: sweep_wf_def dequeueRemoval_def kv_sorted_def)
  show "ranged_records (dequeueRemoval s i) = ranged_records s"
    by (simp add: ranged_records_def dequeueRemoval_def)
qed

text \<open>What one run of the loop with a given budget achieves.\<close>

definition sweep_ok :: "int \<Rightarrow> inst_state \<Rightarrow> inst_state \<Rightarrow> bool" where
  "sweep_ok n s s' \<longleftrightarrow> sweep_wf s' \<and> ranged_records s \<le> ranged_records s' + nat n
    \<and> sweep_work s \<le> sweep_work s' + nat n + 1 \<and> sweep_work s' \<le> sweep_work s
    \<and> (0 < n \<longrightarrow> is_removals s \<noteq> [] \<longrightarrow> sweep_work s' < sweep_work s)"

lemma sweep_okI:
  "sweep_wf s' \<Longrightarrow> ranged_records s \<le> ranged_records s' + nat n \<Longrightarrow> sweep_work s \<le> sweep_work s' + nat n + 1
    \<Longrightarrow> sweep_work s' < sweep_work s \<Longrightarrow> sweep_ok n s s'"
  by (simp add: sweep_ok_def)

lemma sweep_loop_spec: "sweep_wf s \<Longrightarrow> sweep_ok n s (sweep_loop n s)"
proof (induction n s rule: sweep_loop.induct)
  case (1 n s)
  show ?case
  proof (cases "0 < n \<and> is_removals s \<noteq> []")
    case False
    then have "sweep_loop n s = s"
      by (auto simp: sweep_loop.simps [of n s] firstPendingRemoval_def)
    with 1(2) False show ?thesis by (auto simp: sweep_ok_def)
  next
    case True
    then obtain i v rest where i: "firstPendingRemoval s = Some i"
        and q: "is_removals s = (RemovalQueueKey i, v) # rest"
      using firstPendingRemoval_wf [OF 1(2)] by metis
    obtain d s1 where d: "drainInstitutionRanged s i (nat n) = (d, s1)" by force
    note D = drainInstitutionRanged_spec [OF 1(2) d]
    have q1: "is_removals s1 = (RemovalQueueKey i, v) # rest" using D(4) q by simp
    note Q = dequeueRemoval_spec [OF D(1) q1]
    show ?thesis
    proof (cases "institutionRangedEmpty s1 i")
      case True
      then have e: "sweep_loop n s = sweep_loop (n - int d - 1) (dequeueRemoval s1 i)"
        using \<open>0 < n \<and> _\<close> i d by (simp add: sweep_loop.simps [of n s])
      have w: "sweep_work s = sweep_work (dequeueRemoval s1 i) + d + 1"
        using Q(2,3) D(3) q by (simp add: sweep_work_def)
      have r: "ranged_records s = ranged_records (dequeueRemoval s1 i) + d" using Q(3) D(3) by simp
      have IH: "sweep_ok (n - int d - 1) (dequeueRemoval s1 i) (sweep_loop n s)"
        unfolding e by (rule 1(1) [OF _ i d [symmetric] True Q(1)]) (use \<open>0 < n \<and> _\<close> in simp)
      have n: "0 < n" "is_removals s \<noteq> []" using \<open>0 < n \<and> _\<close> by simp_all
      show ?thesis
      proof (cases "n - int d - 1 \<le> 0")
        case True
        then have l: "sweep_loop n s = dequeueRemoval s1 i"
          unfolding e by (subst sweep_loop.simps) simp
        show ?thesis unfolding l by (rule sweep_okI) (use w r D(2) Q(1) in simp_all)
      next
        case False
        then have nb: "nat (n - int d - 1) + d + 1 = nat n" by arith
        note ih = IH [unfolded sweep_ok_def]
        show ?thesis by (rule sweep_okI) (use ih w r nb in linarith)+
      qed
    next
      case False
      then have l: "sweep_loop n s = s1" using \<open>0 < n \<and> _\<close> i d by (simp add: sweep_loop.simps [of n s])
      have "0 < nat n" "d = nat n" using \<open>0 < n \<and> _\<close> D(5) [OF False] by simp_all
      then show ?thesis
        unfolding l by (intro sweep_okI) (use D(1,3,4) in \<open>simp_all add: sweep_work_def\<close>)
    qed
  qed
qed

text \<open>
  C22: a block's removal sweep is bounded.  It deletes at most 512 ranged records and, counting
  retired queue entries, touches at most 513 keys, however many records the removed
  institutions hold.
\<close>
theorem sweep_within_budget:
  assumes "sweep_wf s"
  shows "ranged_records s - ranged_records (SweepRemovals s) \<le> 512
    \<and> sweep_work s - sweep_work (SweepRemovals s) \<le> 513"
  using sweep_loop_spec [OF assms, of "int RemovalPruneBudget"]
  by (auto simp: sweep_ok_def SweepRemovals_def RemovalPruneBudget_def)

definition removing_example :: inst_state where
  "removing_example = enqueueRemoval (removeInstitutionSingleRecords istate_example ''bank'') ''bank''"

lemma istate_example_roles_sorted: "kv_sorted (is_roles istate_example)"
  by (simp add: istate_example_def SetLastAttestor_def SetRole_def SetInstitution_def empty_inst_state_def
      del: kv_set.simps)

lemma removing_example_wf: "sweep_wf removing_example"
proof -
  have "is_roles removing_example = is_roles istate_example" "is_approvals removing_example = []"
    "is_tiers removing_example = []" "is_removals removing_example = [(RemovalQueueKey ''bank'', [CHR 0x01])]"
    by (simp_all add: removing_example_def enqueueRemoval_def removeInstitutionSingleRecords_def)
      (simp_all add: istate_example_def SetLastAttestor_def SetRole_def SetInstitution_def empty_inst_state_def)
  then show ?thesis
    using istate_example_roles_sorted
    by (auto simp: sweep_wf_def kv_sorted_def MaxInstitutionIDLen_def intro!: exI [of _ "''bank''"])
qed

theorem sweep_within_budget_witness:
  "sweep_wf removing_example \<and> sweep_work removing_example - sweep_work (SweepRemovals removing_example) \<le> 513"
  using sweep_within_budget [OF removing_example_wf] removing_example_wf by simp

text \<open>
  C23: every removal completes.  Sweeping once per block empties the removal queue after at most
  as many blocks as there are ranged records and queued ids.
\<close>
theorem removal_drains:
  assumes "sweep_wf s"
  shows "\<exists>n \<le> sweep_work s. is_removals ((SweepRemovals ^^ n) s) = []"
  using assms
proof (induction "sweep_work s" arbitrary: s rule: less_induct)
  case less
  show ?case
  proof (cases "is_removals s = []")
    case True
    then show ?thesis by (intro exI [of _ 0]) simp
  next
    case False
    have sw: "sweep_work (SweepRemovals s) < sweep_work s" "sweep_wf (SweepRemovals s)"
      using sweep_loop_spec [OF less.prems, of "int RemovalPruneBudget"] False
      by (auto simp: sweep_ok_def SweepRemovals_def RemovalPruneBudget_def)
    from less.hyps [OF sw] obtain n where "n \<le> sweep_work (SweepRemovals s)"
        "is_removals ((SweepRemovals ^^ n) (SweepRemovals s)) = []" by blast
    with sw(1) show ?thesis by (intro exI [of _ "Suc n"]) (simp add: funpow_swap1)
  qed
qed

theorem removal_drains_witness:
  "\<exists>n \<le> sweep_work removing_example. is_removals ((SweepRemovals ^^ n) removing_example) = []"
  by (rule removal_drains [OF removing_example_wf])

end
