(* ===== verification/InstResidue.thy ===== *)
theory InstResidue
  imports InstSweepProps
begin

text \<open>
  No record outlives its institution: an id that is neither registered nor being drained has no
  role, approval, KYC tier, admin epoch or attestor left in the store, so a re-registration
  starts clean.
\<close>

section \<open>Keys of different institutions\<close>

lemma len8_prefix_iff:
  assumes "length i \<le> 255" "length j \<le> 255"
  shows "prefix (len8 i) (len8 j @ x) \<longleftrightarrow> i = j"
proof
  assume "prefix (len8 i) (len8 j @ x)"
  then obtain y where "len8 j @ x = len8 i @ y" by (auto simp: prefix_def)
  with assms show "i = j" using len8_append_eq [of j i x y] by simp
qed simp

lemma inst_prefix_iff:
  assumes "length i \<le> MaxInstitutionIDLen" "length j \<le> MaxInstitutionIDLen"
  shows "prefix (RolePrefixFor i) (RoleKey j a) \<longleftrightarrow> i = j"
    "prefix (ApprovalInstitutionPrefixFor i) (ApprovalKey j ch a) \<longleftrightarrow> i = j"
    "prefix (HolderKycTierPrefixFor i) (HolderKycTierKey j a) \<longleftrightarrow> i = j"
    "AdminEpochKey i = AdminEpochKey j \<longleftrightarrow> i = j"
    "LastAttestorKey i = LastAttestorKey j \<longleftrightarrow> i = j"
    "RemovalQueueKey i = RemovalQueueKey j \<longleftrightarrow> i = j"
  using assms len8_prefix_iff [of i j] len8_append_eq [of i j "[]" "[]"]
  by (simp_all add: MaxInstitutionIDLen_def RolePrefixFor_def RoleKey_def ApprovalInstitutionPrefixFor_def
      ApprovalKey_def HolderKycTierPrefixFor_def HolderKycTierKey_def AdminEpochKey_def LastAttestorKey_def
      RemovalQueueKey_def lenPrefixedID_def)

lemma kv_prefix_set_empty:
  "kv_prefix m p = [] \<Longrightarrow> \<not> prefix p k \<Longrightarrow> kv_prefix (kv_set m k v) p = []"
  using set_kv_set_subset [of m k v] by (fastforce simp: kv_prefix_def filter_empty_conv)

lemma kv_prefix_subset_empty:
  "kv_prefix m p = [] \<Longrightarrow> set m' \<subseteq> set m \<Longrightarrow> kv_prefix m' p = []"
  by (auto simp: kv_prefix_def filter_empty_conv)

section \<open>The invariant\<close>

definition no_residue :: "inst_state \<Rightarrow> string \<Rightarrow> bool" where
  "no_residue s i \<longleftrightarrow> kv_get (is_epochs s) (AdminEpochKey i) = None
     \<and> kv_get (is_attestors s) (LastAttestorKey i) = None
     \<and> (HasPendingRemoval s i \<or> institutionRangedEmpty s i)"

definition residue_inv :: "inst_state \<Rightarrow> bool" where
  "residue_inv s \<longleftrightarrow> (\<forall>i. HasInstitution s i \<longrightarrow> length i \<le> MaxInstitutionIDLen)
     \<and> (\<forall>i. length i \<le> MaxInstitutionIDLen \<longrightarrow> \<not> HasInstitution s i \<longrightarrow> no_residue s i)"

named_theorems residue_intros "operations that leave no residue behind"

lemma residue_frame:
  assumes "residue_inv s" "is_institutions s' = is_institutions s" "is_epochs s' = is_epochs s"
    "is_attestors s' = is_attestors s" "is_removals s' = is_removals s"
    "set (is_roles s') \<subseteq> set (is_roles s)" "set (is_approvals s') \<subseteq> set (is_approvals s)"
    "set (is_tiers s') \<subseteq> set (is_tiers s)"
  shows "residue_inv s'"
proof -
  have h: "HasInstitution s' i = HasInstitution s i" for i using assms(2) by (simp add: HasInstitution_def)
  have "institutionRangedEmpty s i \<Longrightarrow> institutionRangedEmpty s' i" for i
    using assms(6-8) unfolding institutionRangedEmpty_def by (blast intro: kv_prefix_subset_empty)
  then have "no_residue s i \<Longrightarrow> no_residue s' i" for i
    using assms(3-5) by (auto simp: no_residue_def HasPendingRemoval_def)
  then show ?thesis using assms(1) unfolding residue_inv_def h by metis
qed

lemma residue_SetInstitution [residue_intros]:
  "residue_inv s \<Longrightarrow> length (in_Id inst) \<le> MaxInstitutionIDLen \<Longrightarrow> residue_inv (SetInstitution s inst)"
  by (auto simp: residue_inv_def no_residue_def HasInstitution_def SetInstitution_def HasPendingRemoval_def
      institutionRangedEmpty_def)

lemma HasInstitution_frame [simp]:
  "HasInstitution (SetRole E s j a r) i = HasInstitution s i"
  "HasInstitution (DeleteRole s j a) i = HasInstitution s i"
  "HasInstitution (clearApprovals s j ch) i = HasInstitution s i"
  "HasInstitution (bumpAdminEpoch s j) i = HasInstitution s i"
  "HasInstitution (SetLastAttestor s j a) i = HasInstitution s i"
  "HasInstitution (snd (recordApproval E s inst ch a)) i = HasInstitution s i"
  by (simp_all add: HasInstitution_def SetRole_def DeleteRole_def clearApprovals_def bumpAdminEpoch_def
      SetLastAttestor_def recordApproval_def Let_def)

text \<open>A write under the keys of a registered institution concerns no other id.\<close>

lemma residue_write:
  assumes "residue_inv s" "HasInstitution s j" "is_institutions s' = is_institutions s"
    and other: "\<And>i. i \<noteq> j \<Longrightarrow> length i \<le> MaxInstitutionIDLen \<Longrightarrow> length j \<le> MaxInstitutionIDLen
      \<Longrightarrow> no_residue s i \<Longrightarrow> no_residue s' i"
  shows "residue_inv s'"
proof -
  have h: "HasInstitution s' i = HasInstitution s i" for i using assms(3) by (simp add: HasInstitution_def)
  have "length j \<le> MaxInstitutionIDLen" using assms(1,2) by (simp add: residue_inv_def)
  then show ?thesis using assms(1,2) other unfolding residue_inv_def h by metis
qed

lemma residue_role_writes [residue_intros]:
  assumes "residue_inv s" "HasInstitution s j"
  shows "residue_inv (SetRole E s j a r)" "residue_inv (bumpAdminEpoch s j)"
    "residue_inv (SetLastAttestor s j a)"
proof -
  show "residue_inv (SetRole E s j a r)"
    by (rule residue_write [OF assms])
      (auto simp: SetRole_def no_residue_def HasPendingRemoval_def institutionRangedEmpty_def
        inst_prefix_iff kv_prefix_set_empty)
  show "residue_inv (bumpAdminEpoch s j)"
    by (rule residue_write [OF assms])
      (auto simp: bumpAdminEpoch_def no_residue_def HasPendingRemoval_def institutionRangedEmpty_def
        inst_prefix_iff)
  show "residue_inv (SetLastAttestor s j a)"
    by (rule residue_write [OF assms])
      (auto simp: SetLastAttestor_def no_residue_def HasPendingRemoval_def institutionRangedEmpty_def
        inst_prefix_iff)
qed

lemma residue_record [residue_intros]:
  assumes "residue_inv s" "HasInstitution s (in_Id inst)"
  shows "residue_inv (snd (recordApproval E s inst ch a))"
  by (rule residue_write [OF assms])
    (auto simp: recordApproval_def Let_def no_residue_def HasPendingRemoval_def institutionRangedEmpty_def
      inst_prefix_iff kv_prefix_set_empty)

lemma residue_deletes [residue_intros]:
  "residue_inv s \<Longrightarrow> residue_inv (clearApprovals s j ch)"
  "residue_inv s \<Longrightarrow> residue_inv (DeleteRole s j a)"
  by (erule residue_frame; auto simp: clearApprovals_def DeleteRole_def kv_delete_all_filter kv_delete_def)+

lemma residue_plain [residue_intros]:
  "residue_inv s \<Longrightarrow> residue_inv (SetFxRequest s req)"
  "residue_inv s \<Longrightarrow> residue_inv (DeleteFxRequest s i)"
  "residue_inv s \<Longrightarrow> residue_inv (markDeposit s i d ref)"
  "residue_inv s \<Longrightarrow> residue_inv (addMintCounters c s inst a n)"
  "residue_inv s \<Longrightarrow> residue_inv (addRedeemCounters D c s inst a n u)"
  "residue_inv s \<Longrightarrow> residue_inv (PruneStaleCounters c s)"
  "residue_inv s \<Longrightarrow> residue_inv (s\<lparr>is_params := p\<rparr>)"
  by (erule residue_frame; simp add: SetFxRequest_def DeleteFxRequest_def markDeposit_def addMintCounters_def
      addRedeemCounters_def addCounterTotal_def addCounterUser_def addRedeemSubjectTotal_def
      PruneStaleCounters_def pruneCounterPrefix_def pruneRedeemSubjectCounters_def Let_def
      split: prod.splits option.splits)+

lemma residue_remove [residue_intros]:
  assumes "residue_inv s" "HasInstitution s j"
  shows "residue_inv (enqueueRemoval (removeInstitutionSingleRecords s j) j)"
proof -
  let ?t = "enqueueRemoval (removeInstitutionSingleRecords s j) j"
  have h: "HasInstitution ?t i \<longleftrightarrow> i \<noteq> j \<and> HasInstitution s i" for i
    by (auto simp: HasInstitution_def enqueueRemoval_def removeInstitutionSingleRecords_def)
  have j: "length j \<le> MaxInstitutionIDLen" using assms by (simp add: residue_inv_def)
  have self: "no_residue ?t j"
    by (simp add: no_residue_def HasPendingRemoval_def enqueueRemoval_def removeInstitutionSingleRecords_def)
  have "no_residue ?t i" if "no_residue s i" "i \<noteq> j" "length i \<le> MaxInstitutionIDLen" for i
    using that inst_prefix_iff(4-6) [OF that(3) j]
    by (auto simp: no_residue_def HasPendingRemoval_def enqueueRemoval_def removeInstitutionSingleRecords_def
        institutionRangedEmpty_def)
  with self show ?thesis using assms(1) unfolding residue_inv_def h by metis
qed

lemma residue_drain:
  assumes "residue_inv s" "sweep_wf s" "drainInstitutionRanged s i n = (d, s1)"
  shows "residue_inv s1"
proof -
  have so: "kv_sorted (is_roles s)" "kv_sorted (is_approvals s)" "kv_sorted (is_tiers s)"
    using assms(2) by (simp_all add: sweep_wf_def)
  show ?thesis
    using assms(3) drain_range_spec(5) [OF so(1)] drain_range_spec(5) [OF so(2)] drain_range_spec(5) [OF so(3)]
    by (intro residue_frame [OF assms(1)])
      (auto simp: drainInstitutionRanged_def split: prod.splits, blast+)
qed

lemma residue_dequeue:
  assumes "residue_inv s" "institutionRangedEmpty s i" "length i \<le> MaxInstitutionIDLen"
  shows "residue_inv (dequeueRemoval s i)"
proof -
  have h: "HasInstitution (dequeueRemoval s i) k = HasInstitution s k" for k
    by (simp add: HasInstitution_def dequeueRemoval_def)
  have "no_residue (dequeueRemoval s i) k" if "no_residue s k" "length k \<le> MaxInstitutionIDLen" for k
    using that assms(2) inst_prefix_iff(6) [OF that(2) assms(3)]
    by (cases "k = i") (auto simp: no_residue_def HasPendingRemoval_def dequeueRemoval_def
        institutionRangedEmpty_def)
  then show ?thesis using assms(1) unfolding residue_inv_def h by metis
qed

lemma residue_sweep: "residue_inv s \<Longrightarrow> sweep_wf s \<Longrightarrow> residue_inv (sweep_loop n s)"
proof (induction n s rule: sweep_loop.induct)
  case (1 n s)
  show ?case
  proof (cases "0 < n \<and> is_removals s \<noteq> []")
    case False
    then have "sweep_loop n s = s" by (auto simp: sweep_loop.simps [of n s] firstPendingRemoval_def)
    with 1(2) show ?thesis by simp
  next
    case True
    then obtain i v rest where i: "firstPendingRemoval s = Some i" "length i \<le> MaxInstitutionIDLen"
        and q: "is_removals s = (RemovalQueueKey i, v) # rest"
      using firstPendingRemoval_wf [OF 1(3)] by metis
    obtain d s1 where d: "drainInstitutionRanged s i (nat n) = (d, s1)" by force
    note D = drainInstitutionRanged_spec [OF 1(3) d] and r = residue_drain [OF 1(2,3) d]
    show ?thesis
    proof (cases "institutionRangedEmpty s1 i")
      case e: True
      have q1: "is_removals s1 = (RemovalQueueKey i, v) # rest" using D(4) q by simp
      have "residue_inv (sweep_loop (n - int d - 1) (dequeueRemoval s1 i))"
        by (rule 1(1) [OF _ i(1) d [symmetric] e residue_dequeue [OF r e i(2)] dequeueRemoval_spec(1) [OF D(1) q1]])
          (use True in simp)
      with True i d e show ?thesis by (simp add: sweep_loop.simps [of n s])
    next
      case False
      with True i d r show ?thesis by (simp add: sweep_loop.simps [of n s])
    qed
  qed
qed

section \<open>Every step keeps it\<close>

text \<open>A pending request was admitted under the id bound, so its finalization stays within it.\<close>

definition fx_ids_bounded :: "inst_state \<Rightarrow> bool" where
  "fx_ids_bounded s \<longleftrightarrow> (\<forall>(k, req) \<in> set (is_fx s). length (fx_FxId req) \<le> MaxInstitutionIDLen)"

definition clean_inv :: "inst_state \<Rightarrow> bool" where
  "clean_inv s \<longleftrightarrow> residue_inv s \<and> sweep_wf s \<and> fx_ids_bounded s"

lemma fx_bounded_frame: "is_fx s' = is_fx s \<Longrightarrow> fx_ids_bounded s \<Longrightarrow> fx_ids_bounded s'"
  by (simp add: fx_ids_bounded_def)

lemma fx_bounded_ops:
  assumes "fx_ids_bounded s"
  shows "fx_ids_bounded (SetInstitution s inst)" "fx_ids_bounded (SetRole E s j a r)" "fx_ids_bounded (DeleteRole s j a)"
    "fx_ids_bounded (bumpAdminEpoch s j)" "fx_ids_bounded (SetLastAttestor s j a)" "fx_ids_bounded (clearApprovals s j ch)"
    "fx_ids_bounded (snd (recordApproval E s inst ch a))"
    "fx_ids_bounded (markDeposit s i d ref)" "fx_ids_bounded (addMintCounters c s inst a n)"
    "fx_ids_bounded (addRedeemCounters D c s inst a n u)" "fx_ids_bounded (PruneStaleCounters c s)"
    "fx_ids_bounded (s\<lparr>is_params := p\<rparr>)" "fx_ids_bounded (enqueueRemoval (removeInstitutionSingleRecords s j) j)"
  by (rule fx_bounded_frame [OF _ assms], simp add: SetInstitution_def SetRole_def
      DeleteRole_def bumpAdminEpoch_def SetLastAttestor_def clearApprovals_def recordApproval_def
      markDeposit_def addMintCounters_def addRedeemCounters_def addCounterTotal_def enqueueRemoval_def
      removeInstitutionSingleRecords_def addCounterUser_def addRedeemSubjectTotal_def PruneStaleCounters_def
      pruneCounterPrefix_def pruneRedeemSubjectCounters_def Let_def split: prod.splits option.splits)+

lemma fx_bounded_requests:
  assumes "fx_ids_bounded s"
  shows "length (fx_FxId req) \<le> MaxInstitutionIDLen \<Longrightarrow> fx_ids_bounded (SetFxRequest s req)"
    "fx_ids_bounded (DeleteFxRequest s i)"
    "GetFxRequest s i = Some req \<Longrightarrow> length (fx_FxId req) \<le> MaxInstitutionIDLen"
  using assms set_kv_set_subset [of "is_fx s" "FxRequestKey (fx_FxId req)" req]
    kv_get_in [of "is_fx s" "FxRequestKey i" req]
  by (fastforce simp: fx_ids_bounded_def SetFxRequest_def DeleteFxRequest_def GetFxRequest_def kv_delete_def)+

lemma sweep_wf_frame:
  "sweep_wf s \<Longrightarrow> kv_sorted (is_roles s') \<Longrightarrow> kv_sorted (is_approvals s') \<Longrightarrow> is_tiers s' = is_tiers s
    \<Longrightarrow> is_removals s' = is_removals s \<Longrightarrow> sweep_wf s'"
  by (simp add: sweep_wf_def)

lemma sweep_wf_ops:
  assumes "sweep_wf s"
  shows "sweep_wf (SetInstitution s inst)" "sweep_wf (SetRole E s j a r)" "sweep_wf (DeleteRole s j a)"
    "sweep_wf (bumpAdminEpoch s j)" "sweep_wf (SetLastAttestor s j a)" "sweep_wf (clearApprovals s j ch)"
    "sweep_wf (snd (recordApproval E s inst ch a))" "sweep_wf (SetFxRequest s req)"
    "sweep_wf (DeleteFxRequest s i)" "sweep_wf (markDeposit s i d ref)" "sweep_wf (addMintCounters c s inst a n)"
    "sweep_wf (addRedeemCounters D c s inst a n u)" "sweep_wf (PruneStaleCounters c s)"
    "sweep_wf (s\<lparr>is_params := p\<rparr>)"
  by (rule sweep_wf_frame [OF assms]; use assms in \<open>simp add: sweep_wf_def SetInstitution_def SetRole_def
      DeleteRole_def bumpAdminEpoch_def SetLastAttestor_def clearApprovals_def recordApproval_def SetFxRequest_def
      DeleteFxRequest_def markDeposit_def addMintCounters_def addRedeemCounters_def addCounterTotal_def
      addCounterUser_def addRedeemSubjectTotal_def PruneStaleCounters_def pruneCounterPrefix_def
      pruneRedeemSubjectCounters_def kv_sorted_delete_all Let_def split: prod.splits option.splits\<close>)+

lemma sweep_wf_remove:
  assumes "sweep_wf s" "length j \<le> MaxInstitutionIDLen"
  shows "sweep_wf (enqueueRemoval (removeInstitutionSingleRecords s j) j)"
  using assms set_kv_set_subset [of "is_removals s" "RemovalQueueKey j" "[CHR 0x01]"]
  by (fastforce simp: sweep_wf_def enqueueRemoval_def removeInstitutionSingleRecords_def)

lemma clean_ops:
  assumes "clean_inv s"
  shows "length (in_Id inst) \<le> MaxInstitutionIDLen \<Longrightarrow> clean_inv (SetInstitution s inst)"
    "HasInstitution s j \<Longrightarrow> clean_inv (SetRole E s j a r)" "clean_inv (DeleteRole s j a)"
    "HasInstitution s j \<Longrightarrow> clean_inv (bumpAdminEpoch s j)"
    "HasInstitution s j \<Longrightarrow> clean_inv (SetLastAttestor s j a)" "clean_inv (clearApprovals s j ch)"
    "HasInstitution s (in_Id inst) \<Longrightarrow> clean_inv (snd (recordApproval E s inst ch a))"
    "length (fx_FxId req) \<le> MaxInstitutionIDLen \<Longrightarrow> clean_inv (SetFxRequest s req)"
    "clean_inv (DeleteFxRequest s i)" "clean_inv (markDeposit s i d ref)"
    "clean_inv (addMintCounters c s inst a n)" "clean_inv (addRedeemCounters D c s inst a n u)"
    "clean_inv (PruneStaleCounters c s)" "clean_inv (s\<lparr>is_params := p\<rparr>)"
  using assms sweep_wf_ops fx_bounded_ops fx_bounded_requests by (simp_all add: clean_inv_def residue_intros)

lemma found_has: "GetInstitution s i = Some inst \<Longrightarrow> inst_inv s \<Longrightarrow> HasInstitution s (in_Id inst)"
  using inst_inv_get [of s i inst] by (simp add: HasInstitution_def kv_has_def GetInstitution_def)

lemma has_length: "clean_inv s \<Longrightarrow> HasInstitution s i \<Longrightarrow> length i \<le> MaxInstitutionIDLen"
  by (simp add: clean_inv_def residue_inv_def)

lemma clean_sensitive:
  assumes "trySensitive D s inst sg ch = Inr (r, s1)" "clean_inv s" "HasInstitution s (in_Id inst)"
  shows "clean_inv s1" "HasInstitution s1 (in_Id inst)"
  using assms clean_ops(7) by (auto simp: trySensitive_ok)

lemma clean_replace:
  assumes "trySensitive D s inst sg ch = Inr (r, s1)" "clean_inv s" "HasInstitution s (in_Id inst)"
    "in_Id inst' = in_Id inst"
  shows "clean_inv (clearApprovals (SetInstitution s1 inst') (in_Id inst) ch)"
  using clean_sensitive [OF assms(1-3)] has_length assms(4) by (intro clean_ops) simp_all

lemma clean_roles:
  assumes "trySensitive D s inst sg ch = Inr (r, s1)" "clean_inv s" "HasInstitution s (in_Id inst)"
  shows "clean_inv (clearApprovals (SetRole E s1 (in_Id inst) a ro) (in_Id inst) ch)"
    "clean_inv (bumpAdminEpoch (clearApprovals (SetRole E s1 (in_Id inst) a ro) (in_Id inst) ch) (in_Id inst))"
    "clean_inv (clearApprovals (DeleteRole s1 (in_Id inst) a) (in_Id inst) ch)"
    "clean_inv (bumpAdminEpoch (clearApprovals (DeleteRole s1 (in_Id inst) a) (in_Id inst) ch) (in_Id inst))"
  using clean_sensitive [OF assms] by (simp_all add: clean_ops)

lemma clean_sensitive_handlers:
  assumes inv: "inst_inv s" "clean_inv s"
  shows "GrantInstitutionRole D s m8 = Inr (r, s') \<Longrightarrow> clean_inv s'"
    "RevokeInstitutionRole D s m9 = Inr (r, s') \<Longrightarrow> clean_inv s'"
    "UpdateInstitutionAppConfig D s sg i cf = Inr (r, s') \<Longrightarrow> clean_inv s'"
    "UpdateInstitutionParams D s sg i ip = Inr (r, s') \<Longrightarrow> clean_inv s'"
    "SetInstitutionDepositKey D s sg i k = Inr (r, s') \<Longrightarrow> clean_inv s'"
proof -
  note H = found_has [OF _ inv(1)] and S = clean_sensitive(1) [OF _ inv(2)]
    and R = clean_replace [OF _ inv(2)] and Q = clean_roles [OF _ inv(2)]
  have replaced: "clean_inv s'" if "GetInstitution s i = Some inst"
      "trySensitive D s inst sg ch = Inr (r, s1)" "in_Id inst' = in_Id inst"
      "s' = s1 \<or> s' = clearApprovals (SetInstitution s1 inst') (in_Id inst) ch" for i inst sg ch s1 inst'
    using that(4) S [OF that(2) H [OF that(1)]] R [OF that(2) H [OF that(1)] that(3)] by auto
  show "clean_inv s'" if g: "GrantInstitutionRole D s m8 = Inr (r, s')"
  proof -
    let ?ch = "contentHashOf D [''grant'', mg_Institution m8, mg_Grantee m8, roleBytes (mg_Role m8)]"
    from g obtain inst where i: "GetInstitution s (mg_Institution m8) = Some inst"
      by (auto simp: GrantInstitutionRole_def split: option.splits)
    with g obtain r1 s1 where t: "trySensitive D s inst (mg_Signer m8) ?ch = Inr (r1, s1)"
      by (auto simp: GrantInstitutionRole_def Let_def bindE_Inr_iff)
    have s': "s' = s1 \<or> (\<exists>a ro. s' = clearApprovals (SetRole (D_env D) s1 (in_Id inst) a ro) (in_Id inst) ?ch
        \<or> s' = bumpAdminEpoch (clearApprovals (SetRole (D_env D) s1 (in_Id inst) a ro) (in_Id inst) ?ch) (in_Id inst))"
      using g by (auto simp: GrantInstitutionRole_def Let_def i t split: option.splits if_splits)
    show ?thesis using s' S [OF t H [OF i]] Q(1,2) [OF t H [OF i]] by auto
  qed
  show "clean_inv s'" if g: "RevokeInstitutionRole D s m9 = Inr (r, s')"
  proof -
    let ?ch = "contentHashOf D [''revoke'', mv_Institution m9, mv_Grantee m9]"
    from g obtain inst where i: "GetInstitution s (mv_Institution m9) = Some inst"
      by (auto simp: RevokeInstitutionRole_def split: option.splits)
    with g obtain r1 s1 where t: "trySensitive D s inst (mv_Signer m9) ?ch = Inr (r1, s1)"
      by (auto simp: RevokeInstitutionRole_def Let_def bindE_Inr_iff)
    have s': "s' = s1 \<or> (\<exists>a. s' = clearApprovals (DeleteRole s1 (in_Id inst) a) (in_Id inst) ?ch
        \<or> s' = bumpAdminEpoch (clearApprovals (DeleteRole s1 (in_Id inst) a) (in_Id inst) ?ch) (in_Id inst))"
      using g by (auto simp: RevokeInstitutionRole_def Let_def i t split: option.splits if_splits)
    show ?thesis using s' S [OF t H [OF i]] Q(3,4) [OF t H [OF i]] by auto
  qed
  show "clean_inv s'" if "UpdateInstitutionAppConfig D s sg i cf = Inr (r, s')"
  proof -
    from that obtain inst ch s1 where "GetInstitution s i = Some inst"
        "trySensitive D s inst sg ch = Inr (r, s1)"
        "s' = s1 \<or> s' = clearApprovals (SetInstitution s1 (inst\<lparr>in_AppConfig := cf\<rparr>)) (in_Id inst) ch"
      by (auto simp: UpdateInstitutionAppConfig_def Let_def bindE_Inr_iff split: option.splits if_splits)
    from replaced [OF this(1,2) _ this(3)] show ?thesis by simp
  qed
  show "clean_inv s'" if "UpdateInstitutionParams D s sg i ip = Inr (r, s')"
  proof -
    from that obtain inst ch s1 where "GetInstitution s i = Some inst"
        "trySensitive D s inst sg ch = Inr (r, s1)"
        "s' = s1 \<or> s' = clearApprovals (SetInstitution s1 (inst\<lparr>in_Params := ip\<rparr>)) (in_Id inst) ch"
      by (auto simp: UpdateInstitutionParams_def Let_def bindE_Inr_iff split: option.splits if_splits)
    from replaced [OF this(1,2) _ this(3)] show ?thesis by simp
  qed
  show "clean_inv s'" if "SetInstitutionDepositKey D s sg i k = Inr (r, s')"
  proof -
    from that obtain inst ch s1 where "GetInstitution s i = Some inst"
        "trySensitive D s inst sg ch = Inr (r, s1)"
        "s' = s1 \<or> s' = clearApprovals (SetInstitution s1 (inst\<lparr>in_DepositPubkey := k\<rparr>)) (in_Id inst) ch"
      by (auto simp: SetInstitutionDepositKey_def Let_def bindE_Inr_iff split: option.splits if_splits)
    from replaced [OF this(1,2) _ this(3)] show ?thesis by simp
  qed
qed

lemma clean_registry_handlers:
  assumes inv: "inst_inv s" "clean_inv s"
  shows "RegisterInstitution D c s m3 = Inr s' \<Longrightarrow> clean_inv s'"
    "RemoveInstitution D s m4 = Inr s' \<Longrightarrow> clean_inv s'"
    "FreezeInstitution D s m5 = Inr s' \<Longrightarrow> clean_inv s'"
    "inst_SetParams E s p = Inr s' \<Longrightarrow> clean_inv s'"
proof -
  note H = found_has [OF _ inv(1)]
  show "clean_inv s'" if "RegisterInstitution D c s m3 = Inr s'"
    using that clean_ops(1) [OF inv(2)] by (auto simp: RegisterInstitution_def Let_def split: if_splits)
  show "clean_inv s'" if "RemoveInstitution D s m4 = Inr s'"
  proof -
    from that obtain inst where g: "GetInstitution s (mx_Id m4) = Some inst"
        and s': "s' = enqueueRemoval (removeInstitutionSingleRecords s (mx_Id m4)) (mx_Id m4)"
      by (auto simp: RemoveInstitution_def split: if_splits option.splits)
    have h: "HasInstitution s (mx_Id m4)" using g by (simp add: HasInstitution_def kv_has_def GetInstitution_def)
    show ?thesis
      using residue_remove [OF _ h] sweep_wf_remove [OF _ has_length [OF inv(2) h]] inv(2) fx_bounded_ops(13)
      by (simp add: s' clean_inv_def)
  qed
  show "clean_inv s'" if "FreezeInstitution D s m5 = Inr s'"
  proof -
    from that obtain inst st where "GetInstitution s (mf_Id m5) = Some inst"
        "s' = SetInstitution s (inst\<lparr>in_Status := st\<rparr>)"
      by (fastforce simp: FreezeInstitution_def split: if_splits option.splits)
    then show ?thesis using has_length [OF inv(2) H] by (auto intro!: clean_ops(1) [OF inv(2)])
  qed
  show "clean_inv s'" if "inst_SetParams E s p = Inr s'"
    using that clean_ops(14) [OF inv(2)] by (auto simp: inst_SetParams_def bindE_Inr_iff split: if_splits)
qed

lemma clean_fx_handlers:
  assumes inv: "inst_inv s" "clean_inv s"
  shows "RequestFxEntry s m10 = Inr s' \<Longrightarrow> clean_inv s'"
    "GuaranteeFxEntry D s m11 = Inr s' \<Longrightarrow> clean_inv s'"
    "FinalizeFxEntry D c s m12 = Inr s' \<Longrightarrow> clean_inv s'"
    "PublishInstitutionAttestation D c s m6 = Inr s' \<Longrightarrow> clean_inv s'"
proof -
  have len: "GetFxRequest s i = Some req \<Longrightarrow> length (fx_FxId req) \<le> MaxInstitutionIDLen" for i req
    using fx_bounded_requests(3) inv(2) unfolding clean_inv_def by blast
  show "clean_inv s'" if "RequestFxEntry s m10 = Inr s'"
    using that clean_ops(8) [OF inv(2)] by (auto simp: RequestFxEntry_def split: if_splits option.splits)
  show "clean_inv s'" if "GuaranteeFxEntry D s m11 = Inr s'"
  proof -
    from that obtain req where "GetFxRequest s (fg_FxId m11) = Some req"
        "s' = SetFxRequest s (req\<lparr>fx_Status := FX_ENTRY_GUARANTEED\<rparr>) \<or> s' = DeleteFxRequest s (fg_FxId m11)"
      by (auto simp: GuaranteeFxEntry_def bindE_Inr_iff split: if_splits option.splits)
    with clean_ops(8,9) [OF inv(2)] len show ?thesis by auto
  qed
  show "clean_inv s'" if "FinalizeFxEntry D c s m12 = Inr s'"
    using that
  proof (cases rule: FinalizeFxEntry_ok)
    case (1 req)
    show ?thesis unfolding 1(5) using len [OF 1(1)] inv(2) by (intro clean_ops) simp_all
  qed
  show "clean_inv s'" if "PublishInstitutionAttestation D c s m6 = Inr s'"
    using that
  proof (cases rule: PublishInstitutionAttestation_ok)
    case (1 inst res a)
    have h: "HasInstitution s (in_Id inst)" by (rule found_has [OF 1(1) inv(1)])
    show ?thesis
      unfolding 1(6) using clean_ops(5) [OF inv(2) h] has_length [OF inv(2) h] by (intro clean_ops(1)) simp_all
  qed
qed

lemma clean_gate:
  assumes "large_mint_gate D s inst m toman = Inr (go, s')" "clean_inv s" "HasInstitution s (in_Id inst)"
  shows "clean_inv s'"
  using assms(1,2) clean_sensitive(1) [OF _ assms(2,3)] clean_ops(6)
  by (auto simp: large_mint_gate_def Let_def bindE_Inr_iff split: if_splits)

lemma clean_mint:
  assumes m: "InstitutionMint D c w m = Inr (out, w')" and inv: "world_inv w" "clean_inv (w_inst w)"
  shows "clean_inv (w_inst w')"
  using m
proof (cases rule: InstitutionMint_cases)
  case (pending inst toman uphi newVault recipient s)
  then show ?thesis
    using clean_gate [OF pending(2) inv(2)] found_has [OF mint_checks_ok(1)] inv(1) by (auto simp: world_inv_def)
next
  case (executed inst toman uphi newVault recipient s b)
  have h: "HasInstitution (w_inst w) (in_Id inst)"
    using found_has [OF mint_checks_ok(1) [OF executed(1)]] inv(1) by (simp add: world_inv_def)
  have "clean_inv (minted_state c s inst m toman recipient)"
    unfolding minted_state_def using clean_gate [OF executed(2) inv(2) h] has_length [OF inv(2) h]
    by (intro clean_ops) simp_all
  then show ?thesis using InstitutionMint_run(1) [OF inv(1) executed] m by auto
qed

lemma clean_redeem:
  assumes m: "InstitutionRedeem D c w m = Inr (out, w')" and inv: "world_inv w" "clean_inv (w_inst w)"
  shows "clean_inv (w_inst w')"
  using m
proof (cases rule: InstitutionRedeem_cases)
  case (1 inst toman uphi holder b)
  have h: "HasInstitution (w_inst w) (in_Id inst)"
    using found_has [OF redeem_checks_ok(1) [OF 1(1)]] inv(1) by (simp add: world_inv_def)
  have "clean_inv (redeemed_state D c (w_inst w) inst m toman uphi holder (redeem_split c w m uphi))"
    unfolding redeemed_state_def using inv(2) has_length [OF inv(2) h] by (intro clean_ops) simp_all
  then show ?thesis using InstitutionRedeem_run(1) [OF inv(1) 1] m by auto
qed

lemma clean_begin_block:
  assumes "clean_inv s"
  shows "clean_inv (inst_BeginBlock c s)"
proof -
  have p: "residue_inv (PruneStaleCounters c s)" "sweep_wf (PruneStaleCounters c s)"
    using clean_ops(13) [OF assms] by (simp_all add: clean_inv_def)
  have "is_fx (inst_BeginBlock c s) = is_fx s" using begin_block_core by (simp add: same_core_def)
  then show ?thesis
    using residue_sweep [OF p] sweep_loop_spec [OF p(2)] fx_bounded_frame [of "inst_BeginBlock c s" s] assms
    by (simp add: clean_inv_def inst_BeginBlock_def SweepRemovals_def sweep_ok_def)
qed

lemma ledger_step_clean:
  assumes "ledger_step w w'" "world_inv w" "clean_inv (w_inst w)"
  shows "clean_inv (w_inst w')"
proof -
  have i: "inst_inv (w_inst w)" "clean_inv (w_inst w)" using assms(2,3) by (simp_all add: world_inv_def)
  show ?thesis
  using assms(1)
proof cases
  case step_mint then show ?thesis using clean_mint assms(2,3) by blast
next
  case step_redeem then show ?thesis using clean_redeem assms(2,3) by blast
next
  case (step_params D auth p s)
  then show ?thesis using clean_registry_handlers(4) [OF i inst_UpdateParams_set] by simp
next
  case (step_emergency D c m7 s)
  then show ?thesis using SetEmergencyRedemption_set [OF step_emergency(2)] clean_registry_handlers(4) [OF i] by auto
next
  case step_begin_block then show ?thesis using clean_begin_block [OF assms(3)] by simp
qed (use assms(3) clean_registry_handlers(1-3) [OF i] clean_fx_handlers [OF i] clean_sensitive_handlers [OF i] in
  \<open>simp; blast\<close>)+
qed

lemma ledger_steps_clean:
  "ledger_step\<^sup>*\<^sup>* w w' \<Longrightarrow> world_inv w \<Longrightarrow> clean_inv (w_inst w) \<Longrightarrow> clean_inv (w_inst w')"
  by (induction rule: rtranclp_induct) (auto intro: ledger_step_clean ledger_steps_inv)

section \<open>A registration starts clean\<close>

definition register_example :: MsgRegisterInstitution where
  "register_example = \<lparr>mr_Operator = ''gov'', mr_Id = ''bank2'', mr_License = ''lic2'', mr_Admin = ''root2'',
     mr_VaultAccount = [], mr_VaultApi = [], mr_Bond = [], mr_InstitutionType = INSTITUTION_TYPE_FX\<rparr>"

lemma clean_empty: "clean_inv empty_inst_state"
  by (simp add: clean_inv_def residue_inv_def no_residue_def sweep_wf_def fx_ids_bounded_def empty_inst_state_def
      institutionRangedEmpty_def kv_prefix_def HasInstitution_def kv_has_def kv_sorted_def)

lemma HasInstitution_set [simp]: "HasInstitution (SetInstitution s inst) (in_Id inst)"
  by (simp add: HasInstitution_def SetInstitution_def kv_has_def)

lemma clean_example: "clean_inv istate_example"
proof -
  have "in_Id inst_example = ''bank''" by (simp add: inst_example_def)
  with HasInstitution_set [of empty_inst_state inst_example] show ?thesis
    unfolding istate_example_def by (intro clean_ops clean_empty) (simp_all add: MaxInstitutionIDLen_def)
qed

text \<open>
  C24: an institution never inherits anything from an earlier one with the same id.  In every
  world reachable from one whose store is clean, a successful registration leaves the new
  institution without any role, approval or KYC tier, with admin epoch 0 and no attestor.
\<close>
theorem registration_starts_clean:
  assumes "world_inv w0" "clean_inv (w_inst w0)" "ledger_step\<^sup>*\<^sup>* w0 w"
    and "RegisterInstitution D c (w_inst w) m = Inr s"
  shows "institutionRangedEmpty s (mr_Id m) \<and> adminEpoch s (mr_Id m) = 0 \<and> LastAttestor s (mr_Id m) = None"
proof -
  from assms(4) have len: "length (mr_Id m) \<le> MaxInstitutionIDLen" and n: "\<not> HasInstitution (w_inst w) (mr_Id m)"
      and q: "\<not> HasPendingRemoval (w_inst w) (mr_Id m)"
    by (auto simp: RegisterInstitution_def split: if_splits)
  have "no_residue (w_inst w) (mr_Id m)"
    using ledger_steps_clean [OF assms(3,1,2)] len n by (simp add: clean_inv_def residue_inv_def)
  with q assms(4) show ?thesis
    by (auto simp: RegisterInstitution_def no_residue_def institutionRangedEmpty_def adminEpoch_def
        LastAttestor_def SetInstitution_def Let_def split: if_splits)
qed

theorem registration_starts_clean_witness:
  "\<exists>s. RegisterInstitution deps_example ictx_example istate_example register_example = Inr s
     \<and> institutionRangedEmpty s ''bank2'' \<and> adminEpoch s ''bank2'' = 0 \<and> LastAttestor s ''bank2'' = None"
proof -
  have "isOK (RegisterInstitution deps_example ictx_example istate_example register_example)" by code_simp
  then obtain s where s: "RegisterInstitution deps_example ictx_example istate_example register_example = Inr s"
    by (auto simp: isOK_iff)
  from registration_starts_clean [OF world_example_inv _ rtranclp.rtrancl_refl, of deps_example ictx_example
      register_example s] s clean_example
  show ?thesis by (simp add: register_example_def)
qed

end
