(* ===== verification/PhiCrypto.thy ===== *)
theory PhiCrypto
  imports Encoding
begin

text \<open>
  The Go part of \<^verbatim>\<open>phicrypto\<close>: curves, hexadecimal text and the derivation of a
  \<^verbatim>\<open>did:phi\<close> from a public key (\<^verbatim>\<open>phicrypto/did.go\<close>).  Point decoding, SHA-256 and the
  signature verifier are library code and are parameters.
\<close>

datatype Curve = Secp256k1 | Secp256r1 | Curve_other nat

section \<open>Library parameters\<close>

record crypto_env =
  Sum256 :: "bytes \<Rightarrow> bytes"
  P256_Unmarshal :: "bytes \<Rightarrow> (int \<times> int) option"
  P256_UnmarshalCompressed :: "bytes \<Rightarrow> (int \<times> int) option"
  P256_Marshal :: "int \<times> int \<Rightarrow> bytes"
  K1_ParsePubKey :: "bytes \<Rightarrow> (int \<times> int) option"
  K1_SerializeCompressed :: "int \<times> int \<Rightarrow> bytes"

text \<open>\<^verbatim>\<open>hex.EncodeToString\<close>.\<close>

definition hex_digit :: "nat \<Rightarrow> char" where
  "hex_digit n = (''0123456789abcdef'' ! (n mod 16))"

definition EncodeToString :: "bytes \<Rightarrow> string" where
  "EncodeToString bs = concat (map (\<lambda>c. [hex_digit (of_char c div 16), hex_digit (of_char c)]) bs)"

section \<open>DID derivation\<close>

definition DIDMethodPrefix :: string where
  "DIDMethodPrefix = ''did:phi:''"

definition ErrInvalidDIDKey :: err where
  "ErrInvalidDIDKey = Plain ''phicrypto: public key is not a valid point on the curve''"

definition parseP256 :: "crypto_env \<Rightarrow> bytes \<Rightarrow> (int \<times> int) res" where
  "parseP256 C b =
    (case b of
       [] \<Rightarrow> Inl ErrInvalidDIDKey
     | t # _ \<Rightarrow>
        (let p = (if t = CHR 0x04 then P256_Unmarshal C b
                  else if t = CHR 0x02 \<or> t = CHR 0x03 then P256_UnmarshalCompressed C b
                  else None)
         in case p of None \<Rightarrow> Inl ErrInvalidDIDKey | Some xy \<Rightarrow> Inr xy))"

definition DeriveDID :: "crypto_env \<Rightarrow> Curve \<Rightarrow> bytes \<Rightarrow> string res" where
  "DeriveDID C curve pubKey =
    bindE
     (case curve of
        Secp256r1 \<Rightarrow> bindE (parseP256 C pubKey) (\<lambda>xy. Inr (CHR 0x02 # P256_Marshal C xy))
      | Secp256k1 \<Rightarrow>
         (case K1_ParsePubKey C pubKey of
            None \<Rightarrow> Inl ErrInvalidDIDKey
          | Some pk \<Rightarrow> Inr (CHR 0x01 # K1_SerializeCompressed C pk))
      | Curve_other _ \<Rightarrow> Inl ErrInvalidDIDKey)
     (\<lambda>tagged. Inr (DIDMethodPrefix @ EncodeToString (Sum256 C tagged)))"

section \<open>Facts\<close>

lemma hex_digit_set: "hex_digit n \<in> set ''0123456789abcdef''"
  unfolding hex_digit_def by (rule nth_mem) simp

lemma EncodeToString_chars: "set (EncodeToString bs) \<subseteq> set ''0123456789abcdef''"
proof
  fix c assume "c \<in> set (EncodeToString bs)"
  then obtain b where "c = hex_digit (of_char b div 16) \<or> c = hex_digit (of_char b)"
    by (auto simp: EncodeToString_def)
  then show "c \<in> set ''0123456789abcdef''" using hex_digit_set by metis
qed

lemma length_EncodeToString [simp]: "length (EncodeToString bs) = 2 * length bs"
  by (induction bs) (simp_all add: EncodeToString_def)

lemma hex_digit_inj: "m < 16 \<Longrightarrow> n < 16 \<Longrightarrow> hex_digit m = hex_digit n \<longleftrightarrow> m = n"
proof -
  assume "m < 16" "n < 16"
  moreover have "distinct ''0123456789abcdef''" by simp
  ultimately show ?thesis
    by (simp add: hex_digit_def nth_eq_iff_index_eq del: distinct.simps)
qed

lemma EncodeToString_inj: "EncodeToString a = EncodeToString b \<longleftrightarrow> a = b"
proof
  assume "EncodeToString a = EncodeToString b"
  then show "a = b"
  proof (induction a arbitrary: b)
    case Nil
    then show ?case by (cases b) (simp_all add: EncodeToString_def)
  next
    case (Cons c a)
    then obtain d b' where b: "b = d # b'" by (cases b) (simp_all add: EncodeToString_def)
    have eq: "hex_digit (of_char c div 16) = hex_digit (of_char d div 16)"
        "hex_digit (of_char c mod 16) = hex_digit (of_char d mod 16)" "EncodeToString a = EncodeToString b'"
      using Cons.prems by (simp_all add: b EncodeToString_def hex_digit_def)
    have "(of_char c :: nat) div 16 = of_char d div 16" "(of_char c :: nat) mod 16 = of_char d mod 16"
      using eq(1,2) hex_digit_inj [of "of_char c div 16" "of_char d div 16"]
        hex_digit_inj [of "of_char c mod 16" "of_char d mod 16"]
      by (simp_all add: less_mult_imp_div_less)
    then have "(of_char c :: nat) = of_char d" by (metis div_mult_mod_eq)
    with Cons.IH [OF eq(3)] show ?case by (simp add: b)
  qed
qed simp

end
