(* ===== verification/IdTypes.thy ===== *)
theory IdTypes
  imports Bank StoreEntry PhiCrypto
begin

text \<open>
  Data of \<^verbatim>\<open>x/identity\<close>: documents, guardian sets, recovery requests and parameters
  (\<^verbatim>\<open>proto/phi/identity\<close>), the store keys and their encodings (\<^verbatim>\<open>types/keys.go\<close>), and the
  stateless checks (\<^verbatim>\<open>types/params.go\<close>, \<^verbatim>\<open>guardians.go\<close>, \<^verbatim>\<open>recovery.go\<close>).  Protobuf enums
  are open, so each has a constructor for the values the code does not name.
\<close>

unbundle bit_operations_syntax

section \<open>Records\<close>

datatype DIDStatus = DID_STATUS_UNSPECIFIED | DID_STATUS_ACTIVE | DID_STATUS_REVOKED
  | DID_STATUS_SUSPENDED | DID_STATUS_other int

datatype KeyType = KEY_TYPE_UNSPECIFIED | KEY_TYPE_SECP256R1 | KEY_TYPE_SECP256K1 | KEY_TYPE_other int

datatype RecoveryMethod = RECOVERY_METHOD_UNSPECIFIED | RECOVERY_METHOD_SOCIAL
  | RECOVERY_METHOD_REAUTH | RECOVERY_METHOD_other int

datatype RecoveryStatus = RECOVERY_STATUS_UNSPECIFIED | RECOVERY_STATUS_PENDING
  | RECOVERY_STATUS_EXECUTED | RECOVERY_STATUS_REJECTED | RECOVERY_STATUS_EXPIRED
  | RECOVERY_STATUS_SUPERSEDED | RECOVERY_STATUS_other int

record DIDDocument =
  d_Did :: string
  d_Controller :: string
  d_PubKey :: bytes
  d_UniquenessHash :: bytes
  d_CreatedAt :: int
  d_Status :: DIDStatus
  d_KeyType :: KeyType

record TrustedIssuer =
  ti_Did :: string
  ti_PubKey :: bytes
  ti_Active :: bool

record GuardianSet =
  gs_Did :: string
  gs_Commitments :: "bytes list"
  gs_Threshold :: "32 word"
  gs_UpdatedAt :: int

record RecoveryRequest =
  rr_RecoveryId :: bytes
  rr_Did :: string
  rr_ProposedNewPubKey :: bytes
  rr_ProposedNewController :: string
  rr_KeyType :: KeyType
  rr_Method :: RecoveryMethod
  rr_Approvals :: "string list"
  rr_Nonce :: bytes
  rr_InitiatedAt :: int
  rr_ExecuteAfter :: int
  rr_ExpiresAt :: int
  rr_DepositUphi :: string
  rr_Status :: RecoveryStatus
  rr_AttestorDid :: string
  rr_FeeUphi :: string
  rr_Rejections :: "string list"
  rr_FrozenAt :: int

record id_Params =
  idp_MinIdentityAgeSeconds :: int
  idp_BootstrapThreshold :: "64 word"
  idp_BootstrapPhase :: bool
  idp_WebauthnAllowedOrigins :: "string list"
  idp_WebauthnRpId :: string
  idp_MaxGuardians :: "32 word"
  idp_UvSensitiveMsgTypeUrls :: "string list"
  idp_UvLargeTransferUphi :: string
  idp_RecoveryDelaySeconds :: int
  idp_RecoveryRequestTtlSeconds :: int
  idp_MaxOpenRecoveryRequests :: "32 word"
  idp_RecoveryDepositUphi :: string
  idp_ReauthRecoveryFeeUphi :: string

section \<open>Errors\<close>

definition id_err :: "nat \<Rightarrow> err" where
  "id_err n = Registered ''identity'' n"

abbreviation ErrIdentityExists :: err where "ErrIdentityExists \<equiv> id_err 2"
abbreviation ErrUniquenessUsed :: err where "ErrUniquenessUsed \<equiv> id_err 3"
abbreviation ErrIdentityNotFound :: err where "ErrIdentityNotFound \<equiv> id_err 4"
abbreviation ErrInvalidDID :: err where "ErrInvalidDID \<equiv> id_err 5"
abbreviation ErrInvalidPubKey :: err where "ErrInvalidPubKey \<equiv> id_err 6"
abbreviation ErrInvalidUniqueness :: err where "ErrInvalidUniqueness \<equiv> id_err 7"
abbreviation id_ErrUnauthorized :: err where "id_ErrUnauthorized \<equiv> id_err 8"
abbreviation ErrIdentityRevoked :: err where "ErrIdentityRevoked \<equiv> id_err 10"
abbreviation ErrValidatorNeedsDID :: err where "ErrValidatorNeedsDID \<equiv> id_err 11"
abbreviation ErrDIDAlreadyValidator :: err where "ErrDIDAlreadyValidator \<equiv> id_err 12"
abbreviation ErrMinSelfDelegation :: err where "ErrMinSelfDelegation \<equiv> id_err 13"
abbreviation ErrInvalidIssuerSig :: err where "ErrInvalidIssuerSig \<equiv> id_err 14"
abbreviation ErrIssuerNotTrusted :: err where "ErrIssuerNotTrusted \<equiv> id_err 15"
abbreviation ErrInvalidPoP :: err where "ErrInvalidPoP \<equiv> id_err 16"
abbreviation ErrIssuerNotFound :: err where "ErrIssuerNotFound \<equiv> id_err 17"
abbreviation ErrKeyRotation :: err where "ErrKeyRotation \<equiv> id_err 18"
abbreviation ErrNonceReused :: err where "ErrNonceReused \<equiv> id_err 19"
abbreviation ErrInvalidStatusTransition :: err where "ErrInvalidStatusTransition \<equiv> id_err 20"
abbreviation ErrInvalidGuardians :: err where "ErrInvalidGuardians \<equiv> id_err 21"
abbreviation ErrInvalidRecovery :: err where "ErrInvalidRecovery \<equiv> id_err 22"
abbreviation ErrRecoveryNotFound :: err where "ErrRecoveryNotFound \<equiv> id_err 23"
abbreviation ErrRecoveryNotPending :: err where "ErrRecoveryNotPending \<equiv> id_err 24"
abbreviation ErrRecoveryTooEarly :: err where "ErrRecoveryTooEarly \<equiv> id_err 25"
abbreviation ErrRecoveryBelowQuorum :: err where "ErrRecoveryBelowQuorum \<equiv> id_err 26"
abbreviation ErrRecoverySlotsFull :: err where "ErrRecoverySlotsFull \<equiv> id_err 27"
abbreviation ErrRecoveryNonceReused :: err where "ErrRecoveryNonceReused \<equiv> id_err 28"
abbreviation ErrNotAGuardian :: err where "ErrNotAGuardian \<equiv> id_err 29"
abbreviation ErrGuardianNotEligible :: err where "ErrGuardianNotEligible \<equiv> id_err 30"
abbreviation ErrAlreadyApproved :: err where "ErrAlreadyApproved \<equiv> id_err 31"
abbreviation ErrRecoveryKeyCollision :: err where "ErrRecoveryKeyCollision \<equiv> id_err 32"
abbreviation ErrReauthNotEnabled :: err where "ErrReauthNotEnabled \<equiv> id_err 33"
abbreviation ErrInvalidReauthAttestation :: err where "ErrInvalidReauthAttestation \<equiv> id_err 34"
abbreviation ErrAlreadyRejected :: err where "ErrAlreadyRejected \<equiv> id_err 35"

section \<open>Curves and DIDs\<close>

definition CurveForKeyType :: "KeyType \<Rightarrow> Curve res" where
  "CurveForKeyType kt =
    (case kt of
       KEY_TYPE_UNSPECIFIED \<Rightarrow> Inr Secp256r1
     | KEY_TYPE_SECP256R1 \<Rightarrow> Inr Secp256r1
     | KEY_TYPE_SECP256K1 \<Rightarrow> Inr Secp256k1
     | KEY_TYPE_other _ \<Rightarrow> Inl (Plain ''unsupported key_type''))"

definition DeriveDIDFromP256 :: "crypto_env \<Rightarrow> bytes \<Rightarrow> string res" where
  "DeriveDIDFromP256 C pubKey = DeriveDID C Secp256r1 pubKey"

definition DeriveDIDForKeyType :: "crypto_env \<Rightarrow> KeyType \<Rightarrow> bytes \<Rightarrow> string res" where
  "DeriveDIDForKeyType C kt pubKey = bindE (CurveForKeyType kt) (\<lambda>curve. DeriveDID C curve pubKey)"

definition MaxDIDLen :: nat where "MaxDIDLen = 256"
definition MaxPubKeyLen :: nat where "MaxPubKeyLen = 200"
definition MaxUniquenessHashLen :: nat where "MaxUniquenessHashLen = 64"
definition MaxIssuerSigLen :: nat where "MaxIssuerSigLen = 200"

text \<open>
  The character test of the source runs over runes; every byte of a multi-byte rune fails it
  exactly as the rune does.
\<close>

definition did_char :: "char \<Rightarrow> bool" where
  "did_char r \<longleftrightarrow> (CHR ''a'' \<le> r \<and> r \<le> CHR ''z'') \<or> (CHR ''A'' \<le> r \<and> r \<le> CHR ''Z'')
     \<or> (CHR ''0'' \<le> r \<and> r \<le> CHR ''9'') \<or> r = CHR ''-'' \<or> r = CHR ''_'' \<or> r = CHR ''.'' \<or> r = CHR '':''"

definition ValidateDID :: "string \<Rightarrow> unit res" where
  "ValidateDID did =
    (if did = [] then Inl (Plain ''did cannot be empty'')
     else if MaxDIDLen < length did then Inl (Plain ''did too long'')
     else if \<not> prefix DIDMethodPrefix did then Inl (Plain ''did must start with the method prefix'')
     else
      (let i = drop (length DIDMethodPrefix) did in
       if i = [] then Inl (Plain ''did method-specific id cannot be empty'')
       else if \<not> list_all did_char i then Inl (Plain ''did contains an invalid character'')
       else Inr ()))"

section \<open>Sortable timestamps\<close>

definition SortableInt64 :: "int \<Rightarrow> bytes" where
  "SortableInt64 v = be64 (word_of_int v XOR push_bit 63 1)"

text \<open>The source panics on any other width; every caller passes eight bytes.\<close>

definition ParseSortableInt64 :: "bytes \<Rightarrow> int" where
  "ParseSortableInt64 b = sint (dec64 b XOR push_bit 63 1)"

definition EncodeControllerEligibility :: "int \<Rightarrow> int \<Rightarrow> bytes" where
  "EncodeControllerEligibility oldest eligibleSince = SortableInt64 oldest @ SortableInt64 eligibleSince"

definition DecodeControllerEligibility :: "bytes \<Rightarrow> (int \<times> int) option" where
  "DecodeControllerEligibility b =
    (if length b = 8 then Some (ParseSortableInt64 b, 0)
     else if length b = 16 then Some (ParseSortableInt64 (take 8 b), ParseSortableInt64 (drop 8 b))
     else None)"

section \<open>Store keys\<close>

definition DIDKey :: "string \<Rightarrow> bytes" where "DIDKey did = CHR 0x10 # did"
definition UniquenessKey :: "bytes \<Rightarrow> bytes" where "UniquenessKey h = CHR 0x11 # h"
definition DIDToValidatorKey :: "string \<Rightarrow> bytes" where "DIDToValidatorKey did = CHR 0x12 # did"
definition ValidatorToDIDKey :: "string \<Rightarrow> bytes" where "ValidatorToDIDKey valoper = CHR 0x13 # valoper"
definition TrustedIssuerKey :: "string \<Rightarrow> bytes" where "TrustedIssuerKey did = CHR 0x14 # did"
definition GuardiansKey :: "string \<Rightarrow> bytes" where "GuardiansKey did = CHR 0x17 # did"
definition RecoveryKey :: "bytes \<Rightarrow> bytes" where "RecoveryKey i = CHR 0x18 # i"
definition GuardianEpochKey :: "string \<Rightarrow> bytes" where "GuardianEpochKey did = CHR 0x1E # did"
definition RecoveryTallyEpochKey :: "bytes \<Rightarrow> bytes" where "RecoveryTallyEpochKey i = CHR 0x1F # i"
definition ControllerSweepKey :: "string \<Rightarrow> bytes" where "ControllerSweepKey c = CHR 0x20 # c"
definition ControllerEligibilityKey :: "string \<Rightarrow> bytes" where "ControllerEligibilityKey c = CHR 0x1B # c"

definition ControllerIndexPrefixFor :: "string \<Rightarrow> bytes" where
  "ControllerIndexPrefixFor controller = CHR 0x15 # controller @ [CHR 0x00]"

definition ControllerIndexKey :: "string \<Rightarrow> string \<Rightarrow> bytes" where
  "ControllerIndexKey controller did = CHR 0x15 # controller @ [CHR 0x00] @ did"

definition IssuerNonceKey :: "string \<Rightarrow> bytes \<Rightarrow> bytes" where
  "IssuerNonceKey issuerDid nonce = CHR 0x16 # issuerDid @ [CHR 0x00] @ nonce"

definition RecoveryByDIDPrefixFor :: "string \<Rightarrow> bytes" where
  "RecoveryByDIDPrefixFor did = CHR 0x19 # did @ [CHR 0x00]"

definition RecoveryByDIDKey :: "string \<Rightarrow> bytes \<Rightarrow> bytes" where
  "RecoveryByDIDKey did i = CHR 0x19 # did @ [CHR 0x00] @ i"

definition RecoveryNonceKey :: "string \<Rightarrow> bytes \<Rightarrow> bytes" where
  "RecoveryNonceKey did nonce = CHR 0x1A # did @ [CHR 0x00] @ nonce"

definition EligibilityByAgePrefix :: bytes where
  "EligibilityByAgePrefix = [CHR 0x1C]"

definition EligibilityByAgeKey :: "int \<Rightarrow> string \<Rightarrow> bytes" where
  "EligibilityByAgeKey createdAt controller = EligibilityByAgePrefix @ SortableInt64 createdAt @ controller"

definition CreatedAtFromEligibilityByAgeKey :: "bytes \<Rightarrow> int option" where
  "CreatedAtFromEligibilityByAgeKey key =
    (let start = length EligibilityByAgePrefix in
     if length key < start + 8 then None
     else Some (ParseSortableInt64 (take 8 (drop start key))))"

definition MaxControllerDIDScan :: nat where "MaxControllerDIDScan = 64"

definition EncodeControllerSweep :: "string \<Rightarrow> bool \<Rightarrow> bool \<Rightarrow> bytes" where
  "EncodeControllerSweep activeDID hasSuspended hasRevoked =
    char_of ((if hasSuspended then 1 else 0) + (if hasRevoked then 2 else 0) :: nat) # activeDID"

definition DecodeControllerSweep :: "bytes \<Rightarrow> string \<times> bool \<times> bool \<times> bool" where
  "DecodeControllerSweep b =
    (case b of
       [] \<Rightarrow> ([], False, False, False)
     | flags # did \<Rightarrow> (did, odd (of_char flags :: nat), odd ((of_char flags :: nat) div 2), True))"

section \<open>Guardians\<close>

definition GuardianCommitmentLen :: nat where "GuardianCommitmentLen = 32"
definition GuardianSaltLen :: nat where "GuardianSaltLen = 32"
definition RecoveryIDLen :: nat where "RecoveryIDLen = 32"
definition MaxRecoveryNonceLen :: nat where "MaxRecoveryNonceLen = 64"
definition MaxRecoverySigLen :: nat where "MaxRecoverySigLen = 200"

primrec validate_commitments :: "string list \<Rightarrow> bytes list \<Rightarrow> unit res" where
  "validate_commitments seen [] = Inr ()"
| "validate_commitments seen (c # cs) =
    (if length c \<noteq> GuardianCommitmentLen then Inl ErrInvalidGuardians
     else if EncodeToString c \<in> set seen then Inl ErrInvalidGuardians
     else validate_commitments (EncodeToString c # seen) cs)"

definition ValidateGuardianSetBasic :: "string \<Rightarrow> bytes list \<Rightarrow> 32 word \<Rightarrow> unit res" where
  "ValidateGuardianSetBasic did commitments threshold =
    bindE (wrapE ErrInvalidDID (ValidateDID did)) (\<lambda>_.
    if commitments = [] then Inl ErrInvalidGuardians
    else bindE (validate_commitments [] commitments) (\<lambda>_.
      if threshold = 0 then Inl ErrInvalidGuardians
      else if length commitments < unat threshold then Inl ErrInvalidGuardians
      else Inr ()))"

text \<open>The constant-time comparison ORs the byte differences; the lengths are equal at its calls.\<close>

definition subtleEqual :: "bytes \<Rightarrow> bytes \<Rightarrow> bool" where
  "subtleEqual a b \<longleftrightarrow>
    foldl (\<lambda>diff (x, y). diff OR (of_char x XOR of_char y)) 0 (zip a b) = (0 :: nat)"

definition HasCommitment :: "GuardianSet \<Rightarrow> bytes \<Rightarrow> bool" where
  "HasCommitment gs c = list_ex (\<lambda>have. length have = length c \<and> subtleEqual have c) (gs_Commitments gs)"

section \<open>Recovery messages\<close>

definition GuardianCommitDomain :: string where "GuardianCommitDomain = ''phi-guardian-commit-v1''"
definition RecoveryIDDomain :: string where "RecoveryIDDomain = ''phi-recovery-id-v1''"
definition SocialRecoveryPoPDomain :: string where "SocialRecoveryPoPDomain = ''phi-social-recovery-v3''"
definition ReauthRecoveryDomain :: string where "ReauthRecoveryDomain = ''phi-recovery-reauth-v3''"
definition issuerAttestationDomain :: string where "issuerAttestationDomain = ''phi-issuer-attestation-v3''"
definition keyRotationDomain :: string where "keyRotationDomain = ''phi-key-rotation-v3''"

definition GuardianCommitment :: "crypto_env \<Rightarrow> string \<Rightarrow> bytes \<Rightarrow> bytes" where
  "GuardianCommitment C guardianDID salt =
    Sum256 C (GuardianCommitDomain @ [CHR 0x00] @ guardianDID @ [CHR 0x00] @ salt)"

definition DeriveRecoveryID :: "crypto_env \<Rightarrow> string \<Rightarrow> bytes \<Rightarrow> bytes \<Rightarrow> bytes" where
  "DeriveRecoveryID C did proposedNewPubKey nonce =
    Sum256 C (RecoveryIDDomain @ [CHR 0x00] @ did @ [CHR 0x00] @ proposedNewPubKey @ [CHR 0x00] @ nonce)"

definition SocialRecoveryPoPMessage :: "string \<Rightarrow> string \<Rightarrow> bytes \<Rightarrow> string \<Rightarrow> bytes \<Rightarrow> bytes" where
  "SocialRecoveryPoPMessage chainID did proposedNewPubKey newController nonce =
    CanonicalMessage SocialRecoveryPoPDomain [chainID, did, proposedNewPubKey, newController, nonce]"

definition ReauthAttestationMessage ::
    "string \<Rightarrow> string \<Rightarrow> bytes \<Rightarrow> string \<Rightarrow> bytes \<Rightarrow> bytes \<Rightarrow> bytes" where
  "ReauthAttestationMessage chainID did proposedNewPubKey newController uniquenessHash nonce =
    CanonicalMessage ReauthRecoveryDomain [chainID, did, proposedNewPubKey, newController, uniquenessHash, nonce]"

definition attestationMessage ::
    "string \<Rightarrow> string \<Rightarrow> bytes \<Rightarrow> bytes \<Rightarrow> string \<Rightarrow> bytes \<Rightarrow> bytes" where
  "attestationMessage chainID did pubKey uniquenessHash creator nonce =
    CanonicalMessage issuerAttestationDomain [chainID, did, pubKey, uniquenessHash, creator, nonce]"

definition rotationMessage :: "string \<Rightarrow> string \<Rightarrow> bytes \<Rightarrow> string \<Rightarrow> bytes" where
  "rotationMessage chainID did newPubKey creator =
    CanonicalMessage keyRotationDomain [chainID, did, newPubKey, creator]"

definition IsTerminalRecoveryStatus :: "RecoveryStatus \<Rightarrow> bool" where
  "IsTerminalRecoveryStatus s \<longleftrightarrow> s \<noteq> RECOVERY_STATUS_PENDING"

definition ValidateRecoveryNonce :: "bytes \<Rightarrow> unit res" where
  "ValidateRecoveryNonce nonce =
    (if length nonce = 0 \<or> MaxRecoveryNonceLen < length nonce then Inl ErrInvalidRecovery else Inr ())"

section \<open>Parameters\<close>

definition MaxWebAuthnAllowedOrigins :: nat where "MaxWebAuthnAllowedOrigins = 32"
definition MaxUVSensitiveMsgTypeURLs :: nat where "MaxUVSensitiveMsgTypeURLs = 32"
definition MaxOpenRecoveryRequestsCeiling :: "32 word" where "MaxOpenRecoveryRequestsCeiling = 64"

definition DefaultUVSensitiveMsgTypeURLs :: "string list" where
  "DefaultUVSensitiveMsgTypeURLs =
    [''/phi.identity.MsgRotateIdentityKey'', ''/phi.identity.MsgSetGuardians'',
     ''/phi.identity.MsgInitiateRecovery'', ''/phi.identity.MsgApproveRecovery'',
     ''/phi.identity.MsgRejectRecovery'', ''/phi.identity.MsgCancelRecovery'',
     ''/phi.institutions.MsgInstitutionRedeem'']"

definition id_DefaultParams :: id_Params where
  "id_DefaultParams = \<lparr>idp_MinIdentityAgeSeconds = 7 * 24 * 60 * 60, idp_BootstrapThreshold = 10000,
     idp_BootstrapPhase = True, idp_WebauthnAllowedOrigins = [''https://portphi.com''],
     idp_WebauthnRpId = ''portphi.com'', idp_MaxGuardians = 10,
     idp_UvSensitiveMsgTypeUrls = DefaultUVSensitiveMsgTypeURLs, idp_UvLargeTransferUphi = ''100000000'',
     idp_RecoveryDelaySeconds = 72 * 60 * 60, idp_RecoveryRequestTtlSeconds = 14 * 24 * 60 * 60,
     idp_MaxOpenRecoveryRequests = 5, idp_RecoveryDepositUphi = ''1000000'',
     idp_ReauthRecoveryFeeUphi = ''4000000''\<rparr>"

definition validate_amount :: "string \<Rightarrow> unit res" where
  "validate_amount a =
    (case NewIntFromString a of
       None \<Rightarrow> Inl (Plain ''invalid amount'')
     | Some n \<Rightarrow> if n < 0 then Inl (Plain ''amount must be >= 0'') else Inr ())"

definition id_Params_Validate :: "id_Params \<Rightarrow> unit res" where
  "id_Params_Validate p =
    (if idp_MinIdentityAgeSeconds p < 0 then Inl (Plain ''min_identity_age_seconds must be >= 0'')
     else if idp_BootstrapThreshold p = 0 then Inl (Plain ''bootstrap_threshold must be > 0'')
     else if idp_WebauthnAllowedOrigins p = [] then Inl (Plain ''webauthn_allowed_origins must list at least one origin'')
     else if MaxWebAuthnAllowedOrigins < length (idp_WebauthnAllowedOrigins p)
       then Inl (Plain ''webauthn_allowed_origins has too many entries'')
     else if [] \<in> set (idp_WebauthnAllowedOrigins p) then Inl (Plain ''webauthn_allowed_origins must not be empty'')
     else if idp_WebauthnRpId p = [] then Inl (Plain ''webauthn_rp_id must not be empty'')
     else if idp_MaxGuardians p = 0 then Inl (Plain ''max_guardians must be > 0'')
     else if MaxUVSensitiveMsgTypeURLs < length (idp_UvSensitiveMsgTypeUrls p)
       then Inl (Plain ''uv_sensitive_msg_type_urls has too many entries'')
     else if list_ex (\<lambda>u. u = [] \<or> \<not> prefix ''/'' u) (idp_UvSensitiveMsgTypeUrls p)
       then Inl (Plain ''uv_sensitive_msg_type_urls must be message type URLs'')
     else bindE (validate_amount (idp_UvLargeTransferUphi p)) (\<lambda>_.
       if idp_RecoveryDelaySeconds p \<le> 0 then Inl (Plain ''recovery_delay_seconds must be > 0'')
       else if idp_RecoveryRequestTtlSeconds p \<le> idp_RecoveryDelaySeconds p
         then Inl (Plain ''recovery_request_ttl_seconds must exceed recovery_delay_seconds'')
       else if idp_MaxOpenRecoveryRequests p = 0 then Inl (Plain ''max_open_recovery_requests must be > 0'')
       else if MaxOpenRecoveryRequestsCeiling < idp_MaxOpenRecoveryRequests p
         then Inl (Plain ''max_open_recovery_requests too large'')
       else bindE (validate_amount (idp_RecoveryDepositUphi p)) (\<lambda>_.
         validate_amount (idp_ReauthRecoveryFeeUphi p))))"

definition amount_or_zero :: "string \<Rightarrow> int" where
  "amount_or_zero a = (case NewIntFromString a of None \<Rightarrow> 0 | Some n \<Rightarrow> n)"

definition RecoveryDeposit :: "id_Params \<Rightarrow> int" where
  "RecoveryDeposit p = amount_or_zero (idp_RecoveryDepositUphi p)"

definition ReauthRecoveryFee :: "id_Params \<Rightarrow> int" where
  "ReauthRecoveryFee p = amount_or_zero (idp_ReauthRecoveryFeeUphi p)"

definition UVLargeTransferAmount :: "id_Params \<Rightarrow> int" where
  "UVLargeTransferAmount p = amount_or_zero (idp_UvLargeTransferUphi p)"

end
