(* ===== verification/IdKeeper.thy ===== *)
theory IdKeeper
  imports IdTypes
begin

text \<open>
  The keeper of \<^verbatim>\<open>x/identity\<close>: the state with one ordered store per key prefix, identities
  with their derived controller, eligibility and sweep records, trusted issuers, guardian sets
  and epochs, recovery requests with their deposits, and the validator binding.
\<close>

section \<open>Dependencies and state\<close>

text \<open>
  Parameters: the address codec and bank environment, the governance authority, the curve and
  hash primitives, the signature verifier, and the build tag \<^verbatim>\<open>reauth\<close>
  (\<^verbatim>\<open>ReauthRecoveryEnabled\<close>).
\<close>

record id_deps =
  I_env :: sdk_env
  I_authority :: string
  I_crypto :: crypto_env
  I_VerifySignature :: "Curve \<Rightarrow> bytes \<Rightarrow> bytes \<Rightarrow> bytes \<Rightarrow> bool"
  I_ReauthRecoveryEnabled :: bool

record id_state =
  ids_params :: "id_Params option"
  ids_count :: "64 word option"
  ids_docs :: "DIDDocument kv"
  ids_uniq :: "bytes kv"
  ids_did2val :: "bytes kv"
  ids_val2did :: "bytes kv"
  ids_issuers :: "TrustedIssuer kv"
  ids_ctrl :: "bytes kv"
  ids_inonce :: "bytes kv"
  ids_guardians :: "GuardianSet kv"
  ids_recov :: "RecoveryRequest kv"
  ids_bydid :: "bytes kv"
  ids_rnonce :: "bytes kv"
  ids_elig :: "bytes kv"
  ids_byage :: "bytes kv"
  ids_total :: "64 word option"
  ids_gepoch :: "bytes kv"
  ids_tepoch :: "bytes kv"
  ids_sweep :: "bytes kv"

definition empty_id_state :: id_state where
  "empty_id_state = \<lparr>ids_params = None, ids_count = None, ids_docs = [], ids_uniq = [], ids_did2val = [],
     ids_val2did = [], ids_issuers = [], ids_ctrl = [], ids_inonce = [], ids_guardians = [], ids_recov = [],
     ids_bydid = [], ids_rnonce = [], ids_elig = [], ids_byage = [], ids_total = None, ids_gepoch = [],
     ids_tepoch = [], ids_sweep = []\<rparr>"

definition id_ModuleName :: string where "id_ModuleName = ''identity''"
definition id_FeeCollectorName :: string where "id_FeeCollectorName = ''fee_collector''"

definition id_GetParams :: "id_state \<Rightarrow> id_Params" where
  "id_GetParams s = (case ids_params s of None \<Rightarrow> id_DefaultParams | Some p \<Rightarrow> p)"

definition id_SetParams :: "id_state \<Rightarrow> id_Params \<Rightarrow> id_state res" where
  "id_SetParams s p = bindE (id_Params_Validate p) (\<lambda>_. Inr (s\<lparr>ids_params := Some p\<rparr>))"

text \<open>Times are nanoseconds since the epoch, durations \<^verbatim>\<open>int64\<close> nanoseconds.\<close>

definition nanos :: int where "nanos = 1000000000"

definition MinIdentityAge :: "id_state \<Rightarrow> int" where
  "MinIdentityAge s = i64 (idp_MinIdentityAgeSeconds (id_GetParams s) * nanos)"

definition age_cutoff :: "int \<Rightarrow> int \<Rightarrow> int" where
  "age_cutoff t minAge = (t + i64 (- minAge)) div nanos"

definition BootstrapPhase :: "id_state \<Rightarrow> bool" where
  "BootstrapPhase s = idp_BootstrapPhase (id_GetParams s)"

definition UVPolicy :: "id_state \<Rightarrow> string list \<times> int" where
  "UVPolicy s = (let p = id_GetParams s in (idp_UvSensitiveMsgTypeUrls p, UVLargeTransferAmount p))"

definition WebAuthnRelyingParty :: "id_state \<Rightarrow> string list \<times> string" where
  "WebAuthnRelyingParty s = (let p = id_GetParams s in (idp_WebauthnAllowedOrigins p, idp_WebauthnRpId p))"

section \<open>Identities and their derived records\<close>

definition GetIdentity :: "id_state \<Rightarrow> string \<Rightarrow> DIDDocument option" where
  "GetIdentity s did = kv_get (ids_docs s) (DIDKey did)"

definition HasIdentity :: "id_state \<Rightarrow> string \<Rightarrow> bool" where
  "HasIdentity s did = kv_has (ids_docs s) (DIDKey did)"

text \<open>The DIDs an iteration over one controller's index entries yields, in key order.\<close>

definition controller_dids :: "id_state \<Rightarrow> string \<Rightarrow> string list" where
  "controller_dids s controller =
    (let p = ControllerIndexPrefixFor controller in
     map (\<lambda>e. drop (length p) (fst e)) (kv_prefix (ids_ctrl s) p))"

definition controller_docs :: "id_state \<Rightarrow> string \<Rightarrow> DIDDocument list" where
  "controller_docs s controller = List.map_filter (GetIdentity s) (controller_dids s controller)"

definition HasNonActiveDID :: "id_state \<Rightarrow> string \<Rightarrow> bool" where
  "HasNonActiveDID s controller = list_ex (\<lambda>d. d_Status d \<noteq> DID_STATUS_ACTIVE) (controller_docs s controller)"

definition EligibleControllerTotal :: "id_state \<Rightarrow> 64 word" where
  "EligibleControllerTotal s = (case ids_total s of None \<Rightarrow> 0 | Some n \<Rightarrow> n)"

definition older :: "int option \<Rightarrow> DIDDocument \<Rightarrow> int option" where
  "older acc d =
    (if d_Status d = DID_STATUS_REVOKED then acc
     else case acc of
         None \<Rightarrow> Some (d_CreatedAt d)
       | Some oldest \<Rightarrow> if d_CreatedAt d < oldest then Some (d_CreatedAt d) else acc)"

definition eligibility_record :: "id_state \<Rightarrow> string \<Rightarrow> (int \<times> int) option" where
  "eligibility_record s controller =
    (case kv_get (ids_elig s) (ControllerEligibilityKey controller) of
       None \<Rightarrow> None
     | Some bz \<Rightarrow> DecodeControllerEligibility bz)"

definition refreshControllerEligibility :: "ctx \<Rightarrow> id_state \<Rightarrow> string \<Rightarrow> id_state" where
  "refreshControllerEligibility c s controller =
    (let best = foldl older None (controller_docs s controller);
         recordKey = ControllerEligibilityKey controller in
     case (eligibility_record s controller, best) of
       (Some (prevOldest, prevSince), None) \<Rightarrow>
         s\<lparr>ids_byage := kv_delete (ids_byage s) (EligibilityByAgeKey prevOldest controller),
           ids_elig := kv_delete (ids_elig s) recordKey,
           ids_total := Some (EligibleControllerTotal s - 1)\<rparr>
     | (None, Some oldest) \<Rightarrow>
         s\<lparr>ids_elig := kv_set (ids_elig s) recordKey (EncodeControllerEligibility oldest (block_time c)),
           ids_byage := kv_set (ids_byage s) (EligibilityByAgeKey oldest controller) [CHR 0x01],
           ids_total := Some (EligibleControllerTotal s + 1)\<rparr>
     | (Some (prevOldest, prevSince), Some oldest) \<Rightarrow>
         if prevOldest \<noteq> oldest
         then
          (let since = (if oldest < prevOldest then block_time c else prevSince) in
           s\<lparr>ids_elig := kv_set (ids_elig s) recordKey (EncodeControllerEligibility oldest since),
             ids_byage := kv_set (kv_delete (ids_byage s) (EligibilityByAgeKey prevOldest controller))
                            (EligibilityByAgeKey oldest controller) [CHR 0x01]\<rparr>)
         else s
     | (None, None) \<Rightarrow> s)"

definition first_active :: "DIDDocument list \<Rightarrow> string" where
  "first_active ds =
    foldl (\<lambda>firstActive d.
       if d_Status d = DID_STATUS_ACTIVE \<and> firstActive = [] then d_Did d else firstActive) [] ds"

definition refreshControllerSweepStatus :: "id_state \<Rightarrow> string \<Rightarrow> id_state" where
  "refreshControllerSweepStatus s controller =
    (let ds = controller_docs s controller; key = ControllerSweepKey controller in
     if ds = [] then s\<lparr>ids_sweep := kv_delete (ids_sweep s) key\<rparr>
     else s\<lparr>ids_sweep := kv_set (ids_sweep s) key
              (EncodeControllerSweep (first_active ds)
                (list_ex (\<lambda>d. d_Status d = DID_STATUS_SUSPENDED) ds)
                (list_ex (\<lambda>d. d_Status d = DID_STATUS_REVOKED) ds))\<rparr>)"

definition ControllerSweepStatus :: "id_state \<Rightarrow> string \<Rightarrow> string \<times> bool \<times> bool \<times> bool" where
  "ControllerSweepStatus s controller =
    DecodeControllerSweep (case kv_get (ids_sweep s) (ControllerSweepKey controller) of None \<Rightarrow> [] | Some b \<Rightarrow> b)"

text \<open>The controller whose index entry \<^verbatim>\<open>SetIdentity\<close> removes, or the empty string.\<close>

definition stale_controller :: "id_state \<Rightarrow> DIDDocument \<Rightarrow> string option" where
  "stale_controller s d =
    (case GetIdentity s (d_Did d) of
       None \<Rightarrow> None
     | Some prev \<Rightarrow> if d_Controller prev \<noteq> d_Controller d then Some (d_Controller prev) else None)"

definition write_identity :: "id_state \<Rightarrow> DIDDocument \<Rightarrow> id_state" where
  "write_identity s d =
    (let ctrl = (case stale_controller s d of
                   None \<Rightarrow> ids_ctrl s
                 | Some p \<Rightarrow> kv_delete (ids_ctrl s) (ControllerIndexKey p (d_Did d))) in
     s\<lparr>ids_docs := kv_set (ids_docs s) (DIDKey (d_Did d)) d,
       ids_ctrl := kv_set ctrl (ControllerIndexKey (d_Controller d) (d_Did d)) [CHR 0x01]\<rparr>)"

definition refresh_controller :: "ctx \<Rightarrow> id_state \<Rightarrow> string \<Rightarrow> id_state" where
  "refresh_controller c s controller =
    refreshControllerSweepStatus (refreshControllerEligibility c s controller) controller"

definition SetIdentity :: "ctx \<Rightarrow> id_state \<Rightarrow> DIDDocument \<Rightarrow> id_state" where
  "SetIdentity c s d =
    (let prevController = (case stale_controller s d of None \<Rightarrow> [] | Some p \<Rightarrow> p);
         s1 = refresh_controller c (write_identity s d) (d_Controller d)
     in if prevController \<noteq> [] then refresh_controller c s1 prevController else s1)"

definition HasUniqueness :: "id_state \<Rightarrow> bytes \<Rightarrow> bool" where
  "HasUniqueness s h = kv_has (ids_uniq s) (UniquenessKey h)"

definition setUniqueness :: "id_state \<Rightarrow> bytes \<Rightarrow> string \<Rightarrow> id_state" where
  "setUniqueness s h did = s\<lparr>ids_uniq := kv_set (ids_uniq s) (UniquenessKey h) did\<rparr>"

definition GetIdentityCount :: "id_state \<Rightarrow> 64 word" where
  "GetIdentityCount s = (case ids_count s of None \<Rightarrow> 0 | Some n \<Rightarrow> n)"

definition SetIdentityCount :: "id_state \<Rightarrow> 64 word \<Rightarrow> id_state" where
  "SetIdentityCount s n = s\<lparr>ids_count := Some n\<rparr>"

section \<open>Eligibility queries\<close>

definition ActiveDIDsAt :: "id_state \<Rightarrow> int \<Rightarrow> int \<Rightarrow> DIDDocument list" where
  "ActiveDIDsAt s t minAge =
    filter (\<lambda>d. d_Status d = DID_STATUS_ACTIVE \<and> d_CreatedAt d \<le> age_cutoff t minAge) (map snd (ids_docs s))"

definition MaxEligibilityTailScan :: "64 word" where
  "MaxEligibilityTailScan = 5000000"

primrec tail_scan :: "64 word \<Rightarrow> int \<Rightarrow> bytes kv \<Rightarrow> 64 word \<Rightarrow> 64 word \<times> bool" where
  "tail_scan ceiling cutoff [] n = (n, False)"
| "tail_scan ceiling cutoff (e # es) n =
    (if ceiling \<le> n then (n, True)
     else case CreatedAtFromEligibilityByAgeKey (fst e) of
         None \<Rightarrow> (n, False)
       | Some createdAt \<Rightarrow> if createdAt \<le> cutoff then (n, False) else tail_scan ceiling cutoff es (n + 1))"

definition countEligibleNewerThanCapped :: "id_state \<Rightarrow> int \<Rightarrow> 64 word \<Rightarrow> 64 word \<times> bool" where
  "countEligibleNewerThanCapped s cutoff ceiling = tail_scan ceiling cutoff (rev (ids_byage s)) 0"

definition CountEligibleControllersAt :: "id_state \<Rightarrow> int \<Rightarrow> int \<Rightarrow> 64 word" where
  "CountEligibleControllersAt s t minAge =
    (let total = EligibleControllerTotal s;
         tail = fst (countEligibleNewerThanCapped s (age_cutoff t minAge) MaxEligibilityTailScan)
     in if total < tail then total else total - tail)"

definition IsEligibleControllerAt :: "id_state \<Rightarrow> string \<Rightarrow> int \<Rightarrow> int \<Rightarrow> bool" where
  "IsEligibleControllerAt s controller t minAge =
    (case eligibility_record s controller of
       None \<Rightarrow> False
     | Some (oldest, _) \<Rightarrow> oldest \<le> age_cutoff t minAge)"

definition IsEligibleControllerSince :: "id_state \<Rightarrow> string \<Rightarrow> int \<Rightarrow> int \<Rightarrow> int \<Rightarrow> bool" where
  "IsEligibleControllerSince s controller t minAge since =
    (case eligibility_record s controller of
       None \<Rightarrow> False
     | Some (oldest, eligibleSince) \<Rightarrow>
        if age_cutoff t minAge < oldest then False
        else if since div nanos = 0 then True
        else eligibleSince \<le> since div nanos)"

section \<open>Issuers\<close>

definition SetTrustedIssuer :: "id_state \<Rightarrow> TrustedIssuer \<Rightarrow> id_state" where
  "SetTrustedIssuer s ti = s\<lparr>ids_issuers := kv_set (ids_issuers s) (TrustedIssuerKey (ti_Did ti)) ti\<rparr>"

definition GetTrustedIssuer :: "id_state \<Rightarrow> string \<Rightarrow> TrustedIssuer option" where
  "GetTrustedIssuer s did = kv_get (ids_issuers s) (TrustedIssuerKey did)"

definition hasIssuerNonce :: "id_state \<Rightarrow> string \<Rightarrow> bytes \<Rightarrow> bool" where
  "hasIssuerNonce s issuerDid nonce = kv_has (ids_inonce s) (IssuerNonceKey issuerDid nonce)"

definition markIssuerNonce :: "id_state \<Rightarrow> string \<Rightarrow> bytes \<Rightarrow> id_state" where
  "markIssuerNonce s issuerDid nonce =
    s\<lparr>ids_inonce := kv_set (ids_inonce s) (IssuerNonceKey issuerDid nonce) [CHR 0x01]\<rparr>"

section \<open>Guardians and epochs\<close>

definition SetGuardianSet :: "id_state \<Rightarrow> GuardianSet \<Rightarrow> id_state" where
  "SetGuardianSet s g = s\<lparr>ids_guardians := kv_set (ids_guardians s) (GuardiansKey (gs_Did g)) g\<rparr>"

definition DeleteGuardianSet :: "id_state \<Rightarrow> string \<Rightarrow> id_state" where
  "DeleteGuardianSet s did = s\<lparr>ids_guardians := kv_delete (ids_guardians s) (GuardiansKey did)\<rparr>"

definition GetGuardians :: "id_state \<Rightarrow> string \<Rightarrow> GuardianSet option" where
  "GetGuardians s did = kv_get (ids_guardians s) (GuardiansKey did)"

definition validateGuardianSetCap :: "id_state \<Rightarrow> bytes list \<Rightarrow> unit res" where
  "validateGuardianSetCap s commitments =
    (if unat (idp_MaxGuardians (id_GetParams s)) < length commitments then Inl ErrInvalidGuardians else Inr ())"

definition openGuardianCommitment ::
    "id_deps \<Rightarrow> id_state \<Rightarrow> string \<Rightarrow> string \<Rightarrow> bytes \<Rightarrow> string \<Rightarrow> unit res" where
  "openGuardianCommitment D s protectedDID guardianDID salt signer =
    (if length salt \<noteq> GuardianSaltLen then Inl ErrInvalidGuardians
     else case GetGuardians s protectedDID of
         None \<Rightarrow> Inl ErrInvalidGuardians
       | Some gs \<Rightarrow>
          if \<not> HasCommitment gs (GuardianCommitment (I_crypto D) guardianDID salt) then Inl ErrNotAGuardian
          else if guardianDID = protectedDID then Inl ErrInvalidGuardians
          else case GetIdentity s guardianDID of
              None \<Rightarrow> Inl ErrGuardianNotEligible
            | Some doc \<Rightarrow>
               if d_Status doc \<noteq> DID_STATUS_ACTIVE then Inl ErrGuardianNotEligible
               else if d_Controller doc \<noteq> signer then Inl id_ErrUnauthorized
               else Inr ())"

definition encodeEpoch :: "64 word \<Rightarrow> bytes" where
  "encodeEpoch v = be64 v"

definition decodeEpoch :: "bytes option \<Rightarrow> 64 word" where
  "decodeEpoch b = (case b of None \<Rightarrow> 0 | Some bz \<Rightarrow> if length bz \<noteq> 8 then 0 else dec64 bz)"

definition GuardianEpoch :: "id_state \<Rightarrow> string \<Rightarrow> 64 word" where
  "GuardianEpoch s did = decodeEpoch (kv_get (ids_gepoch s) (GuardianEpochKey did))"

definition bumpGuardianEpoch :: "id_state \<Rightarrow> string \<Rightarrow> id_state" where
  "bumpGuardianEpoch s did =
    (let cur = GuardianEpoch s did in
     if cur = - 1 then s
     else s\<lparr>ids_gepoch := kv_set (ids_gepoch s) (GuardianEpochKey did) (encodeEpoch (cur + 1))\<rparr>)"

definition recoveryTallyEpoch :: "id_state \<Rightarrow> bytes \<Rightarrow> 64 word" where
  "recoveryTallyEpoch s i = decodeEpoch (kv_get (ids_tepoch s) (RecoveryTallyEpochKey i))"

definition setRecoveryTallyEpoch :: "id_state \<Rightarrow> bytes \<Rightarrow> 64 word \<Rightarrow> id_state" where
  "setRecoveryTallyEpoch s i e = s\<lparr>ids_tepoch := kv_set (ids_tepoch s) (RecoveryTallyEpochKey i) (encodeEpoch e)\<rparr>"

definition deleteRecoveryTallyEpoch :: "id_state \<Rightarrow> bytes \<Rightarrow> id_state" where
  "deleteRecoveryTallyEpoch s i = s\<lparr>ids_tepoch := kv_delete (ids_tepoch s) (RecoveryTallyEpochKey i)\<rparr>"

definition tallyIsCurrent :: "id_state \<Rightarrow> RecoveryRequest \<Rightarrow> bool" where
  "tallyIsCurrent s r \<longleftrightarrow> recoveryTallyEpoch s (rr_RecoveryId r) = GuardianEpoch s (rr_Did r)"

definition EffectiveApprovals :: "id_state \<Rightarrow> RecoveryRequest \<Rightarrow> string list" where
  "EffectiveApprovals s r = (if \<not> tallyIsCurrent s r then [] else rr_Approvals r)"

definition syncTallyEpoch :: "id_state \<Rightarrow> RecoveryRequest \<Rightarrow> RecoveryRequest \<times> id_state" where
  "syncTallyEpoch s r =
    (let current = GuardianEpoch s (rr_Did r) in
     if recoveryTallyEpoch s (rr_RecoveryId r) = current then (r, s)
     else (r\<lparr>rr_Approvals := [], rr_Rejections := []\<rparr>,
           setRecoveryTallyEpoch s (rr_RecoveryId r) current))"

section \<open>Recovery requests\<close>

definition SetRecoveryRequest :: "id_state \<Rightarrow> RecoveryRequest \<Rightarrow> id_state" where
  "SetRecoveryRequest s r =
    s\<lparr>ids_recov := kv_set (ids_recov s) (RecoveryKey (rr_RecoveryId r)) r,
      ids_bydid := kv_set (ids_bydid s) (RecoveryByDIDKey (rr_Did r) (rr_RecoveryId r)) [CHR 0x01]\<rparr>"

definition deleteRecoveryRequest :: "id_state \<Rightarrow> RecoveryRequest \<Rightarrow> id_state" where
  "deleteRecoveryRequest s r =
    deleteRecoveryTallyEpoch
      (s\<lparr>ids_recov := kv_delete (ids_recov s) (RecoveryKey (rr_RecoveryId r)),
         ids_bydid := kv_delete (ids_bydid s) (RecoveryByDIDKey (rr_Did r) (rr_RecoveryId r))\<rparr>)
      (rr_RecoveryId r)"

definition GetRecoveryRequest :: "id_state \<Rightarrow> bytes \<Rightarrow> RecoveryRequest option" where
  "GetRecoveryRequest s i = kv_get (ids_recov s) (RecoveryKey i)"

definition RecoveryRequestsForDID :: "id_state \<Rightarrow> string \<Rightarrow> RecoveryRequest list" where
  "RecoveryRequestsForDID s did =
    (let p = RecoveryByDIDPrefixFor did in
     List.map_filter (GetRecoveryRequest s) (map (\<lambda>e. drop (length p) (fst e)) (kv_prefix (ids_bydid s) p)))"

definition hasRecoveryNonce :: "id_state \<Rightarrow> string \<Rightarrow> bytes \<Rightarrow> bool" where
  "hasRecoveryNonce s did nonce = kv_has (ids_rnonce s) (RecoveryNonceKey did nonce)"

definition markRecoveryNonce :: "id_state \<Rightarrow> string \<Rightarrow> bytes \<Rightarrow> id_state" where
  "markRecoveryNonce s did nonce =
    s\<lparr>ids_rnonce := kv_set (ids_rnonce s) (RecoveryNonceKey did nonce) [CHR 0x01]\<rparr>"

subsection \<open>Deposits\<close>

definition escrowDeposit :: "sdk_env \<Rightarrow> bank \<Rightarrow> bytes \<Rightarrow> int \<Rightarrow> bank res" where
  "escrowDeposit E b from_addr amount =
    (if \<not> 0 < amount then Inr b else SendCoinsFromAccountToModule E b from_addr id_ModuleName amount)"

definition chargeReauthFee :: "sdk_env \<Rightarrow> bank \<Rightarrow> bytes \<Rightarrow> int \<Rightarrow> bank res" where
  "chargeReauthFee E b from_addr amount =
    (if \<not> 0 < amount then Inr b else SendCoinsFromAccountToModule E b from_addr id_FeeCollectorName amount)"

definition refundDeposit :: "sdk_env \<Rightarrow> bank \<Rightarrow> RecoveryRequest \<Rightarrow> bank res" where
  "refundDeposit E b r =
    (case NewIntFromString (rr_DepositUphi r) of
       None \<Rightarrow> Inr b
     | Some amount \<Rightarrow>
        if \<not> 0 < amount then Inr b
        else case AccAddressFromBech32 E (rr_ProposedNewController r) of
            None \<Rightarrow> Inl (Plain ''invalid address'')
          | Some to_addr \<Rightarrow> SendCoinsFromModuleToAccount E b id_ModuleName to_addr amount)"

definition forfeitDeposit :: "sdk_env \<Rightarrow> bank \<Rightarrow> RecoveryRequest \<Rightarrow> bank res" where
  "forfeitDeposit E b r =
    (case NewIntFromString (rr_DepositUphi r) of
       None \<Rightarrow> Inr b
     | Some amount \<Rightarrow>
        if \<not> 0 < amount then Inr b
        else SendCoinsFromModuleToModule E b id_ModuleName id_FeeCollectorName amount)"

subsection \<open>Expiry, suspension and superseding\<close>

definition recoveryFrozenBySuspension :: "id_state \<Rightarrow> string \<Rightarrow> bool" where
  "recoveryFrozenBySuspension s did =
    (case GetIdentity s did of None \<Rightarrow> False | Some doc \<Rightarrow> d_Status doc = DID_STATUS_SUSPENDED)"

type_synonym id_world = "bank \<times> id_state"

definition reapIfExpired ::
    "sdk_env \<Rightarrow> ctx \<Rightarrow> id_world \<Rightarrow> RecoveryRequest \<Rightarrow> (bool \<times> RecoveryRequest \<times> id_world) res" where
  "reapIfExpired E c w r = (case w of (b, s) \<Rightarrow>
    if IsTerminalRecoveryStatus (rr_Status r) then Inr (True, r, b, s)
    else if rr_FrozenAt r \<noteq> 0 \<and> recoveryFrozenBySuspension s (rr_Did r) then Inr (False, r, b, s)
    else if block_time c \<le> rr_ExpiresAt r then Inr (False, r, b, s)
    else bindE (forfeitDeposit E b r) (\<lambda>b'.
      Inr (True, r\<lparr>rr_Status := RECOVERY_STATUS_EXPIRED\<rparr>, b', deleteRecoveryRequest s r)))"

definition freezeLiveRecoveries :: "ctx \<Rightarrow> id_state \<Rightarrow> string \<Rightarrow> id_state" where
  "freezeLiveRecoveries c s did =
    foldl (\<lambda>s r.
      if IsTerminalRecoveryStatus (rr_Status r) \<or> rr_FrozenAt r \<noteq> 0 then s
      else if rr_ExpiresAt r < block_time c then s
      else SetRecoveryRequest s (r\<lparr>rr_FrozenAt := block_time c\<rparr>)) s (RecoveryRequestsForDID s did)"

definition thawed :: "int \<Rightarrow> int \<Rightarrow> RecoveryRequest \<Rightarrow> RecoveryRequest" where
  "thawed now ttl r =
    r\<lparr>rr_ExecuteAfter := (if rr_FrozenAt r < rr_ExecuteAfter r
                          then i64 (now + i64 (rr_ExecuteAfter r - rr_FrozenAt r)) else rr_ExecuteAfter r),
      rr_FrozenAt := 0, rr_ExpiresAt := i64 (now + ttl)\<rparr>"

definition thawRecoveries :: "ctx \<Rightarrow> id_state \<Rightarrow> string \<Rightarrow> id_state" where
  "thawRecoveries c s did =
    foldl (\<lambda>s' r.
      if rr_FrozenAt r = 0 \<or> IsTerminalRecoveryStatus (rr_Status r) then s'
      else SetRecoveryRequest s' (thawed (block_time c) (idp_RecoveryRequestTtlSeconds (id_GetParams s)) r))
     s (RecoveryRequestsForDID s did)"

definition countOpenRequests :: "sdk_env \<Rightarrow> ctx \<Rightarrow> id_world \<Rightarrow> string \<Rightarrow> (32 word \<times> id_world) res" where
  "countOpenRequests E c w did =
    foldE (\<lambda>r (n, w). bindE (reapIfExpired E c w r) (\<lambda>(terminal, _, w').
        Inr (if terminal then n else n + 1, w')))
     (RecoveryRequestsForDID (snd w) did) (0, w)"

text \<open>
  The shared loop of \<^verbatim>\<open>supersedeSiblings\<close> and \<^verbatim>\<open>terminateRecoveryRequestsForDID\<close>: forfeit and
  delete every live request of the DID that is not skipped.
\<close>

definition close_requests ::
    "sdk_env \<Rightarrow> (RecoveryRequest \<Rightarrow> bool) \<Rightarrow> RecoveryRequest list \<Rightarrow> id_world \<Rightarrow> id_world res" where
  "close_requests E skip rs w =
    foldE (\<lambda>r (b, s).
      if skip r \<or> IsTerminalRecoveryStatus (rr_Status r) then Inr (b, s)
      else bindE (forfeitDeposit E b r) (\<lambda>b'. Inr (b', deleteRecoveryRequest s r))) rs w"

definition supersedeSiblings :: "sdk_env \<Rightarrow> id_world \<Rightarrow> string \<Rightarrow> bytes \<Rightarrow> id_world res" where
  "supersedeSiblings E w did executed =
    close_requests E (\<lambda>r. rr_RecoveryId r = executed) (RecoveryRequestsForDID (snd w) did) w"

definition terminateRecoveryRequestsForDID :: "sdk_env \<Rightarrow> id_world \<Rightarrow> string \<Rightarrow> id_world res" where
  "terminateRecoveryRequestsForDID E w did =
    close_requests E (\<lambda>_. False) (RecoveryRequestsForDID (snd w) did) w"

definition assertNoKeyCollision :: "crypto_env \<Rightarrow> id_state \<Rightarrow> KeyType \<Rightarrow> bytes \<Rightarrow> unit res" where
  "assertNoKeyCollision C s keyType pubKey =
    (if keyType \<noteq> KEY_TYPE_SECP256R1 then Inl ErrInvalidRecovery
     else bindE (wrapE ErrInvalidPubKey (DeriveDIDFromP256 C pubKey)) (\<lambda>derived.
       if HasIdentity s derived then Inl ErrRecoveryKeyCollision else Inr ()))"

section \<open>Validator binding\<close>

definition BindValidatorToDID :: "id_state \<Rightarrow> string \<Rightarrow> string \<Rightarrow> id_state" where
  "BindValidatorToDID s did valoper =
    s\<lparr>ids_did2val := kv_set (ids_did2val s) (DIDToValidatorKey did) valoper,
      ids_val2did := kv_set (ids_val2did s) (ValidatorToDIDKey valoper) did\<rparr>"

definition ValidatorForDID :: "id_state \<Rightarrow> string \<Rightarrow> string option" where
  "ValidatorForDID s did = kv_get (ids_did2val s) (DIDToValidatorKey did)"

definition DIDForValidator :: "id_state \<Rightarrow> string \<Rightarrow> string option" where
  "DIDForValidator s valoper = kv_get (ids_val2did s) (ValidatorToDIDKey valoper)"

definition UnbindValidator :: "id_state \<Rightarrow> string \<Rightarrow> id_state" where
  "UnbindValidator s valoper =
    (let s1 = (case DIDForValidator s valoper of
                 None \<Rightarrow> s
               | Some did \<Rightarrow> s\<lparr>ids_did2val := kv_delete (ids_did2val s) (DIDToValidatorKey did)\<rparr>)
     in s1\<lparr>ids_val2did := kv_delete (ids_val2did s1) (ValidatorToDIDKey valoper)\<rparr>)"

text \<open>The two bounded scans; the third component of the source's result reports truncation.\<close>

primrec bounded_scan :: "(string \<Rightarrow> string option) \<Rightarrow> string list \<Rightarrow> nat \<Rightarrow> string option \<times> bool" where
  "bounded_scan sel [] scanned = (None, False)"
| "bounded_scan sel (cand # cs) scanned =
    (if scanned = MaxControllerDIDScan then (None, True)
     else case sel cand of
         Some did \<Rightarrow> (Some did, False)
       | None \<Rightarrow> bounded_scan sel cs (Suc scanned))"

definition subjectDIDBounded :: "id_state \<Rightarrow> string \<Rightarrow> string option \<times> bool" where
  "subjectDIDBounded s controller =
    bounded_scan (\<lambda>cand. map_option (\<lambda>_. cand) (GetIdentity s cand)) (controller_dids s controller) 0"

definition SubjectDID :: "id_state \<Rightarrow> string \<Rightarrow> string option" where
  "SubjectDID s controller = fst (subjectDIDBounded s controller)"

definition primaryDIDBounded :: "id_state \<Rightarrow> string \<Rightarrow> string option \<times> bool" where
  "primaryDIDBounded s controller =
    bounded_scan (\<lambda>cand. case GetIdentity s cand of
        None \<Rightarrow> None
      | Some d \<Rightarrow> if d_Status d = DID_STATUS_ACTIVE then Some (d_Did d) else None)
     (controller_dids s controller) 0"

definition PrimaryDID :: "id_state \<Rightarrow> string \<Rightarrow> string option" where
  "PrimaryDID s controller = fst (primaryDIDBounded s controller)"

end
