(* ===== verification/IdMsgs.thy ===== *)
theory IdMsgs
  imports IdKeeper
begin

text \<open>
  The messages of \<^verbatim>\<open>x/identity\<close>: stateless validation (\<^verbatim>\<open>types/msgs.go\<close>), the handlers of
  \<^verbatim>\<open>keeper/msg_server.go\<close>, \<^verbatim>\<open>issuer.go\<close> and \<^verbatim>\<open>msg_server_recovery.go\<close>, the staking hooks and the
  validator sweep of \<^verbatim>\<open>EndBlock\<close>.
\<close>

section \<open>Messages\<close>

record MsgRegisterIdentity =
  ri_Creator :: string
  ri_Did :: string
  ri_PubKey :: bytes
  ri_UniquenessHash :: bytes
  ri_IssuerDid :: string
  ri_IssuerSig :: bytes
  ri_Nonce :: bytes
  ri_PopSig :: bytes
  ri_KeyType :: KeyType

record MsgRotateIdentityKey =
  rk_Creator :: string
  rk_Did :: string
  rk_NewPubKey :: bytes
  rk_PopSig :: bytes

record MsgRevokeIdentity =
  rv_Creator :: string
  rv_Did :: string

record MsgUpdateStatus =
  us_Authority :: string
  us_Did :: string
  us_NewStatus :: DIDStatus

record MsgSetGuardians =
  sg_Controller :: string
  sg_Did :: string
  sg_Commitments :: "bytes list"
  sg_Threshold :: "32 word"

record MsgInitiateRecovery =
  ir_Creator :: string
  ir_Did :: string
  ir_ProposedNewPubKey :: bytes
  ir_KeyType :: KeyType
  ir_Method :: RecoveryMethod
  ir_Nonce :: bytes
  ir_PopSig :: bytes
  ir_ReauthAttestation :: bytes
  ir_AttestorDid :: string

text \<open>\<^verbatim>\<open>MsgApproveRecovery\<close> and \<^verbatim>\<open>MsgRejectRecovery\<close> have the same fields.\<close>

record MsgGuardianVote =
  gv_Creator :: string
  gv_RecoveryId :: bytes
  gv_GuardianDid :: string
  gv_Salt :: bytes

text \<open>\<^verbatim>\<open>MsgExecuteRecovery\<close> and \<^verbatim>\<open>MsgCancelRecovery\<close> have the same fields.\<close>

record MsgCloseRecovery =
  cr_Creator :: string
  cr_RecoveryId :: bytes

section \<open>Stateless validation\<close>

definition id_check_address :: "sdk_env \<Rightarrow> string \<Rightarrow> unit res" where
  "id_check_address E a = (case AccAddressFromBech32 E a of None \<Rightarrow> Inl ErrInvalidAddress | Some _ \<Rightarrow> Inr ())"

definition check_len :: "err \<Rightarrow> nat \<Rightarrow> bytes \<Rightarrow> unit res" where
  "check_len e hi b = (if length b = 0 \<or> hi < length b then Inl e else Inr ())"

definition MaxNonceLen :: nat where "MaxNonceLen = 64"

definition MsgRegisterIdentity_ValidateBasic :: "sdk_env \<Rightarrow> MsgRegisterIdentity \<Rightarrow> unit res" where
  "MsgRegisterIdentity_ValidateBasic E m =
    bindE (id_check_address E (ri_Creator m)) (\<lambda>_.
    bindE (wrapE ErrInvalidDID (ValidateDID (ri_Did m))) (\<lambda>_.
    bindE (check_len ErrInvalidPubKey MaxPubKeyLen (ri_PubKey m)) (\<lambda>_.
    bindE (check_len ErrInvalidUniqueness MaxUniquenessHashLen (ri_UniquenessHash m)) (\<lambda>_.
    bindE (wrapE ErrInvalidDID (ValidateDID (ri_IssuerDid m))) (\<lambda>_.
    bindE (check_len ErrInvalidIssuerSig MaxIssuerSigLen (ri_IssuerSig m)) (\<lambda>_.
    bindE (check_len ErrInvalidIssuerSig MaxNonceLen (ri_Nonce m)) (\<lambda>_.
    bindE (check_len ErrInvalidPoP MaxIssuerSigLen (ri_PopSig m)) (\<lambda>_.
    bindE (wrapE ErrInvalidPubKey (CurveForKeyType (ri_KeyType m))) (\<lambda>_. Inr ())))))))))"

definition MsgRotateIdentityKey_ValidateBasic :: "sdk_env \<Rightarrow> MsgRotateIdentityKey \<Rightarrow> unit res" where
  "MsgRotateIdentityKey_ValidateBasic E m =
    bindE (id_check_address E (rk_Creator m)) (\<lambda>_.
    bindE (wrapE ErrInvalidDID (ValidateDID (rk_Did m))) (\<lambda>_.
    bindE (check_len ErrInvalidPubKey MaxPubKeyLen (rk_NewPubKey m)) (\<lambda>_.
    check_len ErrInvalidPoP MaxIssuerSigLen (rk_PopSig m))))"

definition MsgSetGuardians_ValidateBasic :: "sdk_env \<Rightarrow> MsgSetGuardians \<Rightarrow> unit res" where
  "MsgSetGuardians_ValidateBasic E m =
    bindE (id_check_address E (sg_Controller m)) (\<lambda>_.
    ValidateGuardianSetBasic (sg_Did m) (sg_Commitments m) (sg_Threshold m))"

definition MsgUpdateStatus_ValidateBasic :: "sdk_env \<Rightarrow> MsgUpdateStatus \<Rightarrow> unit res" where
  "MsgUpdateStatus_ValidateBasic E m =
    bindE (id_check_address E (us_Authority m)) (\<lambda>_.
    bindE (wrapE ErrInvalidDID (ValidateDID (us_Did m))) (\<lambda>_.
    if us_NewStatus m \<noteq> DID_STATUS_ACTIVE \<and> us_NewStatus m \<noteq> DID_STATUS_SUSPENDED
    then Inl ErrInvalidStatusTransition else Inr ()))"

definition MsgRegisterTrustedIssuer_ValidateBasic :: "sdk_env \<Rightarrow> string \<Rightarrow> TrustedIssuer \<Rightarrow> unit res" where
  "MsgRegisterTrustedIssuer_ValidateBasic E authority issuer =
    bindE (id_check_address E authority) (\<lambda>_.
    bindE (wrapE ErrInvalidDID (ValidateDID (ti_Did issuer))) (\<lambda>_.
    check_len ErrInvalidPubKey MaxPubKeyLen (ti_PubKey issuer)))"

definition MsgInitiateRecovery_ValidateBasic :: "sdk_env \<Rightarrow> MsgInitiateRecovery \<Rightarrow> unit res" where
  "MsgInitiateRecovery_ValidateBasic E m =
    bindE (id_check_address E (ir_Creator m)) (\<lambda>_.
    bindE (wrapE ErrInvalidDID (ValidateDID (ir_Did m))) (\<lambda>_.
    bindE (check_len ErrInvalidPubKey MaxPubKeyLen (ir_ProposedNewPubKey m)) (\<lambda>_.
    if ir_KeyType m \<noteq> KEY_TYPE_SECP256R1 then Inl ErrInvalidRecovery
    else bindE (ValidateRecoveryNonce (ir_Nonce m)) (\<lambda>_.
    bindE (check_len ErrInvalidPoP MaxRecoverySigLen (ir_PopSig m)) (\<lambda>_.
    (case ir_Method m of
       RECOVERY_METHOD_SOCIAL \<Rightarrow>
         if length (ir_ReauthAttestation m) \<noteq> 0 \<or> ir_AttestorDid m \<noteq> [] then Inl ErrInvalidRecovery else Inr ()
     | RECOVERY_METHOD_REAUTH \<Rightarrow>
         bindE (check_len ErrInvalidReauthAttestation MaxRecoverySigLen (ir_ReauthAttestation m)) (\<lambda>_.
         wrapE ErrInvalidDID (ValidateDID (ir_AttestorDid m)))
     | _ \<Rightarrow> Inl ErrInvalidRecovery))))))"

definition MsgGuardianVote_ValidateBasic :: "sdk_env \<Rightarrow> MsgGuardianVote \<Rightarrow> unit res" where
  "MsgGuardianVote_ValidateBasic E m =
    bindE (id_check_address E (gv_Creator m)) (\<lambda>_.
    if length (gv_RecoveryId m) \<noteq> RecoveryIDLen then Inl ErrInvalidRecovery
    else bindE (wrapE ErrInvalidDID (ValidateDID (gv_GuardianDid m))) (\<lambda>_.
    if length (gv_Salt m) \<noteq> GuardianSaltLen then Inl ErrInvalidGuardians else Inr ()))"

section \<open>Registration and issuers\<close>

definition verifyRegistration :: "id_deps \<Rightarrow> ctx \<Rightarrow> id_state \<Rightarrow> MsgRegisterIdentity \<Rightarrow> unit res" where
  "verifyRegistration D c s m =
    bindE (wrapE ErrInvalidPubKey (CurveForKeyType (ri_KeyType m))) (\<lambda>curve.
    bindE (wrapE ErrInvalidPubKey (DeriveDIDForKeyType (I_crypto D) (ri_KeyType m) (ri_PubKey m))) (\<lambda>derived.
    if ri_Did m \<noteq> derived then Inl ErrInvalidDID
    else case GetTrustedIssuer s (ri_IssuerDid m) of
        None \<Rightarrow> Inl ErrIssuerNotTrusted
      | Some issuer \<Rightarrow>
         if \<not> ti_Active issuer then Inl ErrIssuerNotTrusted
         else if hasIssuerNonce s (ri_IssuerDid m) (ri_Nonce m) then Inl ErrNonceReused
         else
          (let msg = attestationMessage (chain_id c) (ri_Did m) (ri_PubKey m) (ri_UniquenessHash m)
                       (ri_Creator m) (ri_Nonce m) in
           if \<not> I_VerifySignature D Secp256r1 (ti_PubKey issuer) msg (ri_IssuerSig m) then Inl ErrInvalidIssuerSig
           else if \<not> I_VerifySignature D curve (ri_PubKey m) msg (ri_PopSig m) then Inl ErrInvalidPoP
           else Inr ())))"

definition RegisterIdentity :: "id_deps \<Rightarrow> ctx \<Rightarrow> id_state \<Rightarrow> MsgRegisterIdentity \<Rightarrow> id_state res" where
  "RegisterIdentity D c s m =
    (if HasIdentity s (ri_Did m) then Inl ErrIdentityExists
     else if HasUniqueness s (ri_UniquenessHash m) then Inl ErrUniquenessUsed
     else bindE (verifyRegistration D c s m) (\<lambda>_.
       (let doc = \<lparr>d_Did = ri_Did m, d_Controller = ri_Creator m, d_PubKey = ri_PubKey m,
                   d_UniquenessHash = ri_UniquenessHash m, d_CreatedAt = block_time c,
                   d_Status = DID_STATUS_ACTIVE, d_KeyType = ri_KeyType m\<rparr>;
            s1 = markIssuerNonce (setUniqueness (SetIdentity c s doc) (ri_UniquenessHash m) (ri_Did m))
                   (ri_IssuerDid m) (ri_Nonce m);
            count = GetIdentityCount s1 + 1;
            s2 = SetIdentityCount s1 count;
            params = id_GetParams s2
        in if idp_BootstrapPhase params \<and> idp_BootstrapThreshold params \<le> count
           then id_SetParams s2 (params\<lparr>idp_BootstrapPhase := False\<rparr>)
           else Inr s2)))"

definition RegisterTrustedIssuer :: "id_deps \<Rightarrow> id_state \<Rightarrow> string \<Rightarrow> TrustedIssuer \<Rightarrow> id_state res" where
  "RegisterTrustedIssuer D s authority issuer =
    (if authority \<noteq> I_authority D then Inl ErrInvalidSigner else Inr (SetTrustedIssuer s issuer))"

definition RevokeTrustedIssuer :: "id_deps \<Rightarrow> id_state \<Rightarrow> string \<Rightarrow> string \<Rightarrow> id_state res" where
  "RevokeTrustedIssuer D s authority did =
    (if authority \<noteq> I_authority D then Inl ErrInvalidSigner
     else case GetTrustedIssuer s did of
         None \<Rightarrow> Inl ErrIssuerNotFound
       | Some ti \<Rightarrow> Inr (SetTrustedIssuer s (ti\<lparr>ti_Active := False\<rparr>)))"

section \<open>Life cycle of an identity\<close>

definition RevokeIdentity :: "id_deps \<Rightarrow> ctx \<Rightarrow> id_world \<Rightarrow> MsgRevokeIdentity \<Rightarrow> id_world res" where
  "RevokeIdentity D c w m = (case w of (b, s) \<Rightarrow>
    case GetIdentity s (rv_Did m) of
      None \<Rightarrow> Inl ErrIdentityNotFound
    | Some doc \<Rightarrow>
       if rv_Creator m \<noteq> d_Controller doc \<and> rv_Creator m \<noteq> I_authority D then Inl id_ErrUnauthorized
       else if d_Status doc = DID_STATUS_REVOKED then Inl ErrIdentityRevoked
       else
         bindE (terminateRecoveryRequestsForDID (I_env D)
                  (b, SetIdentity c s (doc\<lparr>d_Status := DID_STATUS_REVOKED\<rparr>)) (rv_Did m)) (\<lambda>(b', s1).
         (let s2 = DeleteGuardianSet s1 (rv_Did m);
              s3 = (case ValidatorForDID s2 (rv_Did m) of None \<Rightarrow> s2 | Some valoper \<Rightarrow> UnbindValidator s2 valoper)
          in Inr (b', bumpGuardianEpoch s3 (rv_Did m)))))"

definition RotateIdentityKey :: "id_deps \<Rightarrow> ctx \<Rightarrow> id_state \<Rightarrow> MsgRotateIdentityKey \<Rightarrow> id_state res" where
  "RotateIdentityKey D c s m =
    (case GetIdentity s (rk_Did m) of
       None \<Rightarrow> Inl ErrIdentityNotFound
     | Some doc \<Rightarrow>
        if rk_Creator m \<noteq> d_Controller doc then Inl id_ErrUnauthorized
        else if d_Status doc \<noteq> DID_STATUS_ACTIVE then Inl ErrKeyRotation
        else bindE (wrapE ErrKeyRotation (CurveForKeyType (d_KeyType doc))) (\<lambda>curve.
          if \<not> I_VerifySignature D curve (rk_NewPubKey m)
                (rotationMessage (chain_id c) (rk_Did m) (rk_NewPubKey m) (rk_Creator m)) (rk_PopSig m)
          then Inl ErrInvalidPoP
          else bindE (wrapE ErrInvalidPubKey
                 (DeriveDIDForKeyType (I_crypto D) (d_KeyType doc) (rk_NewPubKey m))) (\<lambda>derived.
            if derived \<noteq> d_Did doc \<and> HasIdentity s derived then Inl ErrRecoveryKeyCollision
            else Inr (SetIdentity c s (doc\<lparr>d_PubKey := rk_NewPubKey m\<rparr>)))))"

definition UpdateStatus :: "id_deps \<Rightarrow> ctx \<Rightarrow> id_state \<Rightarrow> MsgUpdateStatus \<Rightarrow> id_state res" where
  "UpdateStatus D c s m =
    (if us_Authority m \<noteq> I_authority D then Inl ErrInvalidSigner
     else if us_NewStatus m \<noteq> DID_STATUS_ACTIVE \<and> us_NewStatus m \<noteq> DID_STATUS_SUSPENDED
       then Inl ErrInvalidStatusTransition
     else case GetIdentity s (us_Did m) of
         None \<Rightarrow> Inl ErrIdentityNotFound
       | Some doc \<Rightarrow>
          if d_Status doc = DID_STATUS_REVOKED then Inl ErrIdentityRevoked
          else if d_Status doc = us_NewStatus m then Inl ErrInvalidStatusTransition
          else
           (let s1 = SetIdentity c s (doc\<lparr>d_Status := us_NewStatus m\<rparr>) in
            if d_Status doc = DID_STATUS_ACTIVE \<and> us_NewStatus m = DID_STATUS_SUSPENDED
            then Inr (freezeLiveRecoveries c s1 (us_Did m))
            else if d_Status doc = DID_STATUS_SUSPENDED \<and> us_NewStatus m = DID_STATUS_ACTIVE
            then Inr (thawRecoveries c s1 (us_Did m))
            else Inr s1))"

definition SetGuardians :: "ctx \<Rightarrow> id_state \<Rightarrow> MsgSetGuardians \<Rightarrow> id_state res" where
  "SetGuardians c s m =
    (case GetIdentity s (sg_Did m) of
       None \<Rightarrow> Inl ErrIdentityNotFound
     | Some doc \<Rightarrow>
        if sg_Controller m \<noteq> d_Controller doc then Inl id_ErrUnauthorized
        else if d_Status doc \<noteq> DID_STATUS_ACTIVE then Inl ErrInvalidGuardians
        else bindE (ValidateGuardianSetBasic (sg_Did m) (sg_Commitments m) (sg_Threshold m)) (\<lambda>_.
          bindE (validateGuardianSetCap s (sg_Commitments m)) (\<lambda>_.
          Inr (bumpGuardianEpoch (SetGuardianSet s
                 \<lparr>gs_Did = sg_Did m, gs_Commitments = sg_Commitments m, gs_Threshold = sg_Threshold m,
                  gs_UpdatedAt = block_time c\<rparr>) (sg_Did m)))))"

definition id_UpdateParams :: "id_deps \<Rightarrow> id_state \<Rightarrow> string \<Rightarrow> id_Params \<Rightarrow> id_state res" where
  "id_UpdateParams D s authority p =
    (if authority \<noteq> I_authority D then Inl ErrInvalidSigner else id_SetParams s p)"

section \<open>Recovery\<close>

definition verifyReauthAttestation ::
    "id_deps \<Rightarrow> ctx \<Rightarrow> id_state \<Rightarrow> MsgInitiateRecovery \<Rightarrow> DIDDocument \<Rightarrow> unit res" where
  "verifyReauthAttestation D c s m doc =
    (case GetTrustedIssuer s (ir_AttestorDid m) of
       None \<Rightarrow> Inl ErrIssuerNotTrusted
     | Some attestor \<Rightarrow>
        if \<not> ti_Active attestor then Inl ErrIssuerNotTrusted
        else if \<not> I_VerifySignature D Secp256r1 (ti_PubKey attestor)
               (ReauthAttestationMessage (chain_id c) (ir_Did m) (ir_ProposedNewPubKey m) (ir_Creator m)
                 (d_UniquenessHash doc) (ir_Nonce m)) (ir_ReauthAttestation m)
          then Inl ErrInvalidReauthAttestation
        else Inr ())"

text \<open>The checks of \<^verbatim>\<open>InitiateRecovery\<close> up to the slot count.\<close>

definition initiate_checks :: "id_deps \<Rightarrow> ctx \<Rightarrow> id_state \<Rightarrow> MsgInitiateRecovery \<Rightarrow> unit res" where
  "initiate_checks D c s m =
    (let reauth = (ir_Method m = RECOVERY_METHOD_REAUTH) in
     if reauth \<and> \<not> I_ReauthRecoveryEnabled D then Inl ErrReauthNotEnabled
     else case GetIdentity s (ir_Did m) of
         None \<Rightarrow> Inl ErrIdentityNotFound
       | Some doc \<Rightarrow>
          if d_Status doc \<noteq> DID_STATUS_ACTIVE then Inl ErrInvalidRecovery
          else if \<not> reauth \<and> GetGuardians s (ir_Did m) = None then Inl ErrInvalidGuardians
          else if ir_ProposedNewPubKey m = d_PubKey doc then Inl ErrInvalidRecovery
          else bindE (assertNoKeyCollision (I_crypto D) s (ir_KeyType m) (ir_ProposedNewPubKey m)) (\<lambda>_.
            if hasRecoveryNonce s (ir_Did m) (ir_Nonce m) then Inl ErrRecoveryNonceReused
            else if \<not> I_VerifySignature D Secp256r1 (ir_ProposedNewPubKey m)
                   (SocialRecoveryPoPMessage (chain_id c) (ir_Did m) (ir_ProposedNewPubKey m) (ir_Creator m)
                     (ir_Nonce m)) (ir_PopSig m)
              then Inl ErrInvalidPoP
            else if reauth then verifyReauthAttestation D c s m doc
            else Inr ()))"

definition InitiateRecovery ::
    "id_deps \<Rightarrow> ctx \<Rightarrow> id_world \<Rightarrow> MsgInitiateRecovery \<Rightarrow> (bytes \<times> id_world) res" where
  "InitiateRecovery D c w m =
    (let params = id_GetParams (snd w); reauth = (ir_Method m = RECOVERY_METHOD_REAUTH) in
     bindE (initiate_checks D c (snd w) m) (\<lambda>_.
     bindE (countOpenRequests (I_env D) c w (ir_Did m)) (\<lambda>(open, (b, s)).
     if idp_MaxOpenRecoveryRequests params \<le> open then Inl ErrRecoverySlotsFull
     else
      (let recoveryID = DeriveRecoveryID (I_crypto D) (ir_Did m) (ir_ProposedNewPubKey m) (ir_Nonce m) in
       if GetRecoveryRequest s recoveryID \<noteq> None then Inl ErrInvalidRecovery
       else case AccAddressFromBech32 (I_env D) (ir_Creator m) of
           None \<Rightarrow> Inl (Plain ''invalid address'')
         | Some initiator \<Rightarrow>
            (let fee = (if reauth then ReauthRecoveryFee params else 0);
                 deposit = (if reauth then 0 else RecoveryDeposit params) in
             bindE (if reauth then chargeReauthFee (I_env D) b initiator fee
                    else escrowDeposit (I_env D) b initiator deposit) (\<lambda>b'.
             (let now = block_time c;
                  req = \<lparr>rr_RecoveryId = recoveryID, rr_Did = ir_Did m,
                         rr_ProposedNewPubKey = ir_ProposedNewPubKey m, rr_ProposedNewController = ir_Creator m,
                         rr_KeyType = ir_KeyType m, rr_Method = ir_Method m, rr_Approvals = [],
                         rr_Nonce = ir_Nonce m, rr_InitiatedAt = now,
                         rr_ExecuteAfter = i64 (now + idp_RecoveryDelaySeconds params),
                         rr_ExpiresAt = i64 (now + idp_RecoveryRequestTtlSeconds params),
                         rr_DepositUphi = Int_String deposit, rr_Status = RECOVERY_STATUS_PENDING,
                         rr_AttestorDid = ir_AttestorDid m, rr_FeeUphi = Int_String fee,
                         rr_Rejections = [], rr_FrozenAt = 0\<rparr>
              in Inr (recoveryID, b', markRecoveryNonce (SetRecoveryRequest s req) (ir_Did m) (ir_Nonce m)))))))))"

text \<open>
  The common opening of the other four handlers: the request must exist and still be live.  When
  the expiry was reaped the handler fails, so the reaping itself is discarded with the message.
\<close>

definition live_request ::
    "sdk_env \<Rightarrow> ctx \<Rightarrow> id_world \<Rightarrow> bytes \<Rightarrow> (RecoveryRequest \<times> id_world) res" where
  "live_request E c w i =
    (case GetRecoveryRequest (snd w) i of
       None \<Rightarrow> Inl ErrRecoveryNotFound
     | Some req \<Rightarrow>
        bindE (reapIfExpired E c w req) (\<lambda>(terminal, req', w').
          if terminal then Inl ErrRecoveryNotPending else Inr (req', w')))"

definition ApproveRecovery :: "id_deps \<Rightarrow> ctx \<Rightarrow> id_world \<Rightarrow> MsgGuardianVote \<Rightarrow> id_world res" where
  "ApproveRecovery D c w m =
    bindE (live_request (I_env D) c w (gv_RecoveryId m)) (\<lambda>(req, (b, s)).
    if rr_Method req = RECOVERY_METHOD_REAUTH then Inl ErrInvalidRecovery
    else bindE (openGuardianCommitment D s (rr_Did req) (gv_GuardianDid m) (gv_Salt m) (gv_Creator m)) (\<lambda>_.
      case syncTallyEpoch s req of (req1, s1) \<Rightarrow>
        if gv_GuardianDid m \<in> set (rr_Approvals req1) then Inl ErrAlreadyApproved
        else Inr (b, SetRecoveryRequest s1 (req1\<lparr>rr_Approvals := rr_Approvals req1 @ [gv_GuardianDid m]\<rparr>))))"

definition RejectRecovery :: "id_deps \<Rightarrow> ctx \<Rightarrow> id_world \<Rightarrow> MsgGuardianVote \<Rightarrow> id_world res" where
  "RejectRecovery D c w m =
    bindE (live_request (I_env D) c w (gv_RecoveryId m)) (\<lambda>(req, (b, s)).
    if rr_Method req = RECOVERY_METHOD_REAUTH then Inl ErrInvalidRecovery
    else bindE (openGuardianCommitment D s (rr_Did req) (gv_GuardianDid m) (gv_Salt m) (gv_Creator m)) (\<lambda>_.
      case syncTallyEpoch s req of (req1, s1) \<Rightarrow>
        if gv_GuardianDid m \<in> set (rr_Rejections req1) then Inl ErrAlreadyRejected
        else
         (let req2 = req1\<lparr>rr_Rejections := rr_Rejections req1 @ [gv_GuardianDid m]\<rparr> in
          case GetGuardians s1 (rr_Did req2) of
            None \<Rightarrow> Inl ErrInvalidGuardians
          | Some gs \<Rightarrow>
             if unat (gs_Threshold gs) \<le> length (rr_Rejections req2)
             then bindE (forfeitDeposit (I_env D) b req2) (\<lambda>b'. Inr (b', deleteRecoveryRequest s1 req2))
             else Inr (b, SetRecoveryRequest s1 req2))))"

definition execute_checks ::
    "id_deps \<Rightarrow> ctx \<Rightarrow> id_state \<Rightarrow> RecoveryRequest \<Rightarrow> DIDDocument res" where
  "execute_checks D c s req =
    (if block_time c < rr_ExecuteAfter req then Inl ErrRecoveryTooEarly
     else bindE
       (if rr_Method req \<noteq> RECOVERY_METHOD_REAUTH
        then (case GetGuardians s (rr_Did req) of
                None \<Rightarrow> Inl ErrInvalidGuardians
              | Some gs \<Rightarrow>
                 if length (EffectiveApprovals s req) < unat (gs_Threshold gs) then Inl ErrRecoveryBelowQuorum
                 else Inr ())
        else Inr ())
       (\<lambda>_. case GetIdentity s (rr_Did req) of
           None \<Rightarrow> Inl ErrIdentityNotFound
         | Some doc \<Rightarrow>
            if d_Status doc \<noteq> DID_STATUS_ACTIVE then Inl ErrInvalidRecovery
            else bindE (assertNoKeyCollision (I_crypto D) s (rr_KeyType req) (rr_ProposedNewPubKey req)) (\<lambda>_.
              Inr doc)))"

definition ExecuteRecovery :: "id_deps \<Rightarrow> ctx \<Rightarrow> id_world \<Rightarrow> MsgCloseRecovery \<Rightarrow> id_world res" where
  "ExecuteRecovery D c w m =
    bindE (live_request (I_env D) c w (cr_RecoveryId m)) (\<lambda>(req, (b, s)).
    bindE (execute_checks D c s req) (\<lambda>doc.
    (let s1 = SetIdentity c s (doc\<lparr>d_PubKey := rr_ProposedNewPubKey req, d_KeyType := rr_KeyType req,
                 d_Controller := rr_ProposedNewController req\<rparr>) in
     bindE (refundDeposit (I_env D) b req) (\<lambda>b'.
     supersedeSiblings (I_env D) (b', deleteRecoveryRequest s1 req) (rr_Did req) (rr_RecoveryId req)))))"

definition CancelRecovery :: "id_deps \<Rightarrow> ctx \<Rightarrow> id_world \<Rightarrow> MsgCloseRecovery \<Rightarrow> id_world res" where
  "CancelRecovery D c w m =
    bindE (live_request (I_env D) c w (cr_RecoveryId m)) (\<lambda>(req, (b, s)).
    case GetIdentity s (rr_Did req) of
      None \<Rightarrow> Inl ErrIdentityNotFound
    | Some doc \<Rightarrow>
       if cr_Creator m \<noteq> d_Controller doc then Inl id_ErrUnauthorized
       else bindE (forfeitDeposit (I_env D) b req) (\<lambda>b'. Inr (b', deleteRecoveryRequest s req)))"

section \<open>Staking hooks and the validator sweep\<close>

text \<open>
  The staking and slashing keepers are parameters: their state \<^verbatim>\<open>'x\<close>, the last validator set,
  and the operations the sweep calls.  The errors of \<^verbatim>\<open>Tombstone\<close> and \<^verbatim>\<open>JailUntil\<close> are ignored
  by the code, so they are state transformers.
\<close>

record ValidatorInfo =
  vi_Operator :: string
  vi_ConsAddr :: "bytes option"
  vi_Jailed :: bool

record 'x val_ops =
  vo_LastValidators :: "'x \<Rightarrow> ValidatorInfo list res"
  vo_Jail :: "'x \<Rightarrow> bytes \<Rightarrow> 'x res"
  vo_IsTombstoned :: "'x \<Rightarrow> bytes \<Rightarrow> bool"
  vo_Tombstone :: "'x \<Rightarrow> bytes \<Rightarrow> 'x"
  vo_JailUntil :: "'x \<Rightarrow> bytes \<Rightarrow> 'x"
  vo_OperatorAccount :: "string \<Rightarrow> string"
  vo_MinSelfDelegation :: "'x \<Rightarrow> string \<Rightarrow> int res"

datatype ValidatorSweepOutcome = SweepKept | SweepBound | SweepJailed | SweepTombstoned

definition AfterValidatorCreated ::
    "'x val_ops \<Rightarrow> int \<Rightarrow> ctx \<Rightarrow> 'x \<Rightarrow> id_state \<Rightarrow> string \<Rightarrow> id_state res" where
  "AfterValidatorCreated V minSelfStake c x s valoper =
    (if block_height c = 0 then Inr s
     else case PrimaryDID s (vo_OperatorAccount V valoper) of
         None \<Rightarrow> Inl ErrValidatorNeedsDID
       | Some did \<Rightarrow>
          if (case ValidatorForDID s did of None \<Rightarrow> False | Some bound \<Rightarrow> bound \<noteq> valoper)
          then Inl ErrDIDAlreadyValidator
          else bindE (vo_MinSelfDelegation V x valoper) (\<lambda>msd.
            if msd < minSelfStake then Inl ErrMinSelfDelegation
            else Inr (BindValidatorToDID s did valoper)))"

definition AfterValidatorRemoved :: "id_state \<Rightarrow> string \<Rightarrow> id_state" where
  "AfterValidatorRemoved s valoper = UnbindValidator s valoper"

definition removeReversibly ::
    "'x val_ops \<Rightarrow> 'x \<Rightarrow> bytes \<Rightarrow> bool \<Rightarrow> (ValidatorSweepOutcome \<times> 'x) res" where
  "removeReversibly V x consAddr alreadyJailed =
    (if alreadyJailed then Inr (SweepJailed, x)
     else bindE (vo_Jail V x consAddr) (\<lambda>x'. Inr (SweepJailed, x')))"

definition removePermanently ::
    "'x val_ops \<Rightarrow> 'x \<Rightarrow> bytes \<Rightarrow> bool \<Rightarrow> (ValidatorSweepOutcome \<times> 'x) res" where
  "removePermanently V x consAddr alreadyJailed =
    bindE (if alreadyJailed then Inr x else vo_Jail V x consAddr) (\<lambda>x1.
    Inr (SweepTombstoned,
         if vo_IsTombstoned V x1 consAddr then x1
         else vo_JailUntil V (vo_Tombstone V x1 consAddr) consAddr))"

definition removeByIdentityStatus ::
    "'x val_ops \<Rightarrow> 'x \<Rightarrow> id_state \<Rightarrow> string \<Rightarrow> bytes \<Rightarrow> bool \<Rightarrow> (ValidatorSweepOutcome \<times> 'x) res" where
  "removeByIdentityStatus V x s acc consAddr alreadyJailed =
    (case ControllerSweepStatus s acc of (_, hasSuspended, hasRevoked, _) \<Rightarrow>
      if hasRevoked \<and> \<not> hasSuspended then removePermanently V x consAddr alreadyJailed
      else removeReversibly V x consAddr alreadyJailed)"

definition sweepOne ::
    "'x val_ops \<Rightarrow> 'x \<Rightarrow> id_state \<Rightarrow> string \<Rightarrow> bytes \<Rightarrow> bool \<Rightarrow> (ValidatorSweepOutcome \<times> 'x \<times> id_state) res" where
  "sweepOne V x s valoper consAddr alreadyJailed =
    (let acc = vo_OperatorAccount V valoper;
         removed = (\<lambda>s r. bindE r (\<lambda>(outcome, x'). Inr (outcome, x', s))) in
     case DIDForValidator s valoper of
       None \<Rightarrow>
        (let primary = fst (ControllerSweepStatus s acc) in
         if primary = [] then removed s (removeByIdentityStatus V x s acc consAddr alreadyJailed)
         else if (case ValidatorForDID s primary of None \<Rightarrow> False | Some other \<Rightarrow> other \<noteq> valoper)
           then removed s (removeReversibly V x consAddr alreadyJailed)
         else Inr (SweepBound, x, BindValidatorToDID s primary valoper))
     | Some did \<Rightarrow>
        (case GetIdentity s did of
           None \<Rightarrow>
             removed (UnbindValidator s valoper)
               (removeByIdentityStatus V x (UnbindValidator s valoper) acc consAddr alreadyJailed)
         | Some doc \<Rightarrow>
            (case d_Status doc of
               DID_STATUS_ACTIVE \<Rightarrow> Inr (SweepKept, x, s)
             | DID_STATUS_SUSPENDED \<Rightarrow> removed s (removeReversibly V x consAddr alreadyJailed)
             | _ \<Rightarrow> removed (UnbindValidator s valoper) (removePermanently V x consAddr alreadyJailed))))"

text \<open>\<^verbatim>\<open>sweepOneIsolated\<close>: an error or panic of one validator discards that validator's writes only.\<close>

definition sweepOneIsolated ::
    "'x val_ops \<Rightarrow> 'x \<times> id_state \<times> (string \<times> ValidatorSweepOutcome) list \<Rightarrow> string \<times> bytes \<times> bool
      \<Rightarrow> 'x \<times> id_state \<times> (string \<times> ValidatorSweepOutcome) list" where
  "sweepOneIsolated V st cand = (case st of (x, s, outcomes) \<Rightarrow> case cand of (valoper, consAddr, jailed) \<Rightarrow>
    (case sweepOne V x s valoper consAddr jailed of
       Inl _ \<Rightarrow> (x, s, outcomes)
     | Inr (outcome, x', s') \<Rightarrow> (x', s', outcomes @ [(valoper, outcome)])))"

definition SweepValidatorBindings ::
    "'x val_ops \<Rightarrow> 'x \<Rightarrow> id_state \<Rightarrow> 'x \<times> id_state \<times> (string \<times> ValidatorSweepOutcome) list" where
  "SweepValidatorBindings V x s =
    (case vo_LastValidators V x of
       Inl _ \<Rightarrow> (x, s, [])
     | Inr vs \<Rightarrow>
        foldl (sweepOneIsolated V) (x, s, [])
          (List.map_filter (\<lambda>v. map_option (\<lambda>a. (vi_Operator v, a, vi_Jailed v)) (vi_ConsAddr v)) vs))"

section \<open>Invariants\<close>

text \<open>Each returns whether the invariant is broken.\<close>

definition UniquenessBijectionInvariant :: "id_state \<Rightarrow> bool" where
  "UniquenessBijectionInvariant s \<longleftrightarrow>
    list_ex (\<lambda>(_, d). case kv_get (ids_uniq s) (UniquenessKey (d_UniquenessHash d)) of
        None \<Rightarrow> True | Some v \<Rightarrow> v \<noteq> d_Did d) (ids_docs s)
    \<or> list_ex (\<lambda>(k, did). case GetIdentity s did of
        None \<Rightarrow> True | Some d \<Rightarrow> d_UniquenessHash d \<noteq> drop 1 k) (ids_uniq s)"

definition parseControllerIndexKey :: "bytes \<Rightarrow> (string \<times> string) option" where
  "parseControllerIndexKey key =
    (if length key < 1 then None
     else
      (let body = drop 1 key in
       if CHR 0x00 \<notin> set body then None
       else Some (takeWhile (\<lambda>c. c \<noteq> CHR 0x00) body, drop 1 (dropWhile (\<lambda>c. c \<noteq> CHR 0x00) body))))"

definition ControllerIndexInvariant :: "id_state \<Rightarrow> bool" where
  "ControllerIndexInvariant s \<longleftrightarrow>
    list_ex (\<lambda>(_, d). \<not> kv_has (ids_ctrl s) (ControllerIndexKey (d_Controller d) (d_Did d))) (ids_docs s)
    \<or> list_ex (\<lambda>(k, _). case parseControllerIndexKey k of
        None \<Rightarrow> True
      | Some (controller, did) \<Rightarrow>
         (case GetIdentity s did of None \<Rightarrow> True | Some d \<Rightarrow> d_Controller d \<noteq> controller)) (ids_ctrl s)"

definition StatusValidityInvariant :: "id_state \<Rightarrow> bool" where
  "StatusValidityInvariant s \<longleftrightarrow>
    list_ex (\<lambda>(_, d). d_Status d \<noteq> DID_STATUS_ACTIVE \<and> d_Status d \<noteq> DID_STATUS_SUSPENDED
      \<and> d_Status d \<noteq> DID_STATUS_REVOKED) (ids_docs s)"

text \<open>The map \<^verbatim>\<open>want\<close>, kept sorted by controller: the source sorts its keys before walking them.\<close>

definition want_step :: "int kv \<Rightarrow> DIDDocument \<Rightarrow> int kv" where
  "want_step m d =
    (if d_Status d = DID_STATUS_REVOKED then m
     else case kv_get m (d_Controller d) of
         None \<Rightarrow> kv_set m (d_Controller d) (d_CreatedAt d)
       | Some cur \<Rightarrow> if d_CreatedAt d < cur then kv_set m (d_Controller d) (d_CreatedAt d) else m)"

definition want :: "id_state \<Rightarrow> int kv" where
  "want s = foldl want_step [] (map snd (ids_docs s))"

definition EligibilityIndexInvariant :: "id_state \<Rightarrow> bool" where
  "EligibilityIndexInvariant s \<longleftrightarrow>
    list_ex (\<lambda>(controller, oldest). case eligibility_record s controller of
        None \<Rightarrow> True
      | Some (got, _) \<Rightarrow> got \<noteq> oldest \<or> \<not> kv_has (ids_byage s) (EligibilityByAgeKey oldest controller)) (want s)
    \<or> list_ex (\<lambda>(k, _). \<not> kv_has (want s) (drop 1 k)) (ids_elig s)
    \<or> EligibleControllerTotal s \<noteq> word_of_nat (length (ids_elig s))
    \<or> list_ex (\<lambda>(k, _). CreatedAtFromEligibilityByAgeKey k = None) (ids_byage s)
    \<or> (word_of_nat (length (ids_byage s)) :: 64 word) \<noteq> word_of_nat (length (ids_elig s))"

definition id_AllInvariants :: "id_state \<Rightarrow> bool" where
  "id_AllInvariants s \<longleftrightarrow> UniquenessBijectionInvariant s \<or> ControllerIndexInvariant s
     \<or> StatusValidityInvariant s \<or> EligibilityIndexInvariant s"

end
