(* ===== verification/IdInv.thy ===== *)
theory IdInv
  imports IdMsgs
begin

text \<open>
  The invariant of the identity store and its preservation by \<^verbatim>\<open>SetIdentity\<close>: the controller
  index lists exactly the documents, every uniqueness marker belongs to one document, and the
  eligibility record, its age-ordered mirror and the stored total agree with the documents.
\<close>

section \<open>Sortable timestamps\<close>

lemma msb_flip: "(w :: 64 word) XOR push_bit 63 1 = w + 2 ^ 63"
proof -
  have "w XOR push_bit 63 1 = flip_bit 63 w" by (simp add: flip_bit_eq_xor)
  also have "\<dots> = w + 2 ^ 63" by (simp add: flip_bit_eq_if set_bit_eq unset_bit_eq)
  finally show ?thesis .
qed

lemma sortable_uint: "in_i64 v \<Longrightarrow> uint (word_of_int v XOR push_bit 63 1 :: 64 word) = v + 2 ^ 63"
  unfolding msb_flip by (simp add: uint_word_ariths uint_word_of_int in_i64_def mod_add_left_eq)

lemma ParseSortable_append [simp]: "in_i64 v \<Longrightarrow> ParseSortableInt64 (SortableInt64 v @ s) = v"
  by (simp add: ParseSortableInt64_def SortableInt64_def xor.assoc in_i64_def signed_take_bit_int_eq_self
      sint_sbintrunc')

lemma ParseSortable_Sortable [simp]: "in_i64 v \<Longrightarrow> ParseSortableInt64 (SortableInt64 v) = v"
  using ParseSortable_append [of v "[]"] by simp

lemma length_SortableInt64 [simp]: "length (SortableInt64 v) = 8"
  by (simp add: SortableInt64_def)

lemma SortableInt64_less: "in_i64 a \<Longrightarrow> in_i64 b \<Longrightarrow> SortableInt64 a < SortableInt64 b \<longleftrightarrow> a < b"
  unfolding SortableInt64_def be64_less_iff word_less_def using sortable_uint [of a] sortable_uint [of b] by simp

lemma SortableInt64_eq [key_simps]: "in_i64 a \<Longrightarrow> in_i64 b \<Longrightarrow> SortableInt64 a = SortableInt64 b \<longleftrightarrow> a = b"
  by (metis ParseSortable_Sortable)

interpretation sortable: codec in_i64 SortableInt64 "\<lambda>b. Some (ParseSortableInt64 b)"
  by unfold_locales simp

lemma Decode_Encode [simp]:
  "in_i64 x \<Longrightarrow> in_i64 y \<Longrightarrow> DecodeControllerEligibility (EncodeControllerEligibility x y) = Some (x, y)"
  by (simp add: DecodeControllerEligibility_def EncodeControllerEligibility_def)

section \<open>Keys\<close>

abbreviation nul_free :: "string \<Rightarrow> bool" where
  "nul_free s \<equiv> CHR 0x00 \<notin> set s"

lemma nul_split:
  assumes "nul_free a" "nul_free b"
  shows "a @ [CHR 0x00] @ x = b @ [CHR 0x00] @ y \<longleftrightarrow> a = b \<and> x = y"
proof
  assume eq: "a @ [CHR 0x00] @ x = b @ [CHR 0x00] @ y"
  have "takeWhile (\<lambda>c. c \<noteq> CHR 0x00) (a @ [CHR 0x00] @ x) = a"
    "takeWhile (\<lambda>c. c \<noteq> CHR 0x00) (b @ [CHR 0x00] @ y) = b"
    using assms by (auto simp: takeWhile_append)
  with eq have "a = b" by simp
  with eq show "a = b \<and> x = y" by simp
qed simp

lemma key_inj [simp, key_simps]:
  "DIDKey x = DIDKey y \<longleftrightarrow> x = y" "UniquenessKey x = UniquenessKey y \<longleftrightarrow> x = y"
  "DIDToValidatorKey x = DIDToValidatorKey y \<longleftrightarrow> x = y" "ValidatorToDIDKey x = ValidatorToDIDKey y \<longleftrightarrow> x = y"
  "GuardiansKey x = GuardiansKey y \<longleftrightarrow> x = y" "RecoveryKey x = RecoveryKey y \<longleftrightarrow> x = y"
  "GuardianEpochKey x = GuardianEpochKey y \<longleftrightarrow> x = y" "RecoveryTallyEpochKey x = RecoveryTallyEpochKey y \<longleftrightarrow> x = y"
  "ControllerEligibilityKey x = ControllerEligibilityKey y \<longleftrightarrow> x = y"
  "ControllerSweepKey x = ControllerSweepKey y \<longleftrightarrow> x = y"
  by (simp_all add: DIDKey_def UniquenessKey_def DIDToValidatorKey_def ValidatorToDIDKey_def GuardiansKey_def
      RecoveryKey_def GuardianEpochKey_def RecoveryTallyEpochKey_def ControllerEligibilityKey_def
      ControllerSweepKey_def)

lemma index_key_inj:
  "nul_free a \<Longrightarrow> nul_free b \<Longrightarrow> ControllerIndexKey a x = ControllerIndexKey b y \<longleftrightarrow> a = b \<and> x = y"
  using nul_split [of a b x y] by (simp add: ControllerIndexKey_def)

lemma index_prefix:
  assumes "nul_free a" "nul_free b"
  shows "prefix (ControllerIndexPrefixFor a) (ControllerIndexKey b y) \<longleftrightarrow> a = b"
proof
  assume "prefix (ControllerIndexPrefixFor a) (ControllerIndexKey b y)"
  then obtain z where "b @ [CHR 0x00] @ y = a @ [CHR 0x00] @ z"
    by (auto simp: prefix_def ControllerIndexPrefixFor_def ControllerIndexKey_def)
  with nul_split [OF assms(2,1)] show "a = b" by simp
qed (simp add: ControllerIndexPrefixFor_def ControllerIndexKey_def)

lemma index_drop [simp]: "drop (length (ControllerIndexPrefixFor a)) (ControllerIndexKey a y) = y"
  by (simp add: ControllerIndexPrefixFor_def ControllerIndexKey_def)

lemma age_key_inj:
  "in_i64 a \<Longrightarrow> in_i64 b \<Longrightarrow> EligibilityByAgeKey a x = EligibilityByAgeKey b y \<longleftrightarrow> a = b \<and> x = y"
  using SortableInt64_eq [of a b]
  by (auto simp: EligibilityByAgeKey_def append_eq_append_conv)

lemma age_key_created [simp]: "in_i64 a \<Longrightarrow> CreatedAtFromEligibilityByAgeKey (EligibilityByAgeKey a x) = Some a"
  by (simp add: CreatedAtFromEligibilityByAgeKey_def EligibilityByAgeKey_def EligibilityByAgePrefix_def)

lemma age_key_less:
  assumes "in_i64 a" "in_i64 b" "EligibilityByAgeKey a x < EligibilityByAgeKey b y"
  shows "a \<le> b"
proof -
  have "SortableInt64 a < SortableInt64 b \<or> SortableInt64 a = SortableInt64 b"
    using assms(3) append_less_append_iff [of "SortableInt64 a" "SortableInt64 b" x y]
    by (auto simp: EligibilityByAgeKey_def EligibilityByAgePrefix_def)
  with SortableInt64_less [OF assms(1,2)] SortableInt64_eq [OF assms(1,2)] show ?thesis by auto
qed

lemma set_map_filter_some: "set (List.map_filter f xs) = {y. \<exists>x \<in> set xs. f x = Some y}"
  by (auto simp: map_filter_def image_iff) force

section \<open>The invariant\<close>

definition all_docs :: "id_state \<Rightarrow> DIDDocument set" where
  "all_docs s = snd ` set (ids_docs s)"

definition doc_ok :: "DIDDocument \<Rightarrow> bool" where
  "doc_ok d \<longleftrightarrow> nul_free (d_Did d) \<and> nul_free (d_Controller d) \<and> d_Controller d \<noteq> [] \<and> in_i64 (d_CreatedAt d)
     \<and> d_Status d \<in> {DID_STATUS_ACTIVE, DID_STATUS_SUSPENDED, DID_STATUS_REVOKED}"

definition docs_ok :: "id_state \<Rightarrow> bool" where
  "docs_ok s \<longleftrightarrow> kv_sorted (ids_docs s)
     \<and> (\<forall>(k, d) \<in> set (ids_docs s). k = DIDKey (d_Did d) \<and> doc_ok d)"

definition index_ok :: "id_state \<Rightarrow> bool" where
  "index_ok s \<longleftrightarrow> kv_sorted (ids_ctrl s)
     \<and> fst ` set (ids_ctrl s) = (\<lambda>d. ControllerIndexKey (d_Controller d) (d_Did d)) ` all_docs s"

definition uniq_ok :: "id_state \<Rightarrow> bool" where
  "uniq_ok s \<longleftrightarrow> kv_sorted (ids_uniq s)
     \<and> set (ids_uniq s) = (\<lambda>d. (UniquenessKey (d_UniquenessHash d), d_Did d)) ` all_docs s"

definition standing :: "id_state \<Rightarrow> string \<Rightarrow> int set" where
  "standing s ctl = d_CreatedAt ` {d \<in> all_docs s. d_Controller d = ctl \<and> d_Status d \<noteq> DID_STATUS_REVOKED}"

definition oldest :: "id_state \<Rightarrow> string \<Rightarrow> int option" where
  "oldest s ctl = (if standing s ctl = {} then None else Some (Min (standing s ctl)))"

text \<open>The keys the age-ordered mirror must hold for a given set of records.\<close>

definition age_keys :: "(string \<Rightarrow> (int \<times> int) option) \<Rightarrow> bytes set" where
  "age_keys R = {k. \<exists>x y ctl. R ctl = Some (x, y) \<and> k = EligibilityByAgeKey x ctl}"

definition mirror_ok :: "id_state \<Rightarrow> bool" where
  "mirror_ok s \<longleftrightarrow> kv_sorted (ids_elig s) \<and> kv_sorted (ids_byage s)
     \<and> (\<forall>(k, v) \<in> set (ids_elig s). \<exists>ctl x y. k = ControllerEligibilityKey ctl \<and> in_i64 x \<and> in_i64 y
          \<and> v = EncodeControllerEligibility x y)
     \<and> fst ` set (ids_byage s) = age_keys (eligibility_record s)
     \<and> EligibleControllerTotal s = word_of_nat (length (ids_elig s))"

definition id_inv :: "id_state \<Rightarrow> bool" where
  "id_inv s \<longleftrightarrow> docs_ok s \<and> index_ok s \<and> uniq_ok s \<and> mirror_ok s
     \<and> (\<forall>ctl. map_option fst (eligibility_record s ctl) = oldest s ctl)"

lemma finite_all_docs [simp]: "finite (all_docs s)"
  by (simp add: all_docs_def)

lemma finite_standing [simp]: "finite (standing s ctl)"
  by (simp add: standing_def)

lemma all_docs_get: "docs_ok s \<Longrightarrow> d \<in> all_docs s \<longleftrightarrow> GetIdentity s (d_Did d) = Some d"
proof -
  assume ok: "docs_ok s"
  then have keys: "\<And>k d. (k, d) \<in> set (ids_docs s) \<Longrightarrow> k = DIDKey (d_Did d)"
    by (auto simp: docs_ok_def)
  have "GetIdentity s (d_Did d) = Some d \<longleftrightarrow> (DIDKey (d_Did d), d) \<in> set (ids_docs s)"
    using ok kv_get_mem [of "ids_docs s"] by (simp add: GetIdentity_def docs_ok_def)
  also have "\<dots> \<longleftrightarrow> d \<in> all_docs s"
    using keys by (force simp: all_docs_def)
  finally show ?thesis by simp
qed

lemma docs_entry: "docs_ok s \<Longrightarrow> (k, d) \<in> set (ids_docs s) \<Longrightarrow> k = DIDKey (d_Did d) \<and> doc_ok d"
  unfolding docs_ok_def by blast

lemma GetIdentity_did:
  assumes "docs_ok s" "GetIdentity s did = Some d"
  shows "d_Did d = did" "d \<in> all_docs s" "doc_ok d"
proof -
  have m: "(DIDKey did, d) \<in> set (ids_docs s)" using assms(2) kv_get_in by (simp add: GetIdentity_def)
  with docs_entry [OF assms(1) m] show "d_Did d = did" "doc_ok d" by simp_all
  from m show "d \<in> all_docs s" unfolding all_docs_def by (metis image_eqI snd_conv)
qed

lemma elig_entry:
  assumes "mirror_ok s" "(k, v) \<in> set (ids_elig s)"
  obtains ctl x y where "k = ControllerEligibilityKey ctl" "in_i64 x" "in_i64 y" "v = EncodeControllerEligibility x y"
proof -
  from assms(1) have "\<forall>e \<in> set (ids_elig s). \<exists>ctl x y. fst e = ControllerEligibilityKey ctl \<and> in_i64 x \<and> in_i64 y
      \<and> snd e = EncodeControllerEligibility x y"
    unfolding mirror_ok_def case_prod_beta by (elim conjE)
  from bspec [OF this assms(2)] that show thesis by auto
qed

lemma record_in:
  assumes "mirror_ok s" "eligibility_record s ctl = Some (x, y)"
  shows "in_i64 x" "in_i64 y"
    "(ControllerEligibilityKey ctl, EncodeControllerEligibility x y) \<in> set (ids_elig s)"
proof -
  from assms(2) obtain v where v: "kv_get (ids_elig s) (ControllerEligibilityKey ctl) = Some v"
      "DecodeControllerEligibility v = Some (x, y)"
    by (auto simp: eligibility_record_def split: option.splits)
  obtain a b where "in_i64 a" "in_i64 b" "v = EncodeControllerEligibility a b"
    using elig_entry [OF assms(1) kv_get_in [OF v(1)]] by metis
  with v kv_get_in [OF v(1)] show "in_i64 x" "in_i64 y"
    "(ControllerEligibilityKey ctl, EncodeControllerEligibility x y) \<in> set (ids_elig s)" by simp_all
qed

lemma record_None:
  assumes "mirror_ok s" "eligibility_record s ctl = None"
  shows "kv_get (ids_elig s) (ControllerEligibilityKey ctl) = None"
proof (rule ccontr)
  assume "kv_get (ids_elig s) (ControllerEligibilityKey ctl) \<noteq> None"
  then obtain v where v: "kv_get (ids_elig s) (ControllerEligibilityKey ctl) = Some v" by auto
  obtain a b where "in_i64 a" "in_i64 b" "v = EncodeControllerEligibility a b"
    using elig_entry [OF assms(1) kv_get_in [OF v]] by metis
  with v assms(2) show False by (simp add: eligibility_record_def)
qed

section \<open>What a refresh computes\<close>

lemma Min_merge: "finite R \<Longrightarrow> Min (R \<union> {min c a}) = Min (insert c R \<union> {a :: int})"
  by (cases "R = {}") (simp_all add: min.commute min.left_commute)

lemma foldl_older:
  "foldl older acc ds =
    (let S = d_CreatedAt ` {d \<in> set ds. d_Status d \<noteq> DID_STATUS_REVOKED} \<union> set_option acc in
     if S = {} then None else Some (Min S))"
proof (induction ds arbitrary: acc)
  case Nil
  then show ?case by (cases acc) simp_all
next
  case (Cons d ds)
  show ?case
  proof (cases "d_Status d = DID_STATUS_REVOKED")
    case True
    then have "{e \<in> set (d # ds). d_Status e \<noteq> DID_STATUS_REVOKED} = {e \<in> set ds. d_Status e \<noteq> DID_STATUS_REVOKED}"
      by auto
    with Cons True show ?thesis by (simp add: older_def)
  next
    case False
    let ?R = "d_CreatedAt ` {e \<in> set ds. d_Status e \<noteq> DID_STATUS_REVOKED}"
    have S: "d_CreatedAt ` {e \<in> set (d # ds). d_Status e \<noteq> DID_STATUS_REVOKED} = insert (d_CreatedAt d) ?R"
      using False by auto
    show ?thesis
    proof (cases acc)
      case None
      then have "older acc d = Some (d_CreatedAt d)" using False by (simp add: older_def)
      then show ?thesis unfolding foldl_Cons Cons S Let_def None by simp
    next
      case (Some a)
      have "Min (?R \<union> {min (d_CreatedAt d) a}) = Min (insert (d_CreatedAt d) ?R \<union> {a})"
        by (rule Min_merge) simp
      moreover have "older acc d = Some (min (d_CreatedAt d) a)" using Some False by (auto simp: older_def min_def)
      ultimately show ?thesis unfolding foldl_Cons Cons S Let_def Some by simp
    qed
  qed
qed

lemma index_key_prefix: "ControllerIndexKey ctl did = ControllerIndexPrefixFor ctl @ did"
  by (simp add: ControllerIndexPrefixFor_def ControllerIndexKey_def)

lemma controller_dids_iff: "did \<in> set (controller_dids s ctl) \<longleftrightarrow> ControllerIndexKey ctl did \<in> fst ` set (ids_ctrl s)"
proof
  assume "did \<in> set (controller_dids s ctl)"
  then obtain e where e: "e \<in> set (ids_ctrl s)" "prefix (ControllerIndexPrefixFor ctl) (fst e)"
      "did = drop (length (ControllerIndexPrefixFor ctl)) (fst e)"
    by (auto simp: controller_dids_def kv_prefix_def Let_def)
  then have "fst e = ControllerIndexKey ctl did" by (auto simp: prefix_def index_key_prefix)
  with e(1) show "ControllerIndexKey ctl did \<in> fst ` set (ids_ctrl s)" by force
next
  assume "ControllerIndexKey ctl did \<in> fst ` set (ids_ctrl s)"
  then obtain e where e: "e \<in> set (ids_ctrl s)" "fst e = ControllerIndexPrefixFor ctl @ did"
    by (metis imageE index_key_prefix)
  then have "e \<in> set (kv_prefix (ids_ctrl s) (ControllerIndexPrefixFor ctl))" by (simp add: kv_prefix_def)
  with e(2) show "did \<in> set (controller_dids s ctl)" by (force simp: controller_dids_def Let_def)
qed

lemma index_iff:
  assumes "docs_ok s" "index_ok s" "nul_free ctl"
  shows "ControllerIndexKey ctl did \<in> fst ` set (ids_ctrl s) \<longleftrightarrow> (\<exists>d \<in> all_docs s. d_Controller d = ctl \<and> d_Did d = did)"
proof -
  have idx: "fst ` set (ids_ctrl s) = (\<lambda>d. ControllerIndexKey (d_Controller d) (d_Did d)) ` all_docs s"
    using assms(2) by (simp add: index_ok_def)
  have "nul_free (d_Controller d)" if "d \<in> all_docs s" for d
    using GetIdentity_did(3) [OF assms(1), of "d_Did d" d] all_docs_get [OF assms(1), of d] that
    by (simp add: doc_ok_def)
  then have "ControllerIndexKey ctl did = ControllerIndexKey (d_Controller d) (d_Did d)
      \<longleftrightarrow> ctl = d_Controller d \<and> did = d_Did d" if "d \<in> all_docs s" for d
    using index_key_inj [OF assms(3)] that by blast
  then show ?thesis unfolding idx image_iff by blast
qed

lemma controller_docs_set:
  assumes "docs_ok s" "index_ok s" "nul_free ctl"
  shows "set (controller_docs s ctl) = {d \<in> all_docs s. d_Controller d = ctl}"
proof -
  have "d \<in> set (controller_docs s ctl) \<longleftrightarrow> (\<exists>d' \<in> all_docs s. d_Controller d' = ctl \<and> GetIdentity s (d_Did d') = Some d)"
    for d
    unfolding controller_docs_def set_map_filter_some mem_Collect_eq Bex_def controller_dids_iff
      index_iff [OF assms] by blast
  moreover have "GetIdentity s (d_Did d') = Some d \<longleftrightarrow> d = d'" if "d' \<in> all_docs s" for d d'
    using all_docs_get [OF assms(1), of d'] that by auto
  ultimately show ?thesis by (intro set_eqI) auto
qed

lemma refresh_best:
  assumes "docs_ok s" "index_ok s" "nul_free ctl"
  shows "foldl older None (controller_docs s ctl) = oldest s ctl"
proof -
  have "d_CreatedAt ` {d \<in> set (controller_docs s ctl). d_Status d \<noteq> DID_STATUS_REVOKED} = standing s ctl"
    unfolding controller_docs_set [OF assms] standing_def by (rule arg_cong [where f = "image d_CreatedAt"]) auto
  then show ?thesis by (simp add: foldl_older oldest_def Let_def)
qed


text \<open>
  A refresh repairs the record of its controller and touches no other one; what it needs is only
  that the mirror and the total agree with the records.
\<close>

lemma eligibility_record_simps [simp]:
  "in_i64 x \<Longrightarrow> in_i64 y \<Longrightarrow>
    eligibility_record (s\<lparr>ids_elig := kv_set m (ControllerEligibilityKey ctl) (EncodeControllerEligibility x y)\<rparr>) c
      = (if c = ctl then Some (x, y) else eligibility_record (s\<lparr>ids_elig := m\<rparr>) c)"
  "eligibility_record (s\<lparr>ids_elig := kv_delete m (ControllerEligibilityKey ctl)\<rparr>) c
      = (if c = ctl then None else eligibility_record (s\<lparr>ids_elig := m\<rparr>) c)"
  "eligibility_record (s\<lparr>ids_byage := m\<rparr>) c = eligibility_record s c"
  "eligibility_record (s\<lparr>ids_total := t\<rparr>) c = eligibility_record s c"
  by (simp_all add: eligibility_record_def)

lemma length_kv_set: "length (kv_set m k v) = (if kv_get m k = None then Suc (length m) else length m)"
  if "kv_sorted m"
proof -
  have "card (fst ` set (kv_set m k v)) = card (insert k (fst ` set m))" by (simp add: kv_set_keys)
  moreover have "card (fst ` set m') = length m'" if "kv_sorted m'" for m' :: "'a kv"
    using kv.entries_distinct [OF that] by (metis distinct_card length_map list.set_map)
  ultimately show ?thesis
    using that kv_sorted_set [OF that] kv_get_None_iff [of m k] by (simp add: card_insert_if)
qed

lemma length_kv_delete: "kv_sorted m \<Longrightarrow> kv_get m k = Some v \<Longrightarrow> Suc (length (kv_delete m k)) = length m"
proof -
  assume m: "kv_sorted m" and k: "kv_get m k = Some v"
  have "length (kv_set (kv_delete m k) k v) = Suc (length (kv_delete m k))"
    using length_kv_set [OF kv_sorted_delete [OF m]] by simp
  moreover have "kv_set (kv_delete m k) k v = m"
    using m k by (intro kv_ext) auto
  ultimately show ?thesis by simp
qed

definition records_ok :: "(string \<Rightarrow> (int \<times> int) option) \<Rightarrow> bool" where
  "records_ok R \<longleftrightarrow> (\<forall>ctl x y. R ctl = Some (x, y) \<longrightarrow> in_i64 x)"

lemma age_keys_remove:
  assumes "records_ok R" "R ctl = Some (x, y)"
  shows "age_keys (R(ctl := None)) = age_keys R - {EligibilityByAgeKey x ctl}"
proof -
  have inj: "EligibilityByAgeKey x' c = EligibilityByAgeKey x ctl \<longleftrightarrow> x' = x \<and> c = ctl" if "R c = Some (x', y')" for x' y' c
    by (rule age_key_inj) (use assms that in \<open>auto simp: records_ok_def\<close>)
  show ?thesis
  proof (intro set_eqI iffI)
    fix k assume "k \<in> age_keys (R(ctl := None))"
    then obtain x' y' c where "R c = Some (x', y')" "c \<noteq> ctl" "k = EligibilityByAgeKey x' c"
      by (auto simp: age_keys_def split: if_splits)
    with inj show "k \<in> age_keys R - {EligibilityByAgeKey x ctl}" by (auto simp: age_keys_def)
  next
    fix k assume "k \<in> age_keys R - {EligibilityByAgeKey x ctl}"
    then obtain x' y' c where c: "R c = Some (x', y')" "k = EligibilityByAgeKey x' c" "k \<noteq> EligibilityByAgeKey x ctl"
      by (auto simp: age_keys_def)
    with assms(2) have "c \<noteq> ctl" by auto
    with c(1,2) show "k \<in> age_keys (R(ctl := None))" unfolding age_keys_def by auto
  qed
qed

lemma age_keys_add: "age_keys (R(ctl := Some (x, y))) = insert (EligibilityByAgeKey x ctl) (age_keys (R(ctl := None)))"
proof (intro set_eqI iffI)
  fix k assume "k \<in> age_keys (R(ctl := Some (x, y)))"
  then show "k \<in> insert (EligibilityByAgeKey x ctl) (age_keys (R(ctl := None)))"
    unfolding age_keys_def by (auto split: if_splits)
next
  fix k assume k: "k \<in> insert (EligibilityByAgeKey x ctl) (age_keys (R(ctl := None)))"
  show "k \<in> age_keys (R(ctl := Some (x, y)))"
  proof (cases "k = EligibilityByAgeKey x ctl")
    case True
    then show ?thesis unfolding age_keys_def by auto
  next
    case False
    with k obtain x' y' c where "R c = Some (x', y')" "c \<noteq> ctl" "k = EligibilityByAgeKey x' c"
      by (auto simp: age_keys_def split: if_splits)
    then show ?thesis unfolding age_keys_def by auto
  qed
qed

lemma kv_delete_keys: "fst ` set (kv_delete m k) = fst ` set m - {k}"
  by (auto simp: kv_delete_def)

lemma mirror_records: "mirror_ok s \<Longrightarrow> records_ok (eligibility_record s)"
  using record_in(1) by (auto simp: records_ok_def)

lemma mirror_simps:
  assumes "mirror_ok s"
  shows "kv_sorted (ids_elig s)" "kv_sorted (ids_byage s)"
    "fst ` set (ids_byage s) = age_keys (eligibility_record s)"
    "EligibleControllerTotal s = word_of_nat (length (ids_elig s))"
  using assms by (simp_all add: mirror_ok_def)

lemma mirrorI:
  assumes "kv_sorted (ids_elig s)" "kv_sorted (ids_byage s)"
    "\<And>k v. (k, v) \<in> set (ids_elig s) \<Longrightarrow> \<exists>ctl x y. k = ControllerEligibilityKey ctl \<and> in_i64 x \<and> in_i64 y
          \<and> v = EncodeControllerEligibility x y"
    "fst ` set (ids_byage s) = age_keys (eligibility_record s)"
    "EligibleControllerTotal s = word_of_nat (length (ids_elig s))"
  shows "mirror_ok s"
  unfolding mirror_ok_def using assms by blast

text \<open>The three ways a refresh changes the records.\<close>

lemma mirror_remove:
  assumes "mirror_ok s" "eligibility_record s ctl = Some (x, y)"
  shows "mirror_ok (s\<lparr>ids_byage := kv_delete (ids_byage s) (EligibilityByAgeKey x ctl),
      ids_elig := kv_delete (ids_elig s) (ControllerEligibilityKey ctl),
      ids_total := Some (EligibleControllerTotal s - 1)\<rparr>)" (is "mirror_ok ?s'")
proof -
  note m = mirror_simps [OF assms(1)]
  have g: "kv_get (ids_elig s) (ControllerEligibilityKey ctl) = Some (EncodeControllerEligibility x y)"
    using record_in(3) [OF assms] kv_get_mem [OF m(1)] by simp
  have len: "length (ids_elig s) = Suc (length (kv_delete (ids_elig s) (ControllerEligibilityKey ctl)))"
    using length_kv_delete [OF m(1) g] by simp
  have rec: "eligibility_record ?s' = (eligibility_record s)(ctl := None)" by (auto simp: fun_eq_iff)
  show ?thesis
  proof (rule mirrorI)
    show "fst ` set (ids_byage ?s') = age_keys (eligibility_record ?s')"
      unfolding rec age_keys_remove [OF mirror_records [OF assms(1)] assms(2)] by (simp add: kv_delete_keys m(3))
    show "EligibleControllerTotal ?s' = word_of_nat (length (ids_elig ?s'))"
      by (simp add: EligibleControllerTotal_def len m(4) [unfolded EligibleControllerTotal_def])
    show "\<exists>ctl x y. k = ControllerEligibilityKey ctl \<and> in_i64 x \<and> in_i64 y \<and> v = EncodeControllerEligibility x y"
      if "(k, v) \<in> set (ids_elig ?s')" for k v
    proof -
      from that have "(k, v) \<in> set (ids_elig s)" by (simp add: kv_delete_def)
      from elig_entry [OF assms(1) this] show ?thesis by blast
    qed
  qed (simp_all add: m)
qed

lemma mirror_write:
  assumes "mirror_ok s" "in_i64 x" "in_i64 y"
    and "age = (case eligibility_record s ctl of None \<Rightarrow> ids_byage s
          | Some (x', _) \<Rightarrow> kv_delete (ids_byage s) (EligibilityByAgeKey x' ctl))"
    and "t = (case eligibility_record s ctl of None \<Rightarrow> Some (EligibleControllerTotal s + 1) | Some _ \<Rightarrow> ids_total s)"
  shows "mirror_ok (s\<lparr>ids_elig := kv_set (ids_elig s) (ControllerEligibilityKey ctl) (EncodeControllerEligibility x y),
      ids_byage := kv_set age (EligibilityByAgeKey x ctl) [CHR 0x01], ids_total := t\<rparr>)" (is "mirror_ok ?s'")
proof -
  note m = mirror_simps [OF assms(1)]
  have rec: "eligibility_record ?s' = (eligibility_record s)(ctl := Some (x, y))"
    using assms(2,3) by (auto simp: fun_eq_iff)
  have none: "R(ctl := None) = R" if "R ctl = None" for R :: "string \<Rightarrow> (int \<times> int) option"
    using that by (simp add: fun_upd_idem)
  have age: "fst ` set age = age_keys ((eligibility_record s)(ctl := None))" "kv_sorted age"
    using assms(4) m(2,3) age_keys_remove [OF mirror_records [OF assms(1)], of ctl]
    by (auto simp: kv_delete_keys none split: option.splits prod.splits)
  have len: "length (kv_set (ids_elig s) (ControllerEligibilityKey ctl) v)
      = (if eligibility_record s ctl = None then Suc (length (ids_elig s)) else length (ids_elig s))" for v
    using length_kv_set [OF m(1)] record_None [OF assms(1)]
    by (auto simp: eligibility_record_def split: option.splits)
  show ?thesis
  proof (rule mirrorI)
    show "fst ` set (ids_byage ?s') = age_keys (eligibility_record ?s')"
      unfolding rec age_keys_add by (simp add: kv_set_keys age)
    show "EligibleControllerTotal ?s' = word_of_nat (length (ids_elig ?s'))"
      using m(4) by (simp add: EligibleControllerTotal_def len assms(5) split: option.splits)
    show "\<exists>ctl x y. k = ControllerEligibilityKey ctl \<and> in_i64 x \<and> in_i64 y \<and> v = EncodeControllerEligibility x y"
      if "(k, v) \<in> set (ids_elig ?s')" for k v
    proof (cases "(k, v) \<in> set (ids_elig s)")
      case True
      from elig_entry [OF assms(1) this] show ?thesis by blast
    next
      case False
      with that have "(k, v) = (ControllerEligibilityKey ctl, EncodeControllerEligibility x y)"
        using kv_get_mem [OF kv_sorted_set [OF m(1)]] kv_get_mem [OF m(1)]
        by (auto simp del: kv_set.simps split: if_splits)
      with assms(2,3) show ?thesis by blast
    qed
  qed (simp_all add: m age)
qed

lemma oldest_i64: "docs_ok s \<Longrightarrow> oldest s ctl = Some x \<Longrightarrow> in_i64 x"
proof -
  assume ok: "docs_ok s" and x: "oldest s ctl = Some x"
  then have "standing s ctl \<noteq> {}" "x = Min (standing s ctl)" by (auto simp: oldest_def split: if_splits)
  then have "x \<in> standing s ctl" by simp
  then obtain d where "d \<in> all_docs s" "x = d_CreatedAt d" by (auto simp: standing_def)
  with GetIdentity_did(3) [OF ok, of "d_Did d" d] all_docs_get [OF ok, of d] show ?thesis by (simp add: doc_ok_def)
qed

text \<open>Everything outside the eligibility records and the sweep record.\<close>

definition same_base :: "id_state \<Rightarrow> id_state \<Rightarrow> bool" where
  "same_base s s' \<longleftrightarrow> s' = s\<lparr>ids_elig := ids_elig s', ids_byage := ids_byage s', ids_total := ids_total s',
     ids_sweep := ids_sweep s'\<rparr>"

lemma same_base_refl [simp]: "same_base s s"
  by (simp add: same_base_def)

lemma same_base_trans: "same_base s t \<Longrightarrow> same_base t u \<Longrightarrow> same_base s u"
  by (cases s; cases t; cases u) (simp add: same_base_def)

lemma same_base_fields:
  assumes "same_base s s'"
  shows "ids_docs s' = ids_docs s" "ids_ctrl s' = ids_ctrl s" "ids_uniq s' = ids_uniq s"
    "ids_params s' = ids_params s" "ids_count s' = ids_count s" "ids_did2val s' = ids_did2val s"
    "ids_val2did s' = ids_val2did s" "ids_issuers s' = ids_issuers s" "ids_inonce s' = ids_inonce s"
    "ids_guardians s' = ids_guardians s" "ids_recov s' = ids_recov s" "ids_bydid s' = ids_bydid s"
    "ids_rnonce s' = ids_rnonce s" "ids_gepoch s' = ids_gepoch s" "ids_tepoch s' = ids_tepoch s"
  by (subst assms [unfolded same_base_def], simp)+

lemma docs_frame:
  assumes "ids_docs s' = ids_docs s"
  shows "docs_ok s' = docs_ok s" "all_docs s' = all_docs s" "oldest s' = oldest s" "GetIdentity s' = GetIdentity s"
    "HasIdentity s' = HasIdentity s"
  using assms by (simp_all add: docs_ok_def all_docs_def oldest_def standing_def GetIdentity_def HasIdentity_def
      fun_eq_iff)

lemma index_frame:
  "ids_docs s' = ids_docs s \<Longrightarrow> ids_ctrl s' = ids_ctrl s \<Longrightarrow> index_ok s' = index_ok s"
  using docs_frame(2) [of s' s] by (simp add: index_ok_def)

lemma record_frame: "ids_elig s' = ids_elig s \<Longrightarrow> eligibility_record s' = eligibility_record s"
  by (simp add: eligibility_record_def fun_eq_iff)

lemma mirror_frame:
  "ids_elig s' = ids_elig s \<Longrightarrow> ids_byage s' = ids_byage s \<Longrightarrow> ids_total s' = ids_total s \<Longrightarrow> mirror_ok s' = mirror_ok s"
  using record_frame [of s' s] by (simp add: mirror_ok_def EligibleControllerTotal_def)

lemma refresh_cases:
  assumes "eligibility_record s ctl = old" "foldl older None (controller_docs s ctl) = best"
  shows "refreshControllerEligibility c s ctl =
    (case best of
       None \<Rightarrow> (case old of None \<Rightarrow> s
                 | Some (x', y') \<Rightarrow> s\<lparr>ids_byage := kv_delete (ids_byage s) (EligibilityByAgeKey x' ctl),
                     ids_elig := kv_delete (ids_elig s) (ControllerEligibilityKey ctl),
                     ids_total := Some (EligibleControllerTotal s - 1)\<rparr>)
     | Some x \<Rightarrow>
        (if map_option fst old = Some x then s
         else
          (let y = (case old of Some (x', y') \<Rightarrow> if x < x' then block_time c else y' | None \<Rightarrow> block_time c) in
           s\<lparr>ids_elig := kv_set (ids_elig s) (ControllerEligibilityKey ctl) (EncodeControllerEligibility x y),
             ids_byage := kv_set (case old of None \<Rightarrow> ids_byage s
               | Some (x', _) \<Rightarrow> kv_delete (ids_byage s) (EligibilityByAgeKey x' ctl)) (EligibilityByAgeKey x ctl) [CHR 0x01],
             ids_total := (case old of None \<Rightarrow> Some (EligibleControllerTotal s + 1) | Some _ \<Rightarrow> ids_total s)\<rparr>)))"
  using assms by (auto simp: refreshControllerEligibility_def Let_def split: option.splits prod.splits)

lemma refreshControllerEligibility_spec:
  assumes "docs_ok s" "index_ok s" "mirror_ok s" "nul_free ctl" "in_i64 (block_time c)"
  defines "s' \<equiv> refreshControllerEligibility c s ctl"
  shows "mirror_ok s'" "map_option fst (eligibility_record s' ctl) = oldest s ctl"
    "c' \<noteq> ctl \<Longrightarrow> eligibility_record s' c' = eligibility_record s c'" "same_base s s'"
proof -
  obtain old where old: "eligibility_record s ctl = old" by blast
  note r = refresh_cases [OF old refresh_best [OF assms(1,2,4)], of c, folded s'_def]
  have "mirror_ok s' \<and> map_option fst (eligibility_record s' ctl) = oldest s ctl
      \<and> (c' \<noteq> ctl \<longrightarrow> eligibility_record s' c' = eligibility_record s c') \<and> same_base s s'"
  proof (cases "oldest s ctl")
    case None
    show ?thesis
    proof (cases old)
      case None': None
      then show ?thesis using r None old assms(3) by simp
    next
      case (Some xy)
      then obtain x y where xy: "old = Some (x, y)" by (cases xy) simp
      show ?thesis using r None mirror_remove [OF assms(3), of ctl x y] old
        by (simp add: xy same_base_def)
    qed
  next
    case (Some x)
    have x: "in_i64 x" by (rule oldest_i64 [OF assms(1) Some])
    show ?thesis
    proof (cases "map_option fst old = Some x")
      case True
      then show ?thesis using r Some old assms(3) by simp
    next
      case False
      let ?y = "case old of Some (x', y') \<Rightarrow> if x < x' then block_time c else y' | None \<Rightarrow> block_time c"
      have y: "in_i64 ?y"
        using assms(5) record_in(2) [OF assms(3)] old by (auto split: option.splits prod.splits)
      show ?thesis
        using r Some False mirror_write [OF assms(3) x y refl refl, of ctl] x y
        by (simp add: old same_base_def Let_def del: not_None_eq)
    qed
  qed
  then show "mirror_ok s'" "map_option fst (eligibility_record s' ctl) = oldest s ctl"
    "c' \<noteq> ctl \<Longrightarrow> eligibility_record s' c' = eligibility_record s c'" "same_base s s'" by blast+
qed
end
