(* ===== verification/IdSteps.thy ===== *)
theory IdSteps
  imports IdInv
begin

text \<open>
  \<^verbatim>\<open>SetIdentity\<close> preserves the identity invariant, every handler of the module reduces to it, and
  so does every sequence of messages, hooks and block sweeps.
\<close>

section \<open>Writing a document\<close>

lemma refresh_controller_spec:
  assumes "docs_ok s" "index_ok s" "mirror_ok s" "nul_free ctl" "in_i64 (block_time c)"
  defines "s' \<equiv> refresh_controller c s ctl"
  shows "mirror_ok s'" "map_option fst (eligibility_record s' ctl) = oldest s ctl"
    "c' \<noteq> ctl \<Longrightarrow> eligibility_record s' c' = eligibility_record s c'" "same_base s s'"
proof -
  let ?t = "refreshControllerEligibility c s ctl"
  have t: "ids_elig s' = ids_elig ?t" "ids_byage s' = ids_byage ?t" "ids_total s' = ids_total ?t" "same_base ?t s'"
    by (simp_all add: s'_def refresh_controller_def refreshControllerSweepStatus_def Let_def same_base_def)
  note spec = refreshControllerEligibility_spec [OF assms(1-5)]
  show "mirror_ok s'" using spec(1) mirror_frame [OF t(1-3)] by simp
  show "map_option fst (eligibility_record s' ctl) = oldest s ctl" using spec(2) record_frame [OF t(1)] by simp
  show "c' \<noteq> ctl \<Longrightarrow> eligibility_record s' c' = eligibility_record s c'" using spec(3) record_frame [OF t(1)] by simp
  show "same_base s s'" by (rule same_base_trans [OF spec(4) t(4)])
qed

lemma write_identity_docs:
  assumes "docs_ok s" "doc_ok d"
  defines "s' \<equiv> write_identity s d"
  shows "docs_ok s'" "all_docs s' = insert d {e \<in> all_docs s. d_Did e \<noteq> d_Did d}"
    "GetIdentity s' did = (if did = d_Did d then Some d else GetIdentity s did)"
proof -
  have docs: "ids_docs s' = kv_set (ids_docs s) (DIDKey (d_Did d)) d"
    by (simp add: s'_def write_identity_def Let_def)
  have srt: "kv_sorted (ids_docs s)" using assms(1) by (simp add: docs_ok_def)
  show g: "GetIdentity s' did = (if did = d_Did d then Some d else GetIdentity s did)" for did
    by (simp add: GetIdentity_def docs del: kv_set.simps)
  show ok: "docs_ok s'"
    unfolding docs_ok_def docs
  proof (intro conjI ballI)
    fix e assume e: "e \<in> set (kv_set (ids_docs s) (DIDKey (d_Did d)) d)"
    obtain k x where kx: "e = (k, x)" by force
    with e kv_get_mem [OF kv_sorted_set [OF srt]] have "kv_get (kv_set (ids_docs s) (DIDKey (d_Did d)) d) k = Some x" by simp
    then have "k = DIDKey (d_Did d) \<and> x = d \<or> (k, x) \<in> set (ids_docs s)"
      using kv_get_in [of "ids_docs s" k x] by (auto simp del: kv_set.simps split: if_splits)
    with docs_entry [OF assms(1)] assms(2) show "case e of (k, d) \<Rightarrow> k = DIDKey (d_Did d) \<and> doc_ok d"
      by (auto simp: kx)
  qed (simp add: srt)
  show "all_docs s' = insert d {e \<in> all_docs s. d_Did e \<noteq> d_Did d}"
    by (auto simp: all_docs_get [OF ok] all_docs_get [OF assms(1)] g split: if_splits)
qed

lemma all_docs_ok: "docs_ok s \<Longrightarrow> e \<in> all_docs s \<Longrightarrow> doc_ok e"
  using GetIdentity_did(3) [of s "d_Did e" e] all_docs_get [of s e] by simp

lemma stale_controllerI:
  "stale_controller s d = (case GetIdentity s (d_Did d) of None \<Rightarrow> None
     | Some prev \<Rightarrow> if d_Controller prev = d_Controller d then None else Some (d_Controller prev))"
  by (simp add: stale_controller_def split: option.splits)

lemma write_identity_index:
  assumes "docs_ok s" "index_ok s" "doc_ok d"
  shows "index_ok (write_identity s d)"
proof -
  let ?s' = "write_identity s d" and ?key = "\<lambda>d. ControllerIndexKey (d_Controller d) (d_Did d)"
  have nf: "nul_free (d_Controller e)" if "e \<in> all_docs s" for e
    using all_docs_ok [OF assms(1) that] by (simp add: doc_ok_def)
  have idx: "kv_sorted (ids_ctrl s)" "fst ` set (ids_ctrl s) = ?key ` all_docs s"
    using assms(2) by (simp_all add: index_ok_def)
  have keys: "fst ` set (ids_ctrl ?s') = insert (?key d)
      (case stale_controller s d of None \<Rightarrow> ?key ` all_docs s | Some p \<Rightarrow> ?key ` all_docs s - {ControllerIndexKey p (d_Did d)})"
    by (simp add: write_identity_def Let_def kv_set_keys kv_delete_keys idx split: option.split)
  have "insert (?key d) (case stale_controller s d of None \<Rightarrow> ?key ` all_docs s
        | Some p \<Rightarrow> ?key ` all_docs s - {ControllerIndexKey p (d_Did d)})
      = insert (?key d) (?key ` {e \<in> all_docs s. d_Did e \<noteq> d_Did d})"
  proof (cases "GetIdentity s (d_Did d)")
    case None
    then have "d_Did e \<noteq> d_Did d" if "e \<in> all_docs s" for e
      using all_docs_get [OF assms(1), of e] that by auto
    then have "{e \<in> all_docs s. d_Did e \<noteq> d_Did d} = all_docs s" by blast
    with None show ?thesis by (simp add: stale_controllerI)
  next
    case (Some prev)
    note p = GetIdentity_did [OF assms(1) Some]
    have only: "e = prev" if "e \<in> all_docs s" "d_Did e = d_Did d" for e
      using that all_docs_get [OF assms(1), of e] Some by simp
    have split: "all_docs s = insert prev {e \<in> all_docs s. d_Did e \<noteq> d_Did d}" using p(2) only by blast
    have apart: "?key prev \<noteq> ?key e" if "e \<in> all_docs s" "d_Did e \<noteq> d_Did d" for e
      using index_key_inj [OF nf [OF p(2)] nf [OF that(1)]] that(2) p(1) by auto
    let ?R = "{e \<in> all_docs s. d_Did e \<noteq> d_Did d}"
    have im: "?key ` all_docs s = insert (?key prev) (?key ` ?R)"
      using arg_cong [OF split, of "image ?key"] by (simp only: image_insert)
    have notin: "?key prev \<notin> ?key ` ?R" using apart by auto
    show ?thesis
    proof (cases "d_Controller prev = d_Controller d")
      case True
      then have "?key prev = ?key d" by (simp add: p(1))
      with True Some show ?thesis by (simp add: stale_controllerI im)
    next
      case False
      have "ControllerIndexKey (d_Controller prev) (d_Did d) = ?key prev" by (simp add: p(1))
      with False Some notin show ?thesis by (simp add: stale_controllerI im)
    qed
  qed
  with keys have "fst ` set (ids_ctrl ?s') = ?key ` all_docs ?s'"
    using write_identity_docs(2) [OF assms(1,3)] by simp
  moreover have "kv_sorted (ids_ctrl ?s')"
    using idx(1) by (simp add: write_identity_def Let_def split: option.split)
  ultimately show ?thesis by (simp add: index_ok_def)
qed


lemma write_identity_oldest:
  assumes "docs_ok s" "doc_ok d" "ctl \<noteq> d_Controller d" "stale_controller s d \<noteq> Some ctl"
  shows "oldest (write_identity s d) ctl = oldest s ctl"
proof -
  have "d_Controller e \<noteq> ctl" if "e \<in> all_docs s" "d_Did e = d_Did d" for e
    using that assms(3,4) all_docs_get [OF assms(1), of e] by (auto simp: stale_controllerI split: if_splits)
  then have "{e \<in> all_docs (write_identity s d). d_Controller e = ctl \<and> d_Status e \<noteq> DID_STATUS_REVOKED}
      = {e \<in> all_docs s. d_Controller e = ctl \<and> d_Status e \<noteq> DID_STATUS_REVOKED}"
    unfolding write_identity_docs(2) [OF assms(1,2)] using assms(3) by blast
  then have "standing (write_identity s d) ctl = standing s ctl" unfolding standing_def by simp
  then show ?thesis by (simp add: oldest_def)
qed

definition elig_inv :: "id_state \<Rightarrow> bool" where
  "elig_inv s \<longleftrightarrow> docs_ok s \<and> index_ok s \<and> mirror_ok s
     \<and> (\<forall>ctl. map_option fst (eligibility_record s ctl) = oldest s ctl)"

lemma id_inv_elig: "id_inv s \<longleftrightarrow> elig_inv s \<and> uniq_ok s"
  by (auto simp: id_inv_def elig_inv_def)

lemma refresh_repairs:
  assumes "docs_ok s" "index_ok s" "mirror_ok s" "nul_free ctl" "in_i64 (block_time c)"
    and "\<forall>c'. c' \<noteq> ctl \<and> P c' \<longrightarrow> map_option fst (eligibility_record s c') = oldest s c'"
  defines "s' \<equiv> refresh_controller c s ctl"
  shows "docs_ok s'" "index_ok s'" "mirror_ok s'"
    "c' = ctl \<or> P c' \<Longrightarrow> map_option fst (eligibility_record s' c') = oldest s' c'" "same_base s s'"
proof -
  note spec = refresh_controller_spec [OF assms(1-5), folded s'_def]
  note f = same_base_fields [OF spec(4)]
  show "docs_ok s'" "index_ok s'" using docs_frame(1) [OF f(1)] index_frame [OF f(1,2)] assms(1,2) by simp_all
  show "mirror_ok s'" "same_base s s'" by (rule spec)+
  show "map_option fst (eligibility_record s' c') = oldest s' c'" if "c' = ctl \<or> P c'"
    using that spec(2) spec(3) [of c'] assms(6) docs_frame(3) [OF f(1)] by (cases "c' = ctl") auto
qed

lemma SetIdentity_spec:
  assumes "elig_inv s" "doc_ok d" "in_i64 (block_time c)"
  shows "elig_inv (SetIdentity c s d)" "same_base (write_identity s d) (SetIdentity c s d)"
proof -
  let ?s1 = "write_identity s d"
  have i: "docs_ok s" "index_ok s" "mirror_ok s" "\<And>ctl. map_option fst (eligibility_record s ctl) = oldest s ctl"
    using assms(1) by (auto simp: elig_inv_def)
  have rec: "ids_elig ?s1 = ids_elig s" "ids_byage ?s1 = ids_byage s" "ids_total ?s1 = ids_total s"
    by (simp_all add: write_identity_def Let_def)
  have b1: "docs_ok ?s1" "index_ok ?s1" "mirror_ok ?s1"
    using write_identity_docs(1) [OF i(1) assms(2)] write_identity_index [OF i(1,2) assms(2)]
      mirror_frame [OF rec] i(3) by simp_all
  have n: "nul_free (d_Controller d)" using assms(2) by (simp add: doc_ok_def)
  have others: "map_option fst (eligibility_record ?s1 c') = oldest ?s1 c'"
    if "c' \<noteq> d_Controller d" "stale_controller s d \<noteq> Some c'" for c'
    using i(4) [of c'] record_frame [OF rec(1)] write_identity_oldest [OF i(1) assms(2) that] by simp
  have "\<forall>c'. c' \<noteq> d_Controller d \<and> stale_controller s d \<noteq> Some c'
      \<longrightarrow> map_option fst (eligibility_record ?s1 c') = oldest ?s1 c'"
    using others by blast
  note r1 = refresh_repairs [OF b1 n assms(3) this]
  let ?s2 = "refresh_controller c ?s1 (d_Controller d)"
  show "elig_inv (SetIdentity c s d)" "same_base ?s1 (SetIdentity c s d)"
  proof (atomize (full), cases "stale_controller s d")
    case None
    then have "SetIdentity c s d = ?s2" by (simp add: SetIdentity_def Let_def)
    then show "elig_inv (SetIdentity c s d) \<and> same_base ?s1 (SetIdentity c s d)"
      using r1(1-3,5) r1(4) None by (simp add: elig_inv_def)
  next
    case (Some p)
    then obtain prev where prev: "GetIdentity s (d_Did d) = Some prev" "p = d_Controller prev"
      by (auto simp: stale_controllerI split: option.splits if_splits)
    have p: "nul_free p" "p \<noteq> []" using GetIdentity_did(3) [OF i(1) prev(1)] prev(2) by (simp_all add: doc_ok_def)
    let ?s3 = "refresh_controller c ?s2 p"
    have s3: "SetIdentity c s d = ?s3" using Some p(2) by (simp add: SetIdentity_def Let_def)
    have "\<forall>c'. c' \<noteq> p \<and> True \<longrightarrow> map_option fst (eligibility_record ?s2 c') = oldest ?s2 c'"
      using r1(4) Some by auto
    note r2 = refresh_repairs [OF r1(1-3) p(1) assms(3) this]
    show "elig_inv (SetIdentity c s d) \<and> same_base ?s1 (SetIdentity c s d)"
      unfolding s3 elig_inv_def using r2(1-4) same_base_trans [OF r1(5) r2(5)] by blast
  qed
qed

lemma SetIdentity_docs:
  assumes "elig_inv s" "doc_ok d" "in_i64 (block_time c)"
  shows "all_docs (SetIdentity c s d) = insert d {e \<in> all_docs s. d_Did e \<noteq> d_Did d}"
    "GetIdentity (SetIdentity c s d) did = (if did = d_Did d then Some d else GetIdentity s did)"
proof -
  note f = docs_frame [OF same_base_fields(1) [OF SetIdentity_spec(2) [OF assms]]]
  have ok: "docs_ok s" using assms(1) by (simp add: elig_inv_def)
  show "all_docs (SetIdentity c s d) = insert d {e \<in> all_docs s. d_Did e \<noteq> d_Did d}"
    "GetIdentity (SetIdentity c s d) did = (if did = d_Did d then Some d else GetIdentity s did)"
    using write_identity_docs(2,3) [OF ok assms(2)] f(2,4) by simp_all
qed

text \<open>The stores \<^verbatim>\<open>SetIdentity\<close> does not write.\<close>

lemma SetIdentity_frame:
  assumes "elig_inv s" "doc_ok d" "in_i64 (block_time c)"
  shows "ids_uniq (SetIdentity c s d) = ids_uniq s" "ids_params (SetIdentity c s d) = ids_params s"
    "ids_count (SetIdentity c s d) = ids_count s" "ids_recov (SetIdentity c s d) = ids_recov s"
    "ids_bydid (SetIdentity c s d) = ids_bydid s" "ids_guardians (SetIdentity c s d) = ids_guardians s"
    "ids_gepoch (SetIdentity c s d) = ids_gepoch s" "ids_tepoch (SetIdentity c s d) = ids_tepoch s"
    "ids_did2val (SetIdentity c s d) = ids_did2val s" "ids_val2did (SetIdentity c s d) = ids_val2did s"
    "ids_rnonce (SetIdentity c s d) = ids_rnonce s" "ids_inonce (SetIdentity c s d) = ids_inonce s"
    "ids_issuers (SetIdentity c s d) = ids_issuers s"
  using same_base_fields [OF SetIdentity_spec(2) [OF assms]] by (simp_all add: write_identity_def Let_def)

section \<open>The uniqueness markers\<close>

lemma uniq_update:
  assumes "uniq_ok s" "docs_ok s" "GetIdentity s (d_Did d) = Some prev" "d_UniquenessHash d = d_UniquenessHash prev"
    and "all_docs s' = insert d {e \<in> all_docs s. d_Did e \<noteq> d_Did d}" "ids_uniq s' = ids_uniq s"
  shows "uniq_ok s'"
proof -
  note p = GetIdentity_did [OF assms(2,3)]
  have only: "e = prev" if "e \<in> all_docs s" "d_Did e = d_Did d" for e
    using that all_docs_get [OF assms(2), of e] assms(3) by simp
  have split: "all_docs s = insert prev {e \<in> all_docs s. d_Did e \<noteq> d_Did d}" using p(2) only by blast
  let ?m = "\<lambda>d. (UniquenessKey (d_UniquenessHash d), d_Did d)"
  have "?m ` all_docs s = insert (?m prev) (?m ` {e \<in> all_docs s. d_Did e \<noteq> d_Did d})"
    using arg_cong [OF split, of "image ?m"] by (simp only: image_insert)
  moreover have "?m prev = ?m d" using assms(4) p(1) by simp
  ultimately have "?m ` all_docs s' = ?m ` all_docs s" unfolding assms(5) image_insert by simp
  with assms(1,6) show ?thesis by (simp add: uniq_ok_def)
qed

lemma uniq_new:
  assumes "uniq_ok s" "GetIdentity s (d_Did d) = None" "\<not> HasUniqueness s (d_UniquenessHash d)" "docs_ok s"
    and "all_docs s' = insert d {e \<in> all_docs s. d_Did e \<noteq> d_Did d}"
    and "ids_uniq s' = kv_set (ids_uniq s) (UniquenessKey (d_UniquenessHash d)) (d_Did d)"
  shows "uniq_ok s'"
proof -
  have "d_Did e \<noteq> d_Did d" if "e \<in> all_docs s" for e
    using all_docs_get [OF assms(4), of e] that assms(2) by auto
  then have docs: "all_docs s' = insert d (all_docs s)" unfolding assms(5) by blast
  have srt: "kv_sorted (ids_uniq s)" using assms(1) by (simp add: uniq_ok_def)
  have fresh: "kv_get (ids_uniq s) (UniquenessKey (d_UniquenessHash d)) = None"
    using assms(3) by (simp add: HasUniqueness_def kv_has_def)
  have "set (ids_uniq s') = insert (UniquenessKey (d_UniquenessHash d), d_Did d) (set (ids_uniq s))"
    using kv.entries_graph [OF kv_sorted_set [OF srt]] kv.entries_graph [OF srt] fresh unfolding assms(6)
    by (auto simp del: kv_set.simps split: if_splits)
  with assms(1) srt show ?thesis by (simp add: uniq_ok_def docs assms(6) del: kv_set.simps)
qed

end
