(* ===== verification/IdRecov.thy ===== *)
theory IdRecov
  imports IdSteps
begin

text \<open>
  The recovery store: requests are live and indexed by their DID, and the module account holds
  at least the sum of their deposits, so that a refund or a forfeit never lacks the funds.
\<close>

section \<open>The invariant of the recovery store\<close>

definition requests :: "id_state \<Rightarrow> RecoveryRequest set" where
  "requests s = snd ` set (ids_recov s)"

definition deposit :: "RecoveryRequest \<Rightarrow> int" where
  "deposit r = amount_or_zero (rr_DepositUphi r)"

definition req_ok :: "sdk_env \<Rightarrow> RecoveryRequest \<Rightarrow> bool" where
  "req_ok E r \<longleftrightarrow> rr_Status r = RECOVERY_STATUS_PENDING \<and> nul_free (rr_Did r)
     \<and> AccAddressFromBech32 E (rr_ProposedNewController r) \<noteq> None \<and> 0 \<le> deposit r"

definition recov_ok :: "sdk_env \<Rightarrow> id_state \<Rightarrow> bool" where
  "recov_ok E s \<longleftrightarrow> kv_sorted (ids_recov s) \<and> kv_sorted (ids_bydid s)
     \<and> (\<forall>(k, r) \<in> set (ids_recov s). k = RecoveryKey (rr_RecoveryId r) \<and> req_ok E r)
     \<and> fst ` set (ids_bydid s) = (\<lambda>r. RecoveryByDIDKey (rr_Did r) (rr_RecoveryId r)) ` requests s"

definition deposit_total :: "id_state \<Rightarrow> int" where
  "deposit_total s = (\<Sum>(k, r) \<leftarrow> ids_recov s. deposit r)"

definition escrowed :: "sdk_env \<Rightarrow> id_world \<Rightarrow> bool" where
  "escrowed E w \<longleftrightarrow> deposit_total (snd w) \<le> GetBalance (fst w) (ModuleAddress E id_ModuleName)"

lemma recov_entry: "recov_ok E s \<Longrightarrow> (k, r) \<in> set (ids_recov s) \<Longrightarrow> k = RecoveryKey (rr_RecoveryId r) \<and> req_ok E r"
  unfolding recov_ok_def by blast

lemma recov_sorted: "recov_ok E s \<Longrightarrow> kv_sorted (ids_recov s)"
  by (simp add: recov_ok_def)

lemma keyed_requests:
  assumes "kv_sorted (ids_recov s)"
    and keyed: "\<And>k q. (k, q) \<in> set (ids_recov s) \<Longrightarrow> k = RecoveryKey (rr_RecoveryId q)"
  shows "r \<in> requests s \<longleftrightarrow> GetRecoveryRequest s (rr_RecoveryId r) = Some r"
proof -
  have "r \<in> requests s \<longleftrightarrow> (\<exists>k. (k, r) \<in> set (ids_recov s))" unfolding requests_def by force
  also have "\<dots> \<longleftrightarrow> (RecoveryKey (rr_RecoveryId r), r) \<in> set (ids_recov s)" using keyed by blast
  finally show ?thesis using kv_get_mem [OF assms(1)] by (simp add: GetRecoveryRequest_def)
qed

lemma requests_get: "recov_ok E s \<Longrightarrow> r \<in> requests s \<longleftrightarrow> GetRecoveryRequest s (rr_RecoveryId r) = Some r"
  using keyed_requests [of s r] recov_entry [of E s] by (simp add: recov_sorted)

lemma GetRecoveryRequest_id:
  assumes "recov_ok E s" "GetRecoveryRequest s i = Some r"
  shows "rr_RecoveryId r = i" "r \<in> requests s" "req_ok E r"
proof -
  have m: "(RecoveryKey i, r) \<in> set (ids_recov s)" using assms(2) kv_get_in by (simp add: GetRecoveryRequest_def)
  with recov_entry [OF assms(1) m] show "rr_RecoveryId r = i" "req_ok E r" by simp_all
  from m show "r \<in> requests s" unfolding requests_def by (metis image_eqI snd_conv)
qed

section \<open>Keys of the per-DID index\<close>

lemma bydid_key_prefix: "RecoveryByDIDKey did i = RecoveryByDIDPrefixFor did @ i"
  by (simp add: RecoveryByDIDKey_def RecoveryByDIDPrefixFor_def)

lemma bydid_key_inj:
  "nul_free a \<Longrightarrow> nul_free b \<Longrightarrow> RecoveryByDIDKey a x = RecoveryByDIDKey b y \<longleftrightarrow> a = b \<and> x = y"
  using nul_split [of a b x y] by (simp add: RecoveryByDIDKey_def)

lemma bydid_ids:
  "i \<in> set (map (\<lambda>e. drop (length (RecoveryByDIDPrefixFor did)) (fst e)) (kv_prefix m (RecoveryByDIDPrefixFor did)))
    \<longleftrightarrow> RecoveryByDIDKey did i \<in> fst ` set m"
proof
  assume "i \<in> set (map (\<lambda>e. drop (length (RecoveryByDIDPrefixFor did)) (fst e)) (kv_prefix m (RecoveryByDIDPrefixFor did)))"
  then obtain e where e: "e \<in> set m" "prefix (RecoveryByDIDPrefixFor did) (fst e)"
      "i = drop (length (RecoveryByDIDPrefixFor did)) (fst e)"
    by (auto simp: kv_prefix_def)
  then have "fst e = RecoveryByDIDKey did i" by (auto simp: prefix_def bydid_key_prefix)
  with e(1) show "RecoveryByDIDKey did i \<in> fst ` set m" by force
next
  assume "RecoveryByDIDKey did i \<in> fst ` set m"
  then obtain e where e: "e \<in> set m" "fst e = RecoveryByDIDPrefixFor did @ i"
    by (metis imageE bydid_key_prefix)
  then have "e \<in> set (kv_prefix m (RecoveryByDIDPrefixFor did))" by (simp add: kv_prefix_def)
  with e(2) show "i \<in> set (map (\<lambda>e. drop (length (RecoveryByDIDPrefixFor did)) (fst e)) (kv_prefix m (RecoveryByDIDPrefixFor did)))"
    by force
qed

lemma distinct_drop_prefix:
  assumes "kv_sorted m"
  shows "distinct (map (\<lambda>e. drop (length p) (fst e)) (kv_prefix m p))"
proof -
  have "distinct (map fst (kv_prefix m p))"
    unfolding kv_prefix_def by (rule kv.entries_distinct [OF kv_sorted_filter [OF assms]])
  moreover have "inj_on (drop (length p)) (set (map fst (kv_prefix m p)))"
    by (auto simp: inj_on_def kv_prefix_def prefix_def)
  ultimately have "distinct (map (drop (length p)) (map fst (kv_prefix m p)))"
    by (subst distinct_map) (rule conjI)
  then show ?thesis by (simp add: comp_def)
qed

lemma requests_for_did:
  assumes "recov_ok E s" "nul_free did"
  shows "set (RecoveryRequestsForDID s did) = {r \<in> requests s. rr_Did r = did}"
    "distinct (map rr_RecoveryId (RecoveryRequestsForDID s did))"
proof -
  let ?ids = "map (\<lambda>e. drop (length (RecoveryByDIDPrefixFor did)) (fst e)) (kv_prefix (ids_bydid s) (RecoveryByDIDPrefixFor did))"
  have L: "RecoveryRequestsForDID s did = List.map_filter (GetRecoveryRequest s) ?ids"
    by (simp add: RecoveryRequestsForDID_def Let_def)
  have idx: "fst ` set (ids_bydid s) = (\<lambda>r. RecoveryByDIDKey (rr_Did r) (rr_RecoveryId r)) ` requests s"
    using assms(1) by (simp add: recov_ok_def)
  have key: "RecoveryByDIDKey did i = RecoveryByDIDKey (rr_Did r) (rr_RecoveryId r)
      \<longleftrightarrow> did = rr_Did r \<and> i = rr_RecoveryId r" if "r \<in> requests s" for i r
  proof (rule bydid_key_inj [OF assms(2)])
    show "nul_free (rr_Did r)"
      using that GetRecoveryRequest_id(3) [OF assms(1), of "rr_RecoveryId r" r] requests_get [OF assms(1), of r]
      by (simp add: req_ok_def)
  qed
  have mem: "i \<in> set ?ids \<longleftrightarrow> (\<exists>r \<in> requests s. did = rr_Did r \<and> i = rr_RecoveryId r)" for i
    unfolding bydid_ids idx image_iff using key by blast
  have get: "GetRecoveryRequest s (rr_RecoveryId r) = Some r' \<longleftrightarrow> r' = r" if "r \<in> requests s" for r r'
    using requests_get [OF assms(1), of r] that by auto
  show "set (RecoveryRequestsForDID s did) = {r \<in> requests s. rr_Did r = did}"
    unfolding L set_map_filter_some Bex_def mem using get by auto
  have "map rr_RecoveryId (List.map_filter (GetRecoveryRequest s) is) = filter (\<lambda>i. GetRecoveryRequest s i \<noteq> None) is" for "is"
  proof (induction "is")
    case Nil
    then show ?case by (simp add: map_filter_def)
  next
    case (Cons i "is")
    then show ?case using GetRecoveryRequest_id(1) [OF assms(1), of i] by (auto simp: map_filter_def)
  qed
  moreover have "distinct ?ids" by (rule distinct_drop_prefix) (use assms(1) in \<open>simp add: recov_ok_def\<close>)
  ultimately show "distinct (map rr_RecoveryId (RecoveryRequestsForDID s did))" unfolding L by simp
qed

section \<open>Writing and deleting a request\<close>

lemma SetRecoveryRequest_ok:
  assumes "recov_ok E s" "req_ok E r"
    and "\<And>old. GetRecoveryRequest s (rr_RecoveryId r) = Some old \<Longrightarrow> rr_Did old = rr_Did r"
  defines "s' \<equiv> SetRecoveryRequest s r"
  shows "recov_ok E s'" "deposit_total s' = deposit_total s + deposit r
      - (case GetRecoveryRequest s (rr_RecoveryId r) of None \<Rightarrow> 0 | Some old \<Rightarrow> deposit old)"
    "requests s' = insert r {q \<in> requests s. rr_RecoveryId q \<noteq> rr_RecoveryId r}"
    "GetRecoveryRequest s' i = (if i = rr_RecoveryId r then Some r else GetRecoveryRequest s i)"
proof -
  let ?k = "RecoveryKey (rr_RecoveryId r)" and ?f = "\<lambda>r. RecoveryByDIDKey (rr_Did r) (rr_RecoveryId r)"
  have srt: "kv_sorted (ids_recov s)" "kv_sorted (ids_bydid s)" using assms(1) by (simp_all add: recov_ok_def)
  have new: "ids_recov s' = kv_set (ids_recov s) ?k r" "ids_bydid s' = kv_set (ids_bydid s) (?f r) [CHR 0x01]"
    by (simp_all add: s'_def SetRecoveryRequest_def)
  show get: "GetRecoveryRequest s' i = (if i = rr_RecoveryId r then Some r else GetRecoveryRequest s i)" for i
    by (simp add: GetRecoveryRequest_def new del: kv_set.simps)
  have entries: "k = RecoveryKey (rr_RecoveryId q) \<and> req_ok E q" if "(k, q) \<in> set (ids_recov s')" for k q
  proof -
    have "kv_get (ids_recov s') k = Some q" using kv_get_mem [of "ids_recov s'" k q] srt(1) that by (simp add: new)
    then have "k = ?k \<and> q = r \<or> (k, q) \<in> set (ids_recov s)"
      using kv_get_in [of "ids_recov s" k q] by (auto simp: new simp del: kv_set.simps split: if_splits)
    with recov_entry [OF assms(1)] assms(2) show ?thesis by auto
  qed
  have reqs: "requests s' = insert r {q \<in> requests s. rr_RecoveryId q \<noteq> rr_RecoveryId r}"
  proof -
    have mem': "q \<in> requests s' \<longleftrightarrow> GetRecoveryRequest s' (rr_RecoveryId q) = Some q" for q
      by (rule keyed_requests) (use srt(1) entries in \<open>simp_all add: new\<close>)
    show ?thesis by (auto simp: mem' get requests_get [OF assms(1)] split: if_splits)
  qed
  then show "requests s' = insert r {q \<in> requests s. rr_RecoveryId q \<noteq> rr_RecoveryId r}" .
  have "fst ` set (ids_bydid s') = ?f ` requests s'"
  proof -
    have "fst ` set (ids_bydid s) = ?f ` requests s" using assms(1) by (simp add: recov_ok_def)
    moreover have "insert (?f r) (?f ` requests s) = insert (?f r) (?f ` {q \<in> requests s. rr_RecoveryId q \<noteq> rr_RecoveryId r})"
    proof -
      have "?f q = ?f r" if "q \<in> requests s" "rr_RecoveryId q = rr_RecoveryId r" for q
        using assms(3) [of q] requests_get [OF assms(1), of q] that by simp
      then show ?thesis by blast
    qed
    ultimately show ?thesis unfolding reqs by (simp add: new kv_set_keys)
  qed
  moreover have "kv_sorted (ids_recov s')" "kv_sorted (ids_bydid s')" using srt by (simp_all add: new)
  ultimately show "recov_ok E s'" using entries unfolding recov_ok_def by blast
  show "deposit_total s' = deposit_total s + deposit r
      - (case GetRecoveryRequest s (rr_RecoveryId r) of None \<Rightarrow> 0 | Some old \<Rightarrow> deposit old)"
    using kv.entries_sum_put [OF srt(1), of "\<lambda>_. deposit" ?k r]
    by (simp add: deposit_total_def new GetRecoveryRequest_def)
qed

lemma delete_recov [simp]:
  "ids_recov (deleteRecoveryRequest s r) = kv_delete (ids_recov s) (RecoveryKey (rr_RecoveryId r))"
  "ids_bydid (deleteRecoveryRequest s r) = kv_delete (ids_bydid s) (RecoveryByDIDKey (rr_Did r) (rr_RecoveryId r))"
  by (simp_all add: deleteRecoveryRequest_def deleteRecoveryTallyEpoch_def)

lemma image_remove: "(\<And>q. q \<in> A \<Longrightarrow> f q = c \<longleftrightarrow> P q) \<Longrightarrow> f ` A - {c} = f ` {q \<in> A. \<not> P q}"
  by auto

lemma deleteRecoveryRequest_ok:
  assumes "recov_ok E s" "GetRecoveryRequest s (rr_RecoveryId r) = Some old" "rr_Did old = rr_Did r"
  defines "s' \<equiv> deleteRecoveryRequest s r"
  shows "recov_ok E s'" "deposit_total s' = deposit_total s - deposit old"
    "requests s' = {q \<in> requests s. rr_RecoveryId q \<noteq> rr_RecoveryId r}"
    "GetRecoveryRequest s' i = (if i = rr_RecoveryId r then None else GetRecoveryRequest s i)"
proof -
  let ?k = "RecoveryKey (rr_RecoveryId r)" and ?f = "\<lambda>r. RecoveryByDIDKey (rr_Did r) (rr_RecoveryId r)"
  have srt: "kv_sorted (ids_recov s)" "kv_sorted (ids_bydid s)" using assms(1) by (simp_all add: recov_ok_def)
  have new: "ids_recov s' = kv_delete (ids_recov s) ?k" "ids_bydid s' = kv_delete (ids_bydid s) (?f r)"
    by (simp_all add: s'_def)
  show get: "GetRecoveryRequest s' i = (if i = rr_RecoveryId r then None else GetRecoveryRequest s i)" for i
    using srt(1) by (simp add: GetRecoveryRequest_def new)
  have entries: "k = RecoveryKey (rr_RecoveryId q) \<and> req_ok E q" if "(k, q) \<in> set (ids_recov s')" for k q
  proof -
    have "kv_get (ids_recov s') k = Some q" using kv_get_mem [of "ids_recov s'" k q] srt(1) that by (simp add: new)
    then have "(k, q) \<in> set (ids_recov s)"
      by (intro kv_get_in) (simp add: new split: if_splits)
    with recov_entry [OF assms(1)] show ?thesis by auto
  qed
  have mem': "q \<in> requests s' \<longleftrightarrow> GetRecoveryRequest s' (rr_RecoveryId q) = Some q" for q
    by (rule keyed_requests) (use srt(1) entries in \<open>simp_all add: new\<close>)
  show reqs: "requests s' = {q \<in> requests s. rr_RecoveryId q \<noteq> rr_RecoveryId r}"
    by (auto simp: mem' get requests_get [OF assms(1)] split: if_splits)
  have nf: "nul_free (rr_Did q)" if "q \<in> requests s" for q
    using that GetRecoveryRequest_id(3) [OF assms(1), of "rr_RecoveryId q" q] requests_get [OF assms(1), of q]
    by (simp add: req_ok_def)
  have "old \<in> requests s" by (rule GetRecoveryRequest_id(2) [OF assms(1,2)])
  have nfr: "nul_free (rr_Did r)" using nf [OF \<open>old \<in> requests s\<close>] assms(3) by simp
  have "fst ` set (ids_bydid s') = ?f ` requests s'"
  proof -
    have "fst ` set (ids_bydid s) = ?f ` requests s" using assms(1) by (simp add: recov_ok_def)
    moreover have "?f q = ?f r \<longleftrightarrow> rr_RecoveryId q = rr_RecoveryId r" if "q \<in> requests s" for q
    proof -
      have "rr_RecoveryId q = rr_RecoveryId r \<Longrightarrow> rr_Did q = rr_Did r"
        using requests_get [OF assms(1), of q] that assms(2,3) by simp
      then show ?thesis unfolding bydid_key_inj [OF nf [OF that] nfr] by blast
    qed
    then have "?f ` requests s - {?f r} = ?f ` {q \<in> requests s. rr_RecoveryId q \<noteq> rr_RecoveryId r}"
      by (rule image_remove)
    ultimately show ?thesis unfolding reqs by (simp add: new kv_delete_keys srt(2))
  qed
  moreover have "kv_sorted (ids_recov s')" "kv_sorted (ids_bydid s')" using srt by (simp_all add: new)
  ultimately show "recov_ok E s'" using entries unfolding recov_ok_def by blast
  show "deposit_total s' = deposit_total s - deposit old"
    using kv.entries_sum_del [OF srt(1), of "\<lambda>_. deposit" ?k] assms(2)
    by (simp add: deposit_total_def new GetRecoveryRequest_def)
qed

section \<open>The tally of a request\<close>

text \<open>
  A request whose tally belongs to the current guardian set counts only DIDs that open one of that
  set's commitments.  The epoch saturates at its largest value, where the link is lost.
\<close>

definition is_guardian :: "crypto_env \<Rightarrow> GuardianSet \<Rightarrow> string \<Rightarrow> bool" where
  "is_guardian C gs g \<longleftrightarrow> (\<exists>salt. length salt = GuardianSaltLen \<and> HasCommitment gs (GuardianCommitment C g salt))"

definition guardian_of :: "crypto_env \<Rightarrow> id_state \<Rightarrow> string \<Rightarrow> string \<Rightarrow> bool" where
  "guardian_of C s did g \<longleftrightarrow> g \<noteq> did \<and> (\<exists>gs. GetGuardians s did = Some gs \<and> is_guardian C gs g)"

definition tally_ok :: "crypto_env \<Rightarrow> id_state \<Rightarrow> RecoveryRequest \<Rightarrow> bool" where
  "tally_ok C s r \<longleftrightarrow> recoveryTallyEpoch s (rr_RecoveryId r) \<le> GuardianEpoch s (rr_Did r)
     \<and> distinct (rr_Approvals r) \<and> distinct (rr_Rejections r)
     \<and> (tallyIsCurrent s r \<and> GuardianEpoch s (rr_Did r) \<noteq> - 1 \<longrightarrow>
          list_all (guardian_of C s (rr_Did r)) (rr_Approvals r @ rr_Rejections r))"

definition quorum_ok :: "crypto_env \<Rightarrow> id_state \<Rightarrow> bool" where
  "quorum_ok C s \<longleftrightarrow> (\<forall>i. GetRecoveryRequest s i = None \<longrightarrow> recoveryTallyEpoch s i = 0)
     \<and> (\<forall>i r. GetRecoveryRequest s i = Some r \<longrightarrow> tally_ok C s r)"

definition recov_inv :: "id_deps \<Rightarrow> id_world \<Rightarrow> bool" where
  "recov_inv D w \<longleftrightarrow> recov_ok (I_env D) (snd w) \<and> escrowed (I_env D) w \<and> quorum_ok (I_crypto D) (snd w)"

lemma tally_frame:
  assumes "ids_gepoch s' = ids_gepoch s" "ids_guardians s' = ids_guardians s"
    "recoveryTallyEpoch s' (rr_RecoveryId r) = recoveryTallyEpoch s (rr_RecoveryId r)"
  shows "tally_ok C s' r = tally_ok C s r"
proof -
  have "GuardianEpoch s' = GuardianEpoch s" "GetGuardians s' = GetGuardians s"
    using assms(1,2) by (simp_all add: GuardianEpoch_def GetGuardians_def fun_eq_iff)
  moreover from this have "guardian_of C s' = guardian_of C s" by (simp add: guardian_of_def fun_eq_iff)
  ultimately show ?thesis using assms(3) by (simp add: tally_ok_def tallyIsCurrent_def)
qed

lemma recov_inv_frame:
  assumes "ids_recov s' = ids_recov s" "ids_bydid s' = ids_bydid s" "ids_tepoch s' = ids_tepoch s"
    "ids_gepoch s' = ids_gepoch s" "ids_guardians s' = ids_guardians s" "recov_inv D (b, s)"
  shows "recov_inv D (b, s')"
proof -
  have "recoveryTallyEpoch s' = recoveryTallyEpoch s" "GetRecoveryRequest s' = GetRecoveryRequest s"
    using assms(1,3) by (simp_all add: recoveryTallyEpoch_def GetRecoveryRequest_def fun_eq_iff)
  moreover from this have "tally_ok C s' r = tally_ok C s r" for C r using tally_frame [OF assms(4,5)] by simp
  ultimately have "quorum_ok C s' = quorum_ok C s" for C by (simp add: quorum_ok_def)
  with assms(1,2,6) show ?thesis
    by (simp add: recov_inv_def recov_ok_def requests_def escrowed_def deposit_total_def)
qed

lemma tally_epoch_ops [simp]:
  "recoveryTallyEpoch (deleteRecoveryRequest s r) i = (if i = rr_RecoveryId r then 0 else recoveryTallyEpoch s i)"
  "recoveryTallyEpoch (SetRecoveryRequest s r) i = recoveryTallyEpoch s i"
  "recoveryTallyEpoch (setRecoveryTallyEpoch s j e) i = (if i = j then e else recoveryTallyEpoch s i)"
  by (simp_all add: recoveryTallyEpoch_def deleteRecoveryRequest_def deleteRecoveryTallyEpoch_def
      SetRecoveryRequest_def setRecoveryTallyEpoch_def decodeEpoch_def encodeEpoch_def del: kv_set.simps)

lemma recovery_ops_frame [simp]:
  "ids_gepoch (deleteRecoveryRequest s r) = ids_gepoch s" "ids_guardians (deleteRecoveryRequest s r) = ids_guardians s"
  "ids_gepoch (SetRecoveryRequest s r) = ids_gepoch s" "ids_guardians (SetRecoveryRequest s r) = ids_guardians s"
  by (simp_all add: deleteRecoveryRequest_def deleteRecoveryTallyEpoch_def SetRecoveryRequest_def)

lemma quorum_delete:
  assumes "quorum_ok C s"
    and "\<And>i. GetRecoveryRequest (deleteRecoveryRequest s r) i = (if i = rr_RecoveryId r then None else GetRecoveryRequest s i)"
    and "recov_ok E s"
  shows "quorum_ok C (deleteRecoveryRequest s r)"
proof -
  have "tally_ok C (deleteRecoveryRequest s r) q = tally_ok C s q" if "rr_RecoveryId q \<noteq> rr_RecoveryId r" for q
    by (rule tally_frame) (use that in simp_all)
  moreover have "rr_RecoveryId q = i" if "GetRecoveryRequest s i = Some q" for i q
    by (rule GetRecoveryRequest_id(1) [OF assms(3) that])
  ultimately show ?thesis using assms(1) unfolding quorum_ok_def by (auto simp: assms(2) split: if_splits)
qed

lemma quorum_set:
  assumes "quorum_ok C s" "tally_ok C s r"
    and "\<And>i. GetRecoveryRequest (SetRecoveryRequest s r) i = (if i = rr_RecoveryId r then Some r else GetRecoveryRequest s i)"
  shows "quorum_ok C (SetRecoveryRequest s r)"
proof -
  have "tally_ok C (SetRecoveryRequest s r) q = tally_ok C s q" for q
    by (rule tally_frame) simp_all
  then show ?thesis using assms(1,2) unfolding quorum_ok_def by (auto simp: assms(3) split: if_splits)
qed

section \<open>Settling a deposit\<close>

lemma forfeit_balance:
  assumes "forfeitDeposit E b r = Inr b'" "0 \<le> deposit r"
  shows "GetBalance b (ModuleAddress E id_ModuleName) - deposit r \<le> GetBalance b' (ModuleAddress E id_ModuleName)"
  using assms unfolding forfeitDeposit_def deposit_def amount_or_zero_def
  by (auto split: option.splits if_splits dest!: module_sends_are_sends(2)
      send_balances [where c = "ModuleAddress E id_ModuleName"])

lemma refund_balance:
  assumes "refundDeposit E b r = Inr b'" "0 \<le> deposit r"
  shows "GetBalance b (ModuleAddress E id_ModuleName) - deposit r \<le> GetBalance b' (ModuleAddress E id_ModuleName)"
  using assms unfolding refundDeposit_def deposit_def amount_or_zero_def
  by (auto split: option.splits if_splits dest!: module_sends_are_sends(1)
      send_balances [where c = "ModuleAddress E id_ModuleName"])

lemma settle_inv:
  assumes "recov_inv D (b, s)" "GetRecoveryRequest s (rr_RecoveryId r) = Some old" "rr_Did old = rr_Did r"
    and "GetBalance b (ModuleAddress (I_env D) id_ModuleName) - deposit old
      \<le> GetBalance b' (ModuleAddress (I_env D) id_ModuleName)"
  shows "recov_inv D (b', deleteRecoveryRequest s r)"
proof -
  have ok: "recov_ok (I_env D) s" "quorum_ok (I_crypto D) s" using assms(1) by (simp_all add: recov_inv_def)
  note d = deleteRecoveryRequest_ok [OF ok(1) assms(2,3)]
  from quorum_delete [OF ok(2) d(4) ok(1)] d(1,2) assms(1,4) show ?thesis by (simp add: recov_inv_def escrowed_def)
qed

lemma write_request_inv:
  assumes "recov_inv D (b, s)" "req_ok (I_env D) r" "tally_ok (I_crypto D) s r"
    and "\<And>old. GetRecoveryRequest s (rr_RecoveryId r) = Some old \<Longrightarrow> rr_Did old = rr_Did r"
    and "GetBalance b (ModuleAddress (I_env D) id_ModuleName) + deposit r
      - (case GetRecoveryRequest s (rr_RecoveryId r) of None \<Rightarrow> 0 | Some old \<Rightarrow> deposit old)
      \<le> GetBalance b' (ModuleAddress (I_env D) id_ModuleName)"
  shows "recov_inv D (b', SetRecoveryRequest s r)"
proof -
  have ok: "recov_ok (I_env D) s" "quorum_ok (I_crypto D) s" using assms(1) by (simp_all add: recov_inv_def)
  note w = SetRecoveryRequest_ok [OF ok(1) assms(2,4)]
  have "quorum_ok (I_crypto D) (SetRecoveryRequest s r)" by (rule quorum_set [OF ok(2) assms(3) w(4)])
  with w(1,2) assms(1,5) show ?thesis by (simp add: recov_inv_def escrowed_def)
qed

lemma rewrite_inv:
  assumes "recov_inv D (b, s)" "GetRecoveryRequest s (rr_RecoveryId r) = Some old"
    and "rr_Did r = rr_Did old" "rr_Status r = rr_Status old" "rr_DepositUphi r = rr_DepositUphi old"
      "rr_ProposedNewController r = rr_ProposedNewController old" "tally_ok (I_crypto D) s r"
  shows "recov_inv D (b, SetRecoveryRequest s r)"
proof (rule write_request_inv [OF assms(1) _ assms(7)])
  have ok: "recov_ok (I_env D) s" using assms(1) by (simp add: recov_inv_def)
  show "req_ok (I_env D) r"
    using GetRecoveryRequest_id(3) [OF ok assms(2)] assms(3-6) by (simp add: req_ok_def deposit_def)
qed (use assms(2,3,5) in \<open>simp_all add: deposit_def\<close>)

lemma stored_tally: "recov_inv D w \<Longrightarrow> GetRecoveryRequest (snd w) i = Some r \<Longrightarrow> tally_ok (I_crypto D) (snd w) r"
  unfolding recov_inv_def quorum_ok_def by blast

lemma tally_ok_cong:
  "rr_RecoveryId r = rr_RecoveryId q \<Longrightarrow> rr_Did r = rr_Did q \<Longrightarrow> rr_Approvals r = rr_Approvals q
    \<Longrightarrow> rr_Rejections r = rr_Rejections q \<Longrightarrow> tally_ok C s r = tally_ok C s q"
  by (simp add: tally_ok_def tallyIsCurrent_def)

end
