(* ===== verification/IdRuns.thy ===== *)
theory IdRuns
  imports IdRecov
begin

text \<open>
  Every handler of \<^verbatim>\<open>x/identity\<close> preserves the invariant of documents and indexes and the
  invariant of the recovery store; hence so does every sequence of messages and staking events.
\<close>

section \<open>Frames\<close>

text \<open>Everything but the recovery stores.\<close>

definition core :: "id_state \<Rightarrow> id_state" where
  "core s = s\<lparr>ids_recov := [], ids_bydid := [], ids_tepoch := [], ids_rnonce := []\<rparr>"

lemma core_fields:
  assumes "core s' = core s"
  shows "ids_params s' = ids_params s" "ids_count s' = ids_count s" "ids_docs s' = ids_docs s"
    "ids_uniq s' = ids_uniq s" "ids_ctrl s' = ids_ctrl s" "ids_elig s' = ids_elig s" "ids_byage s' = ids_byage s"
    "ids_total s' = ids_total s" "ids_guardians s' = ids_guardians s" "ids_gepoch s' = ids_gepoch s"
    "ids_did2val s' = ids_did2val s" "ids_val2did s' = ids_val2did s"
  using assms by (cases s; cases s'; simp add: core_def)+

lemma core_ops [simp]:
  "core (SetRecoveryRequest s r) = core s" "core (deleteRecoveryRequest s r) = core s"
  "core (markRecoveryNonce s d n) = core s" "core (setRecoveryTallyEpoch s i e) = core s"
  by (simp_all add: core_def SetRecoveryRequest_def deleteRecoveryRequest_def deleteRecoveryTallyEpoch_def
      markRecoveryNonce_def setRecoveryTallyEpoch_def)

lemma id_inv_frame:
  assumes "ids_docs s' = ids_docs s" "ids_uniq s' = ids_uniq s" "ids_ctrl s' = ids_ctrl s" "ids_elig s' = ids_elig s"
    "ids_byage s' = ids_byage s" "ids_total s' = ids_total s" "id_inv s"
  shows "id_inv s'"
  using assms(7) docs_frame [OF assms(1)] index_frame [OF assms(1,3)] mirror_frame [OF assms(4-6)]
    record_frame [OF assms(4)] assms(2) by (simp add: id_inv_def uniq_ok_def)

lemma id_inv_core: "core s' = core s \<Longrightarrow> id_inv s \<Longrightarrow> id_inv s'"
  using core_fields [of s' s] id_inv_frame [of s' s] by simp

lemma GetIdentity_core: "core s' = core s \<Longrightarrow> GetIdentity s' = GetIdentity s"
  by (rule docs_frame(4)) (rule core_fields(3))

section \<open>Walking the requests of a DID\<close>

definition others_same :: "id_state \<Rightarrow> id_state \<Rightarrow> bytes \<Rightarrow> bool" where
  "others_same s s' i \<longleftrightarrow> (\<forall>j. j \<noteq> i \<longrightarrow> GetRecoveryRequest s' j = GetRecoveryRequest s j)"

text \<open>
  A loop whose body touches only the request it is given: the invariant holds at the end, and what
  the body establishes of its request still holds there.
\<close>

lemma walk_requests:
  fixes view :: "'a \<Rightarrow> id_world"
  assumes "foldE f rs a = Inr a'" "recov_inv D (view a)"
    "\<forall>r \<in> set rs. GetRecoveryRequest (snd (view a)) (rr_RecoveryId r) = Some r" "distinct (map rr_RecoveryId rs)"
  and step: "\<And>r a a'. recov_inv D (view a) \<Longrightarrow> GetRecoveryRequest (snd (view a)) (rr_RecoveryId r) = Some r
      \<Longrightarrow> f r a = Inr a' \<Longrightarrow> recov_inv D (view a') \<and> core (snd (view a')) = core (snd (view a))
        \<and> others_same (snd (view a)) (snd (view a')) (rr_RecoveryId r)
        \<and> post r (GetRecoveryRequest (snd (view a')) (rr_RecoveryId r))"
  shows "recov_inv D (view a') \<and> core (snd (view a')) = core (snd (view a))
      \<and> (\<forall>j. j \<notin> rr_RecoveryId ` set rs \<longrightarrow> GetRecoveryRequest (snd (view a')) j = GetRecoveryRequest (snd (view a)) j)
      \<and> (\<forall>r \<in> set rs. post r (GetRecoveryRequest (snd (view a')) (rr_RecoveryId r)))"
  using assms(1-4)
proof (induction rs arbitrary: a)
  case (Cons r rs)
  from Cons.prems(1) obtain t where t: "f r a = Inr t" "foldE f rs t = Inr a'" by (auto simp: ok_simps)
  have s: "recov_inv D (view t)" "core (snd (view t)) = core (snd (view a))"
      "others_same (snd (view a)) (snd (view t)) (rr_RecoveryId r)"
      "post r (GetRecoveryRequest (snd (view t)) (rr_RecoveryId r))"
    using step [OF Cons.prems(2) _ t(1)] Cons.prems(3) by simp_all
  have d: "distinct (map rr_RecoveryId rs)" "rr_RecoveryId r \<notin> rr_RecoveryId ` set rs" using Cons.prems(4) by simp_all
  have "rr_RecoveryId q \<noteq> rr_RecoveryId r" if "q \<in> set rs" for q using d(2) that by (metis imageI)
  then have "\<forall>q \<in> set rs. GetRecoveryRequest (snd (view t)) (rr_RecoveryId q) = Some q"
    using Cons.prems(3) s(3) by (simp add: others_same_def)
  note ih = Cons.IH [OF t(2) s(1) this d(1)]
  have keep: "GetRecoveryRequest (snd (view a')) (rr_RecoveryId r) = GetRecoveryRequest (snd (view t)) (rr_RecoveryId r)"
    using ih d(2) by blast
  have "GetRecoveryRequest (snd (view a')) j = GetRecoveryRequest (snd (view a)) j"
    if "j \<notin> rr_RecoveryId ` set (r # rs)" for j
    using ih that s(3) by (simp add: others_same_def)
  moreover have "\<forall>q \<in> set (r # rs). post q (GetRecoveryRequest (snd (view a')) (rr_RecoveryId q))"
    using ih s(4) keep by simp
  ultimately show ?case using ih s(2) by simp
qed simp

lemma foldE_foldl: "foldE (\<lambda>x s. Inr (f s x)) xs s = Inr (foldl f s xs)"
  by (induction xs arbitrary: s) simp_all

lemma stored_requests:
  assumes "recov_inv D (b, s)" "nul_free did"
  shows "\<forall>r \<in> set (RecoveryRequestsForDID s did). GetRecoveryRequest s (rr_RecoveryId r) = Some r"
    "distinct (map rr_RecoveryId (RecoveryRequestsForDID s did))"
proof -
  have ok: "recov_ok (I_env D) s" using assms(1) by (simp add: recov_inv_def)
  show "\<forall>r \<in> set (RecoveryRequestsForDID s did). GetRecoveryRequest s (rr_RecoveryId r) = Some r"
    using requests_for_did(1) [OF ok assms(2)] requests_get [OF ok] by auto
  show "distinct (map rr_RecoveryId (RecoveryRequestsForDID s did))" by (rule requests_for_did(2) [OF ok assms(2)])
qed

lemma stored_req_ok:
  assumes "recov_inv D (b, s)" "GetRecoveryRequest s i = Some r"
  shows "rr_RecoveryId r = i" "req_ok (I_env D) r"
  using GetRecoveryRequest_id [of "I_env D" s i r] assms by (simp_all add: recov_inv_def)

lemma delete_others [simp]: "others_same s (deleteRecoveryRequest s r) (rr_RecoveryId r)"
  by (simp add: others_same_def GetRecoveryRequest_def)

lemma set_others [simp]: "others_same s (SetRecoveryRequest s r) (rr_RecoveryId r)"
  by (simp add: others_same_def GetRecoveryRequest_def SetRecoveryRequest_def del: kv_set.simps)

lemma GetRecoveryRequest_Set:
  "GetRecoveryRequest (SetRecoveryRequest s r) i = (if i = rr_RecoveryId r then Some r else GetRecoveryRequest s i)"
  by (simp add: GetRecoveryRequest_def SetRecoveryRequest_def del: kv_set.simps)

lemma others_refl [simp]: "others_same s s i"
  by (simp add: others_same_def)

lemma forfeit_step:
  assumes "recov_inv D (b, s)" "GetRecoveryRequest s (rr_RecoveryId r) = Some r" "forfeitDeposit (I_env D) b r = Inr b'"
  shows "recov_inv D (b', deleteRecoveryRequest s r)" "GetRecoveryRequest (deleteRecoveryRequest s r) (rr_RecoveryId r) = None"
proof -
  have "0 \<le> deposit r" using stored_req_ok(2) [OF assms(1,2)] by (simp add: req_ok_def)
  from settle_inv [OF assms(1,2) _ forfeit_balance [OF assms(3) this]]
  show "recov_inv D (b', deleteRecoveryRequest s r)" by simp
  show "GetRecoveryRequest (deleteRecoveryRequest s r) (rr_RecoveryId r) = None" by (simp add: GetRecoveryRequest_def)
qed

lemma reap_step:
  assumes "recov_inv D w" "GetRecoveryRequest (snd w) (rr_RecoveryId r) = Some r"
    "reapIfExpired (I_env D) c w r = Inr (t, r', w')"
  shows "recov_inv D w'" "core (snd w') = core (snd w)" "others_same (snd w) (snd w') (rr_RecoveryId r)"
    "\<not> t \<Longrightarrow> r' = r \<and> w' = w"
proof -
  obtain b s where w: "w = (b, s)" by force
  have pend: "\<not> IsTerminalRecoveryStatus (rr_Status r)"
    using stored_req_ok(2) [of D b s] assms(1,2) by (auto simp: w req_ok_def IsTerminalRecoveryStatus_def)
  from assms(3) consider "w' = w" "r' = r" "\<not> t"
    | b' where "t" "forfeitDeposit (I_env D) b r = Inr b'" "w' = (b', deleteRecoveryRequest s r)"
    using pend unfolding reapIfExpired_def w by (auto simp: ok_simps split: if_splits)
  then have "recov_inv D w' \<and> core (snd w') = core (snd w) \<and> others_same (snd w) (snd w') (rr_RecoveryId r)
    \<and> (\<not> t \<longrightarrow> r' = r \<and> w' = w)"
    using assms(1,2) forfeit_step(1) by cases (auto simp: w)
  then show "recov_inv D w'" "core (snd w') = core (snd w)" "others_same (snd w) (snd w') (rr_RecoveryId r)"
    "\<not> t \<Longrightarrow> r' = r \<and> w' = w" by simp_all
qed

lemma countOpenRequests_inv:
  assumes "recov_inv D w" "nul_free did" "countOpenRequests (I_env D) c w did = Inr (n, w')"
  shows "recov_inv D w'" "core (snd w') = core (snd w)"
proof -
  obtain b s where w: "w = (b, s)" by force
  note st = stored_requests [OF assms(1) [unfolded w] assms(2)]
  have "recov_inv D (snd (n, w')) \<and> core (snd (snd (n, w'))) = core (snd (snd (0 :: 32 word, w)))
      \<and> (\<forall>j. j \<notin> rr_RecoveryId ` set (RecoveryRequestsForDID s did) \<longrightarrow>
          GetRecoveryRequest (snd (snd (n, w'))) j = GetRecoveryRequest (snd (snd (0 :: 32 word, w))) j)
      \<and> (\<forall>r \<in> set (RecoveryRequestsForDID s did). True)"
  proof (rule walk_requests [where view = snd and post = "\<lambda>_ _. True"])
    show "foldE (\<lambda>r (n, w). bindE (reapIfExpired (I_env D) c w r) (\<lambda>(terminal, _, w').
        Inr (if terminal then n else n + 1, w'))) (RecoveryRequestsForDID s did) (0, w) = Inr (n, w')"
      using assms(3) by (simp add: countOpenRequests_def w)
  next
    fix r and a a' :: "32 word \<times> id_world"
    assume r: "recov_inv D (snd a)" "GetRecoveryRequest (snd (snd a)) (rr_RecoveryId r) = Some r"
      "(case a of (n, w) \<Rightarrow> bindE (reapIfExpired (I_env D) c w r) (\<lambda>(terminal, _, w').
        Inr (if terminal then n else n + 1, w'))) = Inr a'"
    then obtain t r' where "reapIfExpired (I_env D) c (snd a) r = Inr (t, r', snd a')"
      by (auto simp: ok_simps split: prod.splits)
    from reap_step [OF r(1,2) this]
    show "recov_inv D (snd a') \<and> core (snd (snd a')) = core (snd (snd a))
        \<and> others_same (snd (snd a)) (snd (snd a')) (rr_RecoveryId r) \<and> True" by simp
  qed (use assms(1) st w in simp_all)
  then show "recov_inv D w'" "core (snd w') = core (snd w)" by simp_all
qed

lemma close_requests_inv:
  assumes "recov_inv D w" "\<forall>r \<in> set rs. GetRecoveryRequest (snd w) (rr_RecoveryId r) = Some r"
    "distinct (map rr_RecoveryId rs)" "close_requests (I_env D) skip rs w = Inr w'"
  shows "recov_inv D w'" "core (snd w') = core (snd w)"
    "r \<in> set rs \<Longrightarrow> \<not> skip r \<Longrightarrow> GetRecoveryRequest (snd w') (rr_RecoveryId r) = None"
    "j \<notin> rr_RecoveryId ` set rs \<Longrightarrow> GetRecoveryRequest (snd w') j = GetRecoveryRequest (snd w) j"
proof -
  have "recov_inv D w' \<and> core (snd w') = core (snd w)
      \<and> (\<forall>j. j \<notin> rr_RecoveryId ` set rs \<longrightarrow> GetRecoveryRequest (snd w') j = GetRecoveryRequest (snd w) j)
      \<and> (\<forall>r \<in> set rs. \<not> skip r \<longrightarrow> GetRecoveryRequest (snd w') (rr_RecoveryId r) = None)"
  proof (rule walk_requests [where view = id, unfolded id_apply])
    show "foldE (\<lambda>r (b, s). if skip r \<or> IsTerminalRecoveryStatus (rr_Status r) then Inr (b, s)
      else bindE (forfeitDeposit (I_env D) b r) (\<lambda>b'. Inr (b', deleteRecoveryRequest s r))) rs w = Inr w'"
      using assms(4) by (simp add: close_requests_def)
  next
    fix r and a a' :: id_world
    assume r: "recov_inv D a" "GetRecoveryRequest (snd a) (rr_RecoveryId r) = Some r"
      "(case a of (b, s) \<Rightarrow> if skip r \<or> IsTerminalRecoveryStatus (rr_Status r) then Inr (b, s)
      else bindE (forfeitDeposit (I_env D) b r) (\<lambda>b'. Inr (b', deleteRecoveryRequest s r))) = Inr a'"
    obtain b s where a: "a = (b, s)" by force
    have pend: "\<not> IsTerminalRecoveryStatus (rr_Status r)"
      using stored_req_ok(2) [of D b s] r(1,2) by (auto simp: a req_ok_def IsTerminalRecoveryStatus_def)
    show "recov_inv D a' \<and> core (snd a') = core (snd a) \<and> others_same (snd a) (snd a') (rr_RecoveryId r)
        \<and> (\<not> skip r \<longrightarrow> GetRecoveryRequest (snd a') (rr_RecoveryId r) = None)"
    proof (cases "skip r")
      case True
      then show ?thesis using r(1,3) by (simp add: a)
    next
      case False
      then obtain b' where b': "forfeitDeposit (I_env D) b r = Inr b'" "a' = (b', deleteRecoveryRequest s r)"
        using r(3) pend by (auto simp: a ok_simps)
      from forfeit_step [OF r(1) [unfolded a] _ b'(1)] r(2) show ?thesis by (simp add: a b'(2))
    qed
  qed (use assms in simp_all)
  then show "recov_inv D w'" "core (snd w') = core (snd w)"
    "r \<in> set rs \<Longrightarrow> \<not> skip r \<Longrightarrow> GetRecoveryRequest (snd w') (rr_RecoveryId r) = None"
    "j \<notin> rr_RecoveryId ` set rs \<Longrightarrow> GetRecoveryRequest (snd w') j = GetRecoveryRequest (snd w) j"
    by simp_all
qed

text \<open>A loop that rewrites requests without touching what the invariant reads of them.\<close>

lemma rewrite_walk:
  fixes keep :: "RecoveryRequest \<Rightarrow> bool"
  assumes "recov_inv D (b, s)" "nul_free did"
    and upd: "\<And>r. rr_RecoveryId (u r) = rr_RecoveryId r \<and> rr_Did (u r) = rr_Did r \<and> rr_Status (u r) = rr_Status r
      \<and> rr_DepositUphi (u r) = rr_DepositUphi r \<and> rr_ProposedNewController (u r) = rr_ProposedNewController r
      \<and> rr_Approvals (u r) = rr_Approvals r \<and> rr_Rejections (u r) = rr_Rejections r"
  defines "s' \<equiv> foldl (\<lambda>s r. if keep r then s else SetRecoveryRequest s (u r)) s (RecoveryRequestsForDID s did)"
  shows "recov_inv D (b, s')" "core s' = core s"
    "r \<in> set (RecoveryRequestsForDID s did) \<Longrightarrow> GetRecoveryRequest s' (rr_RecoveryId r) = Some (if keep r then r else u r)"
proof -
  note st = stored_requests [OF assms(1,2)]
  let ?rs = "RecoveryRequestsForDID s did"
  have "recov_inv D (b, s') \<and> core (snd (b, s')) = core (snd (b, s))
      \<and> (\<forall>j. j \<notin> rr_RecoveryId ` set ?rs \<longrightarrow> GetRecoveryRequest (snd (b, s')) j = GetRecoveryRequest (snd (b, s)) j)
      \<and> (\<forall>r \<in> set ?rs. GetRecoveryRequest (snd (b, s')) (rr_RecoveryId r) = Some (if keep r then r else u r))"
  proof (rule walk_requests [where view = "\<lambda>s. (b, s)"])
    show "foldE (\<lambda>r s. Inr (if keep r then s else SetRecoveryRequest s (u r))) ?rs s = Inr s'"
      by (simp add: foldE_foldl s'_def)
  next
    fix r a a'
    assume r: "recov_inv D (b, a)" "GetRecoveryRequest (snd (b, a)) (rr_RecoveryId r) = Some r"
      "Inr (if keep r then a else SetRecoveryRequest a (u r)) = Inr a'"
    have tally: "tally_ok (I_crypto D) a (u r)"
      using stored_tally [OF r(1,2)] tally_ok_cong [of "u r" r] upd [of r] by simp
    show "recov_inv D (b, a') \<and> core (snd (b, a')) = core (snd (b, a)) \<and> others_same (snd (b, a)) (snd (b, a')) (rr_RecoveryId r)
        \<and> GetRecoveryRequest (snd (b, a')) (rr_RecoveryId r) = Some (if keep r then r else u r)"
    proof (cases "keep r")
      case True
      then show ?thesis using r by simp
    next
      case False
      then have a': "a' = SetRecoveryRequest a (u r)" using r(3) by simp
      have "recov_inv D (b, a')" unfolding a'
        by (rule rewrite_inv [OF r(1)]) (use r(2) upd [of r] tally in simp_all)
      moreover have "others_same a a' (rr_RecoveryId r)" using set_others [of a "u r"] upd [of r] by (simp add: a')
      moreover have "GetRecoveryRequest a' (rr_RecoveryId r) = Some (u r)"
        using GetRecoveryRequest_Set [of a "u r" "rr_RecoveryId r"] upd [of r] by (simp add: a')
      ultimately show ?thesis using False by (simp add: a')
    qed
  qed (use assms(1) st in simp_all)
  then show "recov_inv D (b, s')" "core s' = core s"
    "r \<in> set ?rs \<Longrightarrow> GetRecoveryRequest s' (rr_RecoveryId r) = Some (if keep r then r else u r)" by simp_all
qed

end
