(* ===== verification/IdReach.thy ===== *)
theory IdReach
  imports IdRuns
begin

text \<open>
  The identity world over all its operations: one preservation lemma per handler, hook and sweep,
  the step relation that interleaves them, and reachability.
\<close>

section \<open>The invariant of the world\<close>

definition bind_ok :: "id_state \<Rightarrow> bool" where
  "bind_ok s \<longleftrightarrow> (\<forall>did v. ValidatorForDID s did = Some v \<longleftrightarrow> DIDForValidator s v = Some did)"

definition side_ok :: "id_state \<Rightarrow> bool" where
  "side_ok s \<longleftrightarrow> id_Params_Validate (id_GetParams s) = Inr () \<and> bind_ok s"

definition id_ok :: "id_deps \<Rightarrow> id_world \<Rightarrow> bool" where
  "id_ok D w \<longleftrightarrow> id_inv (snd w) \<and> recov_inv D w \<and> side_ok (snd w)"

text \<open>What bech32 decoding guarantees of an accepted address string.\<close>

definition text_addresses :: "sdk_env \<Rightarrow> bool" where
  "text_addresses E \<longleftrightarrow> (\<forall>a. AccAddressFromBech32 E a \<noteq> None \<longrightarrow> a \<noteq> [] \<and> nul_free a)"

lemma side_frame:
  assumes "ids_params s' = ids_params s" "ids_did2val s' = ids_did2val s" "ids_val2did s' = ids_val2did s" "side_ok s"
  shows "side_ok s'"
  using assms by (simp add: side_ok_def bind_ok_def id_GetParams_def ValidatorForDID_def DIDForValidator_def)

lemma id_okI: "id_inv s \<Longrightarrow> recov_inv D (b, s) \<Longrightarrow> side_ok s \<Longrightarrow> id_ok D (b, s)"
  by (simp add: id_ok_def)

lemma id_okD: "id_ok D (b, s) \<Longrightarrow> id_inv s" "id_ok D (b, s) \<Longrightarrow> recov_inv D (b, s)" "id_ok D (b, s) \<Longrightarrow> side_ok s"
  by (simp_all add: id_ok_def)

lemma id_ok_core:
  assumes "id_ok D (b, s)" "core s' = core s" "recov_inv D (b', s')"
  shows "id_ok D (b', s')"
  using assms(1,3) id_inv_core [OF assms(2)] side_frame [OF core_fields(1,11,12) [OF assms(2)]]
  by (simp add: id_ok_def)

lemma bind_ok_Bind:
  assumes "bind_ok s" "DIDForValidator s v = None" "\<forall>u. ValidatorForDID s did = Some u \<longrightarrow> u = v"
  shows "bind_ok (BindValidatorToDID s did v)"
proof -
  have free: "ValidatorForDID s did = None"
    using assms by (cases "ValidatorForDID s did") (simp_all add: bind_ok_def)
  then have "DIDForValidator s v' \<noteq> Some did" for v' using assms(1) unfolding bind_ok_def by (metis option.distinct(1))
  moreover have "ValidatorForDID s d \<noteq> Some v" for d using assms(1,2) by (simp add: bind_ok_def)
  ultimately show ?thesis using assms(1) free
    by (auto simp: bind_ok_def BindValidatorToDID_def ValidatorForDID_def DIDForValidator_def simp del: kv_set.simps)
qed

lemma bind_ok_Unbind:
  assumes "bind_ok s"
  shows "bind_ok (UnbindValidator s v)"
proof (cases "DIDForValidator s v")
  case None
  then have "UnbindValidator s v = s\<lparr>ids_val2did := kv_delete (ids_val2did s) (ValidatorToDIDKey v)\<rparr>"
    by (simp add: UnbindValidator_def)
  with None assms show ?thesis by (auto simp: bind_ok_def ValidatorForDID_def DIDForValidator_def)
next
  case (Some did)
  have v: "ValidatorForDID (UnbindValidator s v) d = (if d = did then None else ValidatorForDID s d)"
    "DIDForValidator (UnbindValidator s v) x = (if x = v then None else DIDForValidator s x)" for d x
    using Some by (simp_all add: UnbindValidator_def ValidatorForDID_def DIDForValidator_def)
  have "ValidatorForDID s did = Some v" using Some assms by (simp add: bind_ok_def)
  then have own: "DIDForValidator s x = Some did \<longleftrightarrow> x = v" for x using assms unfolding bind_ok_def by (metis option.inject)
  have agree: "ValidatorForDID s d = Some x \<longleftrightarrow> DIDForValidator s x = Some d" for d x using assms by (simp add: bind_ok_def)
  have "ValidatorForDID (UnbindValidator s v) d = Some x \<longleftrightarrow> DIDForValidator (UnbindValidator s v) x = Some d" for d x
    unfolding v using own [of x] Some agree [of d x] by (cases "d = did"; cases "x = v") simp_all
  then show ?thesis by (simp add: bind_ok_def)
qed

lemma id_SetParams_ok:
  assumes "id_ok D (b, s)" "id_SetParams s p = Inr s'"
  shows "id_ok D (b, s')"
proof -
  have s': "s' = s\<lparr>ids_params := Some p\<rparr>" "id_Params_Validate p = Inr ()"
    using assms(2) by (simp_all add: id_SetParams_def ok_simps)
  note i = id_okD [OF assms(1)]
  show ?thesis
  proof (rule id_okI)
    show "id_inv s'" by (rule id_inv_frame [OF _ _ _ _ _ _ i(1)]) (simp_all add: s'(1))
    show "recov_inv D (b, s')" by (rule recov_inv_frame [OF _ _ _ _ _ i(2)]) (simp_all add: s'(1))
    show "side_ok s'" using i(3) s'
      by (simp add: side_ok_def bind_ok_def id_GetParams_def ValidatorForDID_def DIDForValidator_def)
  qed
qed

section \<open>Messages that write a document\<close>

lemma SetIdentity_ok:
  assumes "id_ok D (b, s)" "GetIdentity s (d_Did d) = Some prev" "d_UniquenessHash d = d_UniquenessHash prev"
    "doc_ok d" "in_i64 (block_time c)"
  shows "id_ok D (b, SetIdentity c s d)"
proof -
  note i = id_okD [OF assms(1)]
  have e: "elig_inv s" "uniq_ok s" "docs_ok s" using i(1) by (simp_all add: id_inv_def elig_inv_def)
  note f = SetIdentity_frame [OF e(1) assms(4,5)]
  have "id_inv (SetIdentity c s d)"
    unfolding id_inv_elig using SetIdentity_spec(1) [OF e(1) assms(4,5)]
      uniq_update [OF e(2,3) assms(2,3) SetIdentity_docs(1) [OF e(1) assms(4,5)] f(1)] by simp
  moreover have "recov_inv D (b, SetIdentity c s d)" by (rule recov_inv_frame [OF f(4,5,8,7,6) i(2)])
  moreover have "side_ok (SetIdentity c s d)" by (rule side_frame [OF f(2,9,10) i(3)])
  ultimately show ?thesis by (rule id_okI)
qed

lemma id_ok_doc:
  assumes "id_ok D (b, s)" "GetIdentity s did = Some doc"
  shows "d_Did doc = did" "doc_ok doc"
  using GetIdentity_did [OF _ assms(2)] id_okD(1) [OF assms(1)] by (simp_all add: id_inv_def)

lemma RotateIdentityKey_ok:
  assumes "id_ok D (b, s)" "in_i64 (block_time c)" "RotateIdentityKey D c s m = Inr s'"
  shows "id_ok D (b, s')"
proof -
  from assms(3) obtain doc where doc: "GetIdentity s (rk_Did m) = Some doc" "s' = SetIdentity c s (doc\<lparr>d_PubKey := rk_NewPubKey m\<rparr>)"
    unfolding RotateIdentityKey_def by (auto simp: ok_simps split: option.splits if_splits)
  note d = id_ok_doc [OF assms(1) doc(1)]
  show ?thesis unfolding doc(2)
    by (rule SetIdentity_ok [OF assms(1)]) (use doc(1) d assms(2) in \<open>simp_all add: doc_ok_def\<close>)
qed

lemma ValidateDID_nul_free: "ValidateDID did = Inr () \<Longrightarrow> nul_free did"
proof -
  assume "ValidateDID did = Inr ()"
  then have "prefix DIDMethodPrefix did" "list_all did_char (drop (length DIDMethodPrefix) did)"
    by (auto simp: ValidateDID_def Let_def split: if_splits)
  moreover have "\<not> did_char (CHR 0x00)" by code_simp
  ultimately show ?thesis by (auto simp: prefix_def DIDMethodPrefix_def list_all_iff)
qed

definition new_doc :: "ctx \<Rightarrow> MsgRegisterIdentity \<Rightarrow> DIDDocument" where
  "new_doc c m = \<lparr>d_Did = ri_Did m, d_Controller = ri_Creator m, d_PubKey = ri_PubKey m,
    d_UniquenessHash = ri_UniquenessHash m, d_CreatedAt = block_time c, d_Status = DID_STATUS_ACTIVE, d_KeyType = ri_KeyType m\<rparr>"

lemma RegisterIdentity_shape:
  assumes "RegisterIdentity D c s m = Inr s'"
  obtains n k where "n = SetIdentityCount (markIssuerNonce (setUniqueness (SetIdentity c s (new_doc c m))
      (ri_UniquenessHash m) (ri_Did m)) (ri_IssuerDid m) (ri_Nonce m)) k"
    "GetIdentity s (ri_Did m) = None" "\<not> HasUniqueness s (ri_UniquenessHash m)" "verifyRegistration D c s m = Inr ()"
    "s' = n \<or> (\<exists>p. id_SetParams n p = Inr s')"
proof -
  define k where "k = GetIdentityCount (markIssuerNonce (setUniqueness (SetIdentity c s (new_doc c m))
      (ri_UniquenessHash m) (ri_Did m)) (ri_IssuerDid m) (ri_Nonce m)) + 1"
  define n where "n = SetIdentityCount (markIssuerNonce (setUniqueness (SetIdentity c s (new_doc c m))
      (ri_UniquenessHash m) (ri_Did m)) (ri_IssuerDid m) (ri_Nonce m)) k"
  have "GetIdentity s (ri_Did m) = None" "\<not> HasUniqueness s (ri_UniquenessHash m)" "verifyRegistration D c s m = Inr ()"
    using assms by (auto simp: RegisterIdentity_def HasIdentity_def kv_has_def GetIdentity_def ok_simps split: if_splits)
  moreover from assms have "s' = n \<or> (\<exists>p. id_SetParams n p = Inr s')"
    unfolding RegisterIdentity_def Let_def new_doc_def [symmetric] k_def [symmetric] n_def [symmetric]
    by (auto simp: ok_simps split: if_splits)
  ultimately show thesis using that [OF n_def] by blast
qed

lemma new_doc_ok:
  assumes "text_addresses (I_env D)" "in_i64 (block_time c)" "MsgRegisterIdentity_ValidateBasic (I_env D) m = Inr ()"
  shows "doc_ok (new_doc c m)"
proof -
  from assms(3) have "AccAddressFromBech32 (I_env D) (ri_Creator m) \<noteq> None" "ValidateDID (ri_Did m) = Inr ()"
    by (auto simp: MsgRegisterIdentity_ValidateBasic_def ok_simps id_check_address_def split: option.splits)
  then show ?thesis using assms(1,2) ValidateDID_nul_free by (auto simp: doc_ok_def text_addresses_def new_doc_def)
qed

lemma RegisterIdentity_ok:
  assumes "text_addresses (I_env D)" "id_ok D (b, s)" "in_i64 (block_time c)"
    "MsgRegisterIdentity_ValidateBasic (I_env D) m = Inr ()" "RegisterIdentity D c s m = Inr s'"
  shows "id_ok D (b, s')"
proof -
  let ?doc = "new_doc c m" let ?t = "SetIdentity c s ?doc"
  let ?u = "setUniqueness ?t (ri_UniquenessHash m) (ri_Did m)"
  note i = id_okD [OF assms(2)]
  have e: "elig_inv s" "uniq_ok s" "docs_ok s" using i(1) by (simp_all add: id_inv_def elig_inv_def)
  have d: "doc_ok ?doc" by (rule new_doc_ok [OF assms(1,3,4)])
  obtain n k where r: "n = SetIdentityCount (markIssuerNonce ?u (ri_IssuerDid m) (ri_Nonce m)) k"
    "GetIdentity s (ri_Did m) = None" "\<not> HasUniqueness s (ri_UniquenessHash m)" "s' = n \<or> (\<exists>p. id_SetParams n p = Inr s')"
    using RegisterIdentity_shape [OF assms(5)] by metis
  note f = SetIdentity_frame [OF e(1) d assms(3)]
  have fields: "d_Did ?doc = ri_Did m" "d_UniquenessHash ?doc = ri_UniquenessHash m" by (simp_all add: new_doc_def)
  have "all_docs ?u = all_docs ?t" by (simp add: all_docs_def setUniqueness_def)
  with SetIdentity_docs(1) [OF e(1) d assms(3)] have docs: "all_docs ?u = insert ?doc {e \<in> all_docs s. d_Did e \<noteq> d_Did ?doc}" by simp
  have "uniq_ok ?u"
    by (rule uniq_new [where d = ?doc, OF e(2) _ _ e(3) docs]) (use r(2,3) f(1) fields in \<open>simp_all add: setUniqueness_def\<close>)
  moreover have "elig_inv ?u"
    using SetIdentity_spec(1) [OF e(1) d assms(3)] docs_frame [of ?u ?t] index_frame [of ?u ?t] mirror_frame [of ?u ?t]
      record_frame [of ?u ?t] by (simp add: elig_inv_def setUniqueness_def)
  ultimately have inv: "id_inv ?u" by (simp add: id_inv_elig)
  have "recov_inv D (b, ?t)" by (rule recov_inv_frame [OF f(4,5,8,7,6) i(2)])
  then have rec: "recov_inv D (b, ?u)" by (rule recov_inv_frame [rotated 5]) (simp_all add: setUniqueness_def)
  have sid: "side_ok ?u" by (rule side_frame [OF _ _ _ i(3)]) (use f(2,9,10) in \<open>simp_all add: setUniqueness_def\<close>)
  have ok: "id_ok D (b, n)"
  proof (rule id_okI)
    show "id_inv n" by (rule id_inv_frame [OF _ _ _ _ _ _ inv]) (simp_all add: r(1) markIssuerNonce_def SetIdentityCount_def)
    show "recov_inv D (b, n)" by (rule recov_inv_frame [OF _ _ _ _ _ rec]) (simp_all add: r(1) markIssuerNonce_def SetIdentityCount_def)
    show "side_ok n" by (rule side_frame [OF _ _ _ sid]) (simp_all add: r(1) markIssuerNonce_def SetIdentityCount_def)
  qed
  with r(4) id_SetParams_ok [OF ok] show ?thesis by blast
qed

section \<open>Guardians, status and revocation\<close>

lemma other_stores_ok:
  assumes "id_ok D (b, s)" "ids_docs s' = ids_docs s" "ids_uniq s' = ids_uniq s" "ids_ctrl s' = ids_ctrl s"
    "ids_elig s' = ids_elig s" "ids_byage s' = ids_byage s" "ids_total s' = ids_total s" "ids_params s' = ids_params s"
    "ids_did2val s' = ids_did2val s" "ids_val2did s' = ids_val2did s" "recov_inv D (b', s')"
  shows "id_ok D (b', s')"
  using id_inv_frame [OF assms(2-7) id_okD(1) [OF assms(1)]] side_frame [OF assms(8-10) id_okD(3) [OF assms(1)]] assms(11)
  by (simp add: id_ok_def)

lemma issuer_ok:
  assumes "id_ok D (b, s)"
  shows "id_ok D (b, SetTrustedIssuer s ti)"
  by (rule other_stores_ok [OF assms], simp_all add: SetTrustedIssuer_def)
    (rule recov_inv_frame [OF _ _ _ _ _ id_okD(2) [OF assms]], simp_all)

text \<open>Bumping the epoch retires every tally of the DID, so the guardian set may change with it.\<close>

lemma GuardianEpoch_bump:
  "GuardianEpoch (bumpGuardianEpoch s did) d = (if d = did \<and> GuardianEpoch s did \<noteq> - 1 then GuardianEpoch s did + 1 else GuardianEpoch s d)"
  by (auto simp: GuardianEpoch_def bumpGuardianEpoch_def Let_def decodeEpoch_def encodeEpoch_def simp del: kv_set.simps)

lemma epoch_less: "(e :: 64 word) \<noteq> - 1 \<Longrightarrow> e < e + 1"
  by (metis add.commute eq_neg_iff_add_eq_0 lessI unatSuc word_less_nat_alt)

lemma replace_guardians:
  assumes "recov_inv D (b, s)" "ids_recov s' = ids_recov s" "ids_bydid s' = ids_bydid s" "ids_tepoch s' = ids_tepoch s"
    and ep: "\<And>d. GuardianEpoch s' d = (if d = did \<and> GuardianEpoch s did \<noteq> - 1 then GuardianEpoch s did + 1 else GuardianEpoch s d)"
    and gs: "\<And>d. d \<noteq> did \<Longrightarrow> GetGuardians s' d = GetGuardians s d"
  shows "recov_inv D (b, s')"
proof -
  let ?C = "I_crypto D"
  have get: "GetRecoveryRequest s' = GetRecoveryRequest s" "recoveryTallyEpoch s' = recoveryTallyEpoch s"
    using assms(2,4) by (simp_all add: GetRecoveryRequest_def recoveryTallyEpoch_def fun_eq_iff)
  have tally: "tally_ok ?C s' r" if "tally_ok ?C s r" for r
  proof (cases "rr_Did r = did")
    case False
    then have "guardian_of ?C s' (rr_Did r) = guardian_of ?C s (rr_Did r)" by (simp add: guardian_of_def gs fun_eq_iff)
    with that False show ?thesis by (simp add: tally_ok_def tallyIsCurrent_def get ep)
  next
    case True
    have t: "recoveryTallyEpoch s (rr_RecoveryId r) \<le> GuardianEpoch s did" "distinct (rr_Approvals r)" "distinct (rr_Rejections r)"
      using that True by (simp_all add: tally_ok_def)
    show ?thesis
    proof (cases "GuardianEpoch s did = - 1")
      case True': True
      with t True show ?thesis by (simp add: tally_ok_def tallyIsCurrent_def get ep)
    next
      case False
      then have "recoveryTallyEpoch s (rr_RecoveryId r) < GuardianEpoch s did + 1"
        using t(1) epoch_less [OF False] by simp
      then have "recoveryTallyEpoch s (rr_RecoveryId r) \<le> GuardianEpoch s did + 1"
        "recoveryTallyEpoch s (rr_RecoveryId r) \<noteq> GuardianEpoch s did + 1" by auto
      with t True False show ?thesis by (simp add: tally_ok_def tallyIsCurrent_def get ep)
    qed
  qed
  have "quorum_ok ?C s'" using assms(1) tally by (simp add: recov_inv_def quorum_ok_def get)
  with assms(1-3) show ?thesis
    by (simp add: recov_inv_def recov_ok_def requests_def escrowed_def deposit_total_def)
qed

lemma SetGuardians_ok:
  assumes "id_ok D (b, s)" "SetGuardians c s m = Inr s'"
  shows "id_ok D (b, s')"
proof -
  define g where "g = \<lparr>gs_Did = sg_Did m, gs_Commitments = sg_Commitments m, gs_Threshold = sg_Threshold m,
    gs_UpdatedAt = block_time c\<rparr>"
  from assms(2) have g: "gs_Did g = sg_Did m" "s' = bumpGuardianEpoch (SetGuardianSet s g) (sg_Did m)"
    unfolding SetGuardians_def g_def [symmetric] by (auto simp: ok_simps g_def split: option.splits if_splits)
  have fr: "ids_docs s' = ids_docs s" "ids_uniq s' = ids_uniq s" "ids_ctrl s' = ids_ctrl s"
    "ids_elig s' = ids_elig s" "ids_byage s' = ids_byage s" "ids_total s' = ids_total s" "ids_params s' = ids_params s"
    "ids_did2val s' = ids_did2val s" "ids_val2did s' = ids_val2did s" "ids_recov s' = ids_recov s"
    "ids_bydid s' = ids_bydid s" "ids_tepoch s' = ids_tepoch s" "ids_guardians s' = ids_guardians (SetGuardianSet s g)"
    by (simp_all add: g(2) bumpGuardianEpoch_def SetGuardianSet_def Let_def)
  have e: "GuardianEpoch (SetGuardianSet s g) = GuardianEpoch s" by (simp add: GuardianEpoch_def SetGuardianSet_def fun_eq_iff)
  have "recov_inv D (b, s')"
  proof (rule replace_guardians [where did = "sg_Did m", OF id_okD(2) [OF assms(1)] fr(10-12)])
    show "GuardianEpoch s' d = (if d = sg_Did m \<and> GuardianEpoch s (sg_Did m) \<noteq> - 1 then GuardianEpoch s (sg_Did m) + 1
      else GuardianEpoch s d)" for d using GuardianEpoch_bump [of "SetGuardianSet s g"] by (simp add: g(2) e)
    show "d \<noteq> sg_Did m \<Longrightarrow> GetGuardians s' d = GetGuardians s d" for d
      by (simp add: GetGuardians_def fr(13) SetGuardianSet_def g(1) del: kv_set.simps)
  qed
  then show ?thesis by (rule other_stores_ok [OF assms(1) fr(1-9)])
qed

lemma if_chain: "(\<lambda>s r. if P r then s else if Q r then s else f s r) = (\<lambda>s r. if P r \<or> Q r then s else f s r)"
  by (intro ext) simp

lemma UpdateStatus_ok:
  assumes "id_ok D (b, s)" "in_i64 (block_time c)" "UpdateStatus D c s m = Inr s'"
  shows "id_ok D (b, s')"
proof -
  from assms(3) obtain doc where doc: "GetIdentity s (us_Did m) = Some doc"
    "us_NewStatus m \<in> {DID_STATUS_ACTIVE, DID_STATUS_SUSPENDED}"
    "s' \<in> {SetIdentity c s (doc\<lparr>d_Status := us_NewStatus m\<rparr>),
       freezeLiveRecoveries c (SetIdentity c s (doc\<lparr>d_Status := us_NewStatus m\<rparr>)) (us_Did m),
       thawRecoveries c (SetIdentity c s (doc\<lparr>d_Status := us_NewStatus m\<rparr>)) (us_Did m)}"
    unfolding UpdateStatus_def Let_def by (auto split: option.splits if_splits)
  let ?s1 = "SetIdentity c s (doc\<lparr>d_Status := us_NewStatus m\<rparr>)"
  note d = id_ok_doc [OF assms(1) doc(1)]
  have ok: "id_ok D (b, ?s1)"
    by (rule SetIdentity_ok [OF assms(1)]) (use doc(1,2) d assms(2) in \<open>auto simp: doc_ok_def\<close>)
  have nf: "nul_free (us_Did m)" using d by (auto simp: doc_ok_def)
  note walk = rewrite_walk(1,2) [OF id_okD(2) [OF ok] nf]
  have "id_ok D (b, freezeLiveRecoveries c ?s1 (us_Did m))"
    unfolding freezeLiveRecoveries_def if_chain
    by (rule id_ok_core [OF ok]; rule walk) simp_all
  moreover have "id_ok D (b, thawRecoveries c ?s1 (us_Did m))"
    unfolding thawRecoveries_def
    by (rule id_ok_core [OF ok]; rule walk) (simp_all add: thawed_def)
  ultimately show ?thesis using doc(3) ok by auto
qed

lemma RevokeIdentity_ok:
  assumes "id_ok D w" "in_i64 (block_time c)" "RevokeIdentity D c w m = Inr w'"
  shows "id_ok D w'" "nul_free (rv_Did m)" "\<forall>r \<in> requests (snd w'). rr_Did r \<noteq> rv_Did m"
proof -
  obtain b s where w: "w = (b, s)" by force
  from assms(3) obtain doc where doc: "GetIdentity s (rv_Did m) = Some doc"
    unfolding RevokeIdentity_def w by (auto split: option.splits)
  let ?s0 = "SetIdentity c s (doc\<lparr>d_Status := DID_STATUS_REVOKED\<rparr>)"
  from assms(3) doc obtain b' s1 s2 s3 where r: "terminateRecoveryRequestsForDID (I_env D) (b, ?s0) (rv_Did m) = Inr (b', s1)"
    "s2 = DeleteGuardianSet s1 (rv_Did m)"
    "s3 = (case ValidatorForDID s2 (rv_Did m) of None \<Rightarrow> s2 | Some valoper \<Rightarrow> UnbindValidator s2 valoper)"
    "w' = (b', bumpGuardianEpoch s3 (rv_Did m))"
    unfolding RevokeIdentity_def w Let_def by (auto simp: ok_simps split: if_splits)
  note d = id_ok_doc [OF assms(1) [unfolded w] doc(1)]
  have ok: "id_ok D (b, ?s0)"
    by (rule SetIdentity_ok [OF assms(1) [unfolded w]]) (use doc d assms(2) in \<open>auto simp: doc_ok_def\<close>)
  show nf: "nul_free (rv_Did m)" using d by (auto simp: doc_ok_def)
  note st = stored_requests [OF id_okD(2) [OF ok] nf]
  note cl = close_requests_inv [OF id_okD(2) [OF ok] _ st(2) r(1) [unfolded terminateRecoveryRequestsForDID_def snd_conv], unfolded snd_conv, OF st(1)]
  have ok1: "id_ok D (b', s1)" by (rule id_ok_core [OF ok cl(2,1)])
  let ?s4 = "bumpGuardianEpoch s3 (rv_Did m)"
  have fr: "ids_docs ?s4 = ids_docs s1" "ids_uniq ?s4 = ids_uniq s1" "ids_ctrl ?s4 = ids_ctrl s1"
    "ids_elig ?s4 = ids_elig s1" "ids_byage ?s4 = ids_byage s1" "ids_total ?s4 = ids_total s1" "ids_params ?s4 = ids_params s1"
    "ids_recov ?s4 = ids_recov s1" "ids_bydid ?s4 = ids_bydid s1" "ids_tepoch ?s4 = ids_tepoch s1"
    by (simp_all add: r(2,3) bumpGuardianEpoch_def DeleteGuardianSet_def UnbindValidator_def Let_def split: option.split)
  have g3: "ids_guardians s3 = ids_guardians s2" "ids_gepoch s3 = ids_gepoch s1"
    by (simp_all add: r(2,3) DeleteGuardianSet_def UnbindValidator_def Let_def split: option.split)
  have rec: "recov_inv D (b', ?s4)"
  proof (rule replace_guardians [where did = "rv_Did m", OF cl(1) fr(8-10)])
    have "GuardianEpoch s3 = GuardianEpoch s1" by (simp add: GuardianEpoch_def g3(2) fun_eq_iff)
    then show "GuardianEpoch ?s4 d = (if d = rv_Did m \<and> GuardianEpoch s1 (rv_Did m) \<noteq> - 1 then GuardianEpoch s1 (rv_Did m) + 1
      else GuardianEpoch s1 d)" for d using GuardianEpoch_bump [of s3] by simp
    have "ids_guardians ?s4 = ids_guardians s3" by (simp add: bumpGuardianEpoch_def Let_def)
    then show "d \<noteq> rv_Did m \<Longrightarrow> GetGuardians ?s4 d = GetGuardians s1 d" for d
      by (simp add: GetGuardians_def g3(1) r(2) DeleteGuardianSet_def)
  qed
  have b2: "bind_ok s2" using id_okD(3) [OF ok1]
    by (simp add: side_ok_def bind_ok_def r(2) DeleteGuardianSet_def ValidatorForDID_def DIDForValidator_def)
  then have "bind_ok s3" using bind_ok_Unbind by (simp add: r(3) split: option.split)
  then have "side_ok ?s4" using id_okD(3) [OF ok1] fr(7)
    by (simp add: side_ok_def bind_ok_def id_GetParams_def bumpGuardianEpoch_def Let_def ValidatorForDID_def DIDForValidator_def)
  then show "id_ok D w'" unfolding r(4) using id_inv_frame [OF fr(1-6) id_okD(1) [OF ok1]] rec by (simp add: id_ok_def)
  have "\<forall>r \<in> requests s1. rr_Did r \<noteq> rv_Did m"
  proof (intro ballI notI)
    fix q assume q: "q \<in> requests s1" "rr_Did q = rv_Did m"
    have ro: "recov_ok (I_env D) s1" "recov_ok (I_env D) ?s0"
      using cl(1) id_okD(2) [OF ok] by (simp_all add: recov_inv_def)
    have some: "GetRecoveryRequest s1 (rr_RecoveryId q) = Some q" using requests_get [OF ro(1)] q(1) by simp
    let ?rs = "RecoveryRequestsForDID ?s0 (rv_Did m)"
    have "rr_RecoveryId q \<notin> rr_RecoveryId ` set ?rs" using cl(3) some by force
    moreover from this have "GetRecoveryRequest ?s0 (rr_RecoveryId q) = Some q" using cl(4) some by simp
    then have "q \<in> set ?rs" using requests_for_did(1) [OF ro(2) nf] requests_get [OF ro(2)] q(2) by simp
    ultimately show False by blast
  qed
  then show "\<forall>r \<in> requests (snd w'). rr_Did r \<noteq> rv_Did m" by (simp add: r(4) requests_def fr(8))
qed

section \<open>Recovery messages\<close>

lemma live_request_ok:
  assumes "recov_inv D w" "live_request (I_env D) c w i = Inr (req, w')"
  shows "w' = w" "GetRecoveryRequest (snd w) i = Some req" "rr_RecoveryId req = i"
    "block_time c \<le> rr_ExpiresAt req \<or> rr_FrozenAt req \<noteq> 0 \<and> recoveryFrozenBySuspension (snd w) (rr_Did req)"
proof -
  obtain b s where w: "w = (b, s)" by force
  from assms(2) obtain r0 where r0: "GetRecoveryRequest s i = Some r0"
    "reapIfExpired (I_env D) c w r0 = Inr (False, req, w')"
    unfolding live_request_def by (auto simp: w ok_simps split: option.splits if_splits prod.splits)
  have id: "rr_RecoveryId r0 = i" by (rule stored_req_ok(1) [OF assms(1) [unfolded w] r0(1)])
  have same: "req = r0 \<and> w' = w" using reap_step(4) [OF assms(1) _ r0(2)] r0(1) id by (simp add: w)
  with r0 id show "w' = w" "GetRecoveryRequest (snd w) i = Some req" "rr_RecoveryId req = i" by (simp_all add: w)
  from r0(2) same show "block_time c \<le> rr_ExpiresAt req \<or> rr_FrozenAt req \<noteq> 0 \<and> recoveryFrozenBySuspension (snd w) (rr_Did req)"
    unfolding reapIfExpired_def by (auto simp: w ok_simps split: if_splits)
qed

lemma kv_delete_set [simp]: "kv_delete (kv_set m k v) k = kv_delete m k"
  by (induction m) (auto simp: kv_delete_def)

lemma delete_after_sync [simp]: "deleteRecoveryRequest (setRecoveryTallyEpoch s (rr_RecoveryId r) e) r = deleteRecoveryRequest s r"
  by (simp add: deleteRecoveryRequest_def deleteRecoveryTallyEpoch_def setRecoveryTallyEpoch_def del: kv_set.simps)

lemma sync_write_inv:
  assumes "recov_inv D (b, s)" "GetRecoveryRequest s (rr_RecoveryId r) = Some old"
    and "rr_Did r = rr_Did old" "rr_Status r = rr_Status old" "rr_DepositUphi r = rr_DepositUphi old"
      "rr_ProposedNewController r = rr_ProposedNewController old"
    and s1: "s1 = s \<or> s1 = setRecoveryTallyEpoch s (rr_RecoveryId r) e" and "tally_ok (I_crypto D) s1 r"
  shows "recov_inv D (b, SetRecoveryRequest s1 r)"
  using s1
proof
  assume "s1 = s"
  then show ?thesis using rewrite_inv [OF assms(1-6)] assms(8) by simp
next
  assume e: "s1 = setRecoveryTallyEpoch s (rr_RecoveryId r) e"
  have fr: "ids_recov s1 = ids_recov s" "ids_bydid s1 = ids_bydid s" "ids_gepoch s1 = ids_gepoch s" "ids_guardians s1 = ids_guardians s"
    by (simp_all add: e setRecoveryTallyEpoch_def)
  have ok: "recov_ok (I_env D) s1" "quorum_ok (I_crypto D) s" "recov_ok (I_env D) s"
    using assms(1) fr(1,2) by (simp_all add: recov_inv_def recov_ok_def requests_def)
  have get: "GetRecoveryRequest s1 = GetRecoveryRequest s" by (simp add: GetRecoveryRequest_def fr(1) fun_eq_iff)
  have "req_ok (I_env D) r"
    using GetRecoveryRequest_id(3) [OF ok(3) assms(2)] assms(3-6) by (simp add: req_ok_def deposit_def)
  note w = SetRecoveryRequest_ok [OF ok(1) this]
  have ro: "recov_ok (I_env D) (SetRecoveryRequest s1 r)" "deposit_total (SetRecoveryRequest s1 r) = deposit_total s"
    using w(1,2) assms(2,3,5) by (simp_all add: get deposit_def deposit_total_def fr(1))
  have "tally_ok (I_crypto D) (SetRecoveryRequest s1 r) q = tally_ok (I_crypto D) s1 q" for q
    by (rule tally_frame) simp_all
  moreover have "tally_ok (I_crypto D) s1 q = tally_ok (I_crypto D) s q" if "rr_RecoveryId q \<noteq> rr_RecoveryId r" for q
    by (rule tally_frame [OF fr(3,4)]) (use that in \<open>simp add: e\<close>)
  moreover have "rr_RecoveryId q = i" if "GetRecoveryRequest s i = Some q" for i q
    by (rule GetRecoveryRequest_id(1) [OF ok(3) that])
  moreover have "recoveryTallyEpoch s1 i = recoveryTallyEpoch s i" if "i \<noteq> rr_RecoveryId r" for i
    using that by (simp add: e)
  ultimately have "quorum_ok (I_crypto D) (SetRecoveryRequest s1 r)"
    using ok(2) assms(8) unfolding quorum_ok_def by (simp add: GetRecoveryRequest_Set get)
  with ro assms(1) show ?thesis by (simp add: recov_inv_def escrowed_def)
qed

lemma sync_tally:
  assumes "syncTallyEpoch s r = (r1, s1)" "tally_ok C s r"
  shows "tally_ok C s1 r1" "tallyIsCurrent s1 r1" "core s1 = core s"
    "s1 = s \<or> s1 = setRecoveryTallyEpoch s (rr_RecoveryId r) (GuardianEpoch s (rr_Did r))"
    "\<exists>A R. r1 = r\<lparr>rr_Approvals := A, rr_Rejections := R\<rparr>"
proof -
  have e: "GuardianEpoch (setRecoveryTallyEpoch s i e) d = GuardianEpoch s d" for i e d
    by (simp add: GuardianEpoch_def setRecoveryTallyEpoch_def)
  from assms(1) consider "r1 = r" "s1 = s" "tallyIsCurrent s r"
    | "r1 = r\<lparr>rr_Approvals := [], rr_Rejections := []\<rparr>"
      "s1 = setRecoveryTallyEpoch s (rr_RecoveryId r) (GuardianEpoch s (rr_Did r))"
    by (auto simp: syncTallyEpoch_def Let_def tallyIsCurrent_def split: if_splits)
  then have "tally_ok C s1 r1 \<and> tallyIsCurrent s1 r1 \<and> core s1 = core s
    \<and> (s1 = s \<or> s1 = setRecoveryTallyEpoch s (rr_RecoveryId r) (GuardianEpoch s (rr_Did r)))
    \<and> (\<exists>A R. r1 = r\<lparr>rr_Approvals := A, rr_Rejections := R\<rparr>)"
  proof cases
    case 1
    have "r = r\<lparr>rr_Approvals := rr_Approvals r, rr_Rejections := rr_Rejections r\<rparr>" by simp
    with 1 assms(2) show ?thesis by blast
  next
    case 2
    then show ?thesis by (auto simp: tally_ok_def tallyIsCurrent_def e)
  qed
  then show "tally_ok C s1 r1" "tallyIsCurrent s1 r1" "core s1 = core s"
    "s1 = s \<or> s1 = setRecoveryTallyEpoch s (rr_RecoveryId r) (GuardianEpoch s (rr_Did r))"
    "\<exists>A R. r1 = r\<lparr>rr_Approvals := A, rr_Rejections := R\<rparr>" by blast+
qed

lemma openGuardianCommitment_guardian:
  "openGuardianCommitment D s did g salt signer = Inr () \<Longrightarrow> guardian_of (I_crypto D) s did g"
  unfolding openGuardianCommitment_def guardian_of_def is_guardian_def by (auto split: option.splits if_splits)

lemma guardian_of_core: "core s' = core s \<Longrightarrow> guardian_of C s' d = guardian_of C s d"
  using core_fields(9) [of s' s] by (simp add: guardian_of_def GetGuardians_def fun_eq_iff)

lemma tally_add:
  assumes "tally_ok C s r" "guardian_of C s (rr_Did r) g"
  shows "g \<notin> set (rr_Approvals r) \<Longrightarrow> tally_ok C s (r\<lparr>rr_Approvals := rr_Approvals r @ [g]\<rparr>)"
    "g \<notin> set (rr_Rejections r) \<Longrightarrow> tally_ok C s (r\<lparr>rr_Rejections := rr_Rejections r @ [g]\<rparr>)"
  using assms by (auto simp: tally_ok_def tallyIsCurrent_def)

lemma ApproveRecovery_ok:
  assumes "id_ok D w" "ApproveRecovery D c w m = Inr w'"
  shows "id_ok D w'"
proof -
  obtain b s where w: "w = (b, s)" by force
  from assms(2) obtain req wa where live: "live_request (I_env D) c w (gv_RecoveryId m) = Inr (req, wa)"
    by (auto simp: ApproveRecovery_def ok_simps)
  obtain req1 s1 where sync: "syncTallyEpoch (snd wa) req = (req1, s1)" by force
  from assms(2) live sync have a: "live_request (I_env D) c w (gv_RecoveryId m) = Inr (req, wa)"
    "openGuardianCommitment D (snd wa) (rr_Did req) (gv_GuardianDid m) (gv_Salt m) (gv_Creator m) = Inr ()"
    "syncTallyEpoch (snd wa) req = (req1, s1)" "gv_GuardianDid m \<notin> set (rr_Approvals req1)"
    "w' = (fst wa, SetRecoveryRequest s1 (req1\<lparr>rr_Approvals := rr_Approvals req1 @ [gv_GuardianDid m]\<rparr>))"
    by (cases wa; auto simp: ApproveRecovery_def ok_simps split: if_splits)+
  have ri: "recov_inv D (b, s)" using assms(1) by (simp add: w id_ok_def)
  note l = live_request_ok [OF ri [folded w] a(1)]
  have wa: "wa = (b, s)" using l(1) w by simp
  have tally: "tally_ok (I_crypto D) s req" using stored_tally [OF ri] l(2) by (simp add: w)
  note sy = sync_tally [OF a(3) [unfolded wa snd_conv] tally]
  obtain A R where r1: "req1 = req\<lparr>rr_Approvals := A, rr_Rejections := R\<rparr>" using sy(5) by blast
  have g: "guardian_of (I_crypto D) s1 (rr_Did req1) (gv_GuardianDid m)"
    using openGuardianCommitment_guardian [OF a(2)] guardian_of_core [OF sy(3)] by (simp add: wa r1)
  have "recov_inv D (b, SetRecoveryRequest s1 (req1\<lparr>rr_Approvals := rr_Approvals req1 @ [gv_GuardianDid m]\<rparr>))"
    by (rule sync_write_inv [OF ri, where old = req and e = "GuardianEpoch s (rr_Did req)"])
      (use l(2,3) sy(4) tally_add(1) [OF sy(1) g a(4)] in \<open>simp_all add: r1 w\<close>)
  then show ?thesis unfolding a(5) wa fst_conv
    by (rule id_ok_core [OF assms(1) [unfolded w], rotated]) (simp add: sy(3))
qed

lemma RejectRecovery_ok:
  assumes "id_ok D w" "RejectRecovery D c w m = Inr w'"
  shows "id_ok D w'"
proof -
  obtain b s where w: "w = (b, s)" by force
  define upd :: "RecoveryRequest \<Rightarrow> RecoveryRequest" where "upd = (\<lambda>r. r\<lparr>rr_Rejections := rr_Rejections r @ [gv_GuardianDid m]\<rparr>)"
  from assms(2) obtain req wa where live: "live_request (I_env D) c w (gv_RecoveryId m) = Inr (req, wa)"
    by (auto simp: RejectRecovery_def ok_simps)
  obtain req1 s1 where sync: "syncTallyEpoch (snd wa) req = (req1, s1)" by force
  from assms(2) live sync have a: "live_request (I_env D) c w (gv_RecoveryId m) = Inr (req, wa)"
    "openGuardianCommitment D (snd wa) (rr_Did req) (gv_GuardianDid m) (gv_Salt m) (gv_Creator m) = Inr ()"
    "syncTallyEpoch (snd wa) req = (req1, s1)" "gv_GuardianDid m \<notin> set (rr_Rejections req1)"
    "w' = (fst wa, SetRecoveryRequest s1 (upd req1))
      \<or> (\<exists>b'. forfeitDeposit (I_env D) (fst wa) (upd req1) = Inr b' \<and> w' = (b', deleteRecoveryRequest s1 (upd req1)))"
    by (cases wa; auto simp: RejectRecovery_def Let_def upd_def ok_simps split: if_splits option.splits)+
  have ri: "recov_inv D (b, s)" using assms(1) by (simp add: w id_ok_def)
  note l = live_request_ok [OF ri [folded w] a(1)]
  have wa: "wa = (b, s)" using l(1) w by simp
  have tally: "tally_ok (I_crypto D) s req" using stored_tally [OF ri] l(2) by (simp add: w)
  note sy = sync_tally [OF a(3) [unfolded wa snd_conv] tally]
  obtain A R where r1: "req1 = req\<lparr>rr_Approvals := A, rr_Rejections := R\<rparr>" using sy(5) by blast
  have g: "guardian_of (I_crypto D) s1 (rr_Did req1) (gv_GuardianDid m)"
    using openGuardianCommitment_guardian [OF a(2)] guardian_of_core [OF sy(3)] by (simp add: wa r1)
  have set: "recov_inv D (b, SetRecoveryRequest s1 (upd req1))"
    by (rule sync_write_inv [OF ri, where old = req and e = "GuardianEpoch s (rr_Did req)"])
      (use l(2,3) sy(4) tally_add(2) [OF sy(1) g a(4)] in \<open>simp_all add: r1 w upd_def\<close>)
  have del: "deleteRecoveryRequest s1 (upd req1) = deleteRecoveryRequest s (upd req1)"
    using sy(4) delete_after_sync [of s "upd req1"] by (auto simp: upd_def r1)
  have settle: "recov_inv D (b', deleteRecoveryRequest s1 (upd req1))" if "forfeitDeposit (I_env D) b (upd req1) = Inr b'" for b'
  proof -
    have dep: "deposit (upd req1) = deposit req" by (simp add: deposit_def upd_def r1)
    have "0 \<le> deposit req" using stored_req_ok(2) [OF ri] l(2) by (simp add: w req_ok_def)
    with forfeit_balance [OF that] dep show ?thesis unfolding del
      by (intro settle_inv [OF ri, where old = req]) (use l(2,3) in \<open>simp_all add: w upd_def r1\<close>)
  qed
  show ?thesis
    using a(5) id_ok_core [OF assms(1) [unfolded w] _ set] id_ok_core [OF assms(1) [unfolded w] _ settle]
    by (auto simp: wa sy(3))
qed

lemma CancelRecovery_ok:
  assumes "id_ok D w" "CancelRecovery D c w m = Inr w'"
  shows "id_ok D w'"
proof -
  obtain b s where w: "w = (b, s)" by force
  from assms(2) obtain req wa where live: "live_request (I_env D) c w (cr_RecoveryId m) = Inr (req, wa)"
    by (auto simp: CancelRecovery_def ok_simps)
  have ri: "recov_inv D (b, s)" using assms(1) by (simp add: w id_ok_def)
  note l = live_request_ok [OF ri [folded w] live]
  from assms(2) live obtain b' where "forfeitDeposit (I_env D) b req = Inr b'" "w' = (b', deleteRecoveryRequest s req)"
    unfolding CancelRecovery_def l(1) by (auto simp: w ok_simps split: option.splits if_splits)
  with forfeit_step(1) [OF ri _ this(1)] l(2,3) show ?thesis
    using id_ok_core [OF assms(1) [unfolded w]] by (simp add: w)
qed

lemma ExecuteRecovery_shape:
  assumes "recov_inv D w" "ExecuteRecovery D c w m = Inr w'"
  obtains req doc b' where "live_request (I_env D) c w (cr_RecoveryId m) = Inr (req, w)"
    "execute_checks D c (snd w) req = Inr doc" "refundDeposit (I_env D) (fst w) req = Inr b'"
    "supersedeSiblings (I_env D) (b', deleteRecoveryRequest (SetIdentity c (snd w)
       (doc\<lparr>d_PubKey := rr_ProposedNewPubKey req, d_KeyType := rr_KeyType req,
            d_Controller := rr_ProposedNewController req\<rparr>)) req) (rr_Did req) (rr_RecoveryId req) = Inr w'"
proof -
  from assms(2) obtain req wa where live: "live_request (I_env D) c w (cr_RecoveryId m) = Inr (req, wa)"
    by (auto simp: ExecuteRecovery_def ok_simps)
  note l = live_request_ok(1) [OF assms(1) live]
  from assms(2) live that show thesis unfolding ExecuteRecovery_def l Let_def
    by (cases w) (auto simp: ok_simps)
qed

lemma execute_checks_doc:
  "execute_checks D c s req = Inr doc \<Longrightarrow> GetIdentity s (rr_Did req) = Some doc \<and> d_Status doc = DID_STATUS_ACTIVE"
  by (auto simp: execute_checks_def ok_simps split: if_splits option.splits)

lemma ExecuteRecovery_ok:
  assumes "text_addresses (I_env D)" "id_ok D w" "in_i64 (block_time c)" "ExecuteRecovery D c w m = Inr w'"
  shows "id_ok D w'"
proof -
  obtain b s where w: "w = (b, s)" by force
  have ri: "recov_inv D (b, s)" using assms(2) by (simp add: w id_ok_def)
  from ExecuteRecovery_shape [OF ri assms(4) [unfolded w], unfolded fst_conv snd_conv]
  obtain req doc b' where x: "live_request (I_env D) c (b, s) (cr_RecoveryId m) = Inr (req, (b, s))"
    "execute_checks D c s req = Inr doc" "refundDeposit (I_env D) b req = Inr b'"
    "supersedeSiblings (I_env D) (b', deleteRecoveryRequest (SetIdentity c s
       (doc\<lparr>d_PubKey := rr_ProposedNewPubKey req, d_KeyType := rr_KeyType req,
            d_Controller := rr_ProposedNewController req\<rparr>)) req) (rr_Did req) (rr_RecoveryId req) = Inr w'"
    by blast
  let ?s1 = "SetIdentity c s (doc\<lparr>d_PubKey := rr_ProposedNewPubKey req, d_KeyType := rr_KeyType req,
            d_Controller := rr_ProposedNewController req\<rparr>)"
  note l = live_request_ok [OF ri x(1), unfolded snd_conv]
  note q = stored_req_ok(2) [OF ri l(2)]
  have doc: "GetIdentity s (rr_Did req) = Some doc" using execute_checks_doc [OF x(2)] by simp
  note d = id_ok_doc [OF assms(2) [unfolded w] doc]
  have ok1: "id_ok D (b, ?s1)"
    by (rule SetIdentity_ok [OF assms(2) [unfolded w]])
      (use doc d q assms(1,3) in \<open>auto simp: doc_ok_def req_ok_def text_addresses_def\<close>)
  have e: "elig_inv s" using assms(2) by (simp add: w id_ok_def id_inv_elig)
  have dok: "doc_ok (doc\<lparr>d_PubKey := rr_ProposedNewPubKey req, d_KeyType := rr_KeyType req,
            d_Controller := rr_ProposedNewController req\<rparr>)"
    using d q assms(1) by (auto simp: doc_ok_def req_ok_def text_addresses_def)
  have get: "GetRecoveryRequest ?s1 i = GetRecoveryRequest s i" for i
    by (simp add: GetRecoveryRequest_def SetIdentity_frame(4) [OF e dok assms(3)])
  have "recov_inv D (b', deleteRecoveryRequest ?s1 req)"
    by (rule settle_inv [OF id_okD(2) [OF ok1] _ _ refund_balance [OF x(3)]])
      (use get l(2,3) q in \<open>simp_all add: req_ok_def\<close>)
  from id_ok_core [OF ok1 _ this] have ok2: "id_ok D (b', deleteRecoveryRequest ?s1 req)" by simp
  have nf: "nul_free (rr_Did req)" using q by (simp add: req_ok_def)
  note st = stored_requests [OF id_okD(2) [OF ok2] nf]
  note cl = close_requests_inv [OF id_okD(2) [OF ok2] _ st(2) x(4) [unfolded supersedeSiblings_def snd_conv], unfolded snd_conv, OF st(1)]
  obtain b2 s2 where w': "w' = (b2, s2)" by force
  show ?thesis unfolding w' by (rule id_ok_core [OF ok2]) (use cl(1,2) in \<open>simp_all add: w'\<close>)
qed

lemma RecoveryDeposit_ok:
  assumes "id_Params_Validate p = Inr ()"
  shows "0 \<le> RecoveryDeposit p" "amount_or_zero (Int_String (RecoveryDeposit p)) = RecoveryDeposit p"
proof -
  have "validate_amount (idp_RecoveryDepositUphi p) = Inr ()"
    using assms by (auto simp: id_Params_Validate_def ok_simps split: if_splits)
  then obtain n where "NewIntFromString (idp_RecoveryDepositUphi p) = Some n" "0 \<le> n"
    by (auto simp: validate_amount_def split: option.splits if_splits)
  with NewIntFromString_fits show "0 \<le> RecoveryDeposit p"
    "amount_or_zero (Int_String (RecoveryDeposit p)) = RecoveryDeposit p"
    by (simp_all add: RecoveryDeposit_def amount_or_zero_def)
qed

lemma charge_balance:
  assumes "(if reauth then chargeReauthFee E b initiator fee else escrowDeposit E b initiator dep) = Inr b'"
    "initiator \<noteq> ModuleAddress E id_ModuleName" "0 \<le> dep"
  shows "GetBalance b (ModuleAddress E id_ModuleName) + (if reauth then 0 else dep) \<le> GetBalance b' (ModuleAddress E id_ModuleName)"
  using assms unfolding chargeReauthFee_def escrowDeposit_def
  by (auto split: if_splits dest!: module_sends_are_sends(3) send_balances [where c = "ModuleAddress E id_ModuleName"])

definition initiator_ok :: "sdk_env \<Rightarrow> MsgInitiateRecovery \<Rightarrow> bool" where
  "initiator_ok E m \<longleftrightarrow> AccAddressFromBech32 E (ir_Creator m) \<noteq> Some (ModuleAddress E id_ModuleName)"

lemma InitiateRecovery_ok:
  assumes "id_ok D w" "initiator_ok (I_env D) m" "InitiateRecovery D c w m = Inr (i, w')"
  shows "id_ok D w'"
proof -
  obtain b s where w: "w = (b, s)" by force
  let ?p = "id_GetParams s" and ?re = "ir_Method m = RECOVERY_METHOD_REAUTH"
  define req where "req = \<lparr>rr_RecoveryId = DeriveRecoveryID (I_crypto D) (ir_Did m) (ir_ProposedNewPubKey m) (ir_Nonce m), rr_Did = ir_Did m,
       rr_ProposedNewPubKey = ir_ProposedNewPubKey m, rr_ProposedNewController = ir_Creator m,
       rr_KeyType = ir_KeyType m, rr_Method = ir_Method m, rr_Approvals = [],
       rr_Nonce = ir_Nonce m, rr_InitiatedAt = block_time c,
       rr_ExecuteAfter = i64 (block_time c + idp_RecoveryDelaySeconds ?p),
       rr_ExpiresAt = i64 (block_time c + idp_RecoveryRequestTtlSeconds ?p),
       rr_DepositUphi = Int_String (if ?re then 0 else RecoveryDeposit ?p), rr_Status = RECOVERY_STATUS_PENDING,
       rr_AttestorDid = ir_AttestorDid m, rr_FeeUphi = Int_String (if ?re then ReauthRecoveryFee ?p else 0),
       rr_Rejections = [], rr_FrozenAt = 0\<rparr>"
  from assms(3) obtain n b1 s1 where c1: "initiate_checks D c s m = Inr ()"
    "countOpenRequests (I_env D) c w (ir_Did m) = Inr (n, (b1, s1))"
    by (auto simp: InitiateRecovery_def Let_def w ok_simps)
  from assms(3) c1 obtain initiator b' where x: "GetRecoveryRequest s1 (rr_RecoveryId req) = None"
    "AccAddressFromBech32 (I_env D) (ir_Creator m) = Some initiator"
    "(if ?re then chargeReauthFee (I_env D) b1 initiator (if ?re then ReauthRecoveryFee ?p else 0)
      else escrowDeposit (I_env D) b1 initiator (if ?re then 0 else RecoveryDeposit ?p)) = Inr b'"
    "w' = (b', markRecoveryNonce (SetRecoveryRequest s1 req) (ir_Did m) (ir_Nonce m))"
    unfolding InitiateRecovery_def Let_def w snd_conv req_def by (auto simp: ok_simps split: option.splits if_split_asm)
  from c1(1) obtain doc where doc: "GetIdentity s (ir_Did m) = Some doc"
    by (auto simp: initiate_checks_def Let_def split: option.splits if_splits)
  have nf: "nul_free (ir_Did m)" using id_ok_doc [OF assms(1) [unfolded w] doc] by (auto simp: doc_ok_def)
  have ri: "recov_inv D w" using assms(1) by (simp add: id_ok_def)
  note co = countOpenRequests_inv [OF ri nf c1(2), unfolded snd_conv w]
  have pv: "id_Params_Validate ?p = Inr ()" using assms(1) by (simp add: w id_ok_def side_ok_def)
  note dep = RecoveryDeposit_ok [OF pv]
  have deposit: "deposit req = (if ?re then 0 else RecoveryDeposit ?p)"
    using dep by (simp add: deposit_def req_def amount_or_zero_def fits_def int_limit_def)
  have "initiator \<noteq> ModuleAddress (I_env D) id_ModuleName" using assms(2) x(2) by (simp add: initiator_ok_def)
  note ch = charge_balance [OF x(3) this]
  have "recov_inv D (b', SetRecoveryRequest s1 req)"
  proof (rule write_request_inv [OF co(1)])
    show "req_ok (I_env D) req" using nf x(2) deposit dep(1) by (simp add: req_ok_def) (simp add: req_def)
    have "recoveryTallyEpoch s1 (rr_RecoveryId req) = 0" using co(1) x(1) by (simp add: recov_inv_def quorum_ok_def)
    then show "tally_ok (I_crypto D) s1 req" by (simp add: tally_ok_def req_def)
  qed (use x(1) ch deposit dep(1) in auto)
  then have "recov_inv D w'" unfolding x(4)
    by (rule recov_inv_frame [rotated 5]) (simp_all add: markRecoveryNonce_def)
  then show ?thesis unfolding x(4) by (rule id_ok_core [OF assms(1) [unfolded w], rotated]) (simp add: co(2))
qed

section \<open>Staking hooks and the sweep\<close>

lemma bindings_ok:
  assumes "id_ok D (b, s)" "bind_ok s'" "core s' \<lparr>ids_did2val := [], ids_val2did := []\<rparr> = core s \<lparr>ids_did2val := [], ids_val2did := []\<rparr>"
    "ids_recov s' = ids_recov s" "ids_bydid s' = ids_bydid s" "ids_tepoch s' = ids_tepoch s"
  shows "id_ok D (b, s')"
proof -
  have f: "ids_params s' = ids_params s" "ids_docs s' = ids_docs s" "ids_uniq s' = ids_uniq s" "ids_ctrl s' = ids_ctrl s"
    "ids_elig s' = ids_elig s" "ids_byage s' = ids_byage s" "ids_total s' = ids_total s"
    "ids_guardians s' = ids_guardians s" "ids_gepoch s' = ids_gepoch s"
    using assms(3) by (cases s; cases s'; simp add: core_def)+
  note i = id_okD [OF assms(1)]
  show ?thesis
  proof (rule id_okI)
    show "id_inv s'" by (rule id_inv_frame [OF f(2-7) i(1)])
    show "recov_inv D (b, s')" by (rule recov_inv_frame [OF assms(4-6) f(9,8) i(2)])
    show "side_ok s'" using i(3) assms(2) f(1) by (simp add: side_ok_def id_GetParams_def)
  qed
qed

lemma Bind_ok:
  assumes "id_ok D (b, s)" "DIDForValidator s v = None" "\<forall>u. ValidatorForDID s did = Some u \<longrightarrow> u = v"
  shows "id_ok D (b, BindValidatorToDID s did v)"
proof (rule bindings_ok [OF assms(1)])
  show "bind_ok (BindValidatorToDID s did v)"
    using assms by (intro bind_ok_Bind) (simp_all add: id_ok_def side_ok_def)
qed (simp_all add: BindValidatorToDID_def core_def)

lemma Unbind_ok:
  assumes "id_ok D (b, s)"
  shows "id_ok D (b, UnbindValidator s v)"
proof (rule bindings_ok [OF assms(1)])
  show "bind_ok (UnbindValidator s v)"
    using assms by (intro bind_ok_Unbind) (simp_all add: id_ok_def side_ok_def)
qed (simp_all add: UnbindValidator_def Let_def core_def split: option.split)

lemma AfterValidatorCreated_ok:
  assumes "id_ok D (b, s)" "DIDForValidator s v = None" "AfterValidatorCreated V minSelfStake c x s v = Inr s'"
  shows "id_ok D (b, s')"
proof -
  have "s' = s \<or> (\<exists>did. (\<forall>u. ValidatorForDID s did = Some u \<longrightarrow> u = v) \<and> s' = BindValidatorToDID s did v)"
  proof (cases "block_height c = 0")
    case True
    then show ?thesis using assms(3) by (simp add: AfterValidatorCreated_def)
  next
    case False
    then obtain did where "PrimaryDID s (vo_OperatorAccount V v) = Some did"
      using assms(3) by (auto simp: AfterValidatorCreated_def split: option.splits)
    then have "\<forall>u. ValidatorForDID s did = Some u \<longrightarrow> u = v" "s' = BindValidatorToDID s did v"
      using assms(3) False by (auto simp: AfterValidatorCreated_def ok_simps split: option.splits if_splits)
    then show ?thesis by blast
  qed
  then show ?thesis using assms(1) Bind_ok [OF assms(1,2)] by blast
qed

lemma sweepOne_ok:
  assumes "id_ok D (b, s)" "sweepOne V x s v consAddr jailed = Inr (outcome, x', s')"
  shows "id_ok D (b, s')"
proof -
  show ?thesis
  proof (cases "DIDForValidator s v")
    case None
    let ?p = "fst (ControllerSweepStatus s (vo_OperatorAccount V v))"
    have "s' = s \<or> (\<forall>u. ValidatorForDID s ?p = Some u \<longrightarrow> u = v) \<and> s' = BindValidatorToDID s ?p v"
      using assms(2) None unfolding sweepOne_def Let_def by (auto simp: ok_simps split: if_splits option.splits)
    then show ?thesis using assms(1) Bind_ok [OF assms(1) None] by blast
  next
    case (Some did)
    then have "s' = s \<or> s' = UnbindValidator s v"
      using assms(2) unfolding sweepOne_def Let_def by (auto simp: ok_simps split: option.splits DIDStatus.splits)
    then show ?thesis using assms(1) Unbind_ok [OF assms(1)] by blast
  qed
qed

lemma sweepOneIsolated_ok:
  assumes "id_ok D (b, fst (snd st))"
  shows "id_ok D (b, fst (snd (sweepOneIsolated V st cand)))"
proof -
  obtain x s outs where st: "st = (x, s, outs)" by (metis prod_cases3)
  obtain v ca j where cand: "cand = (v, ca, j)" by (metis prod_cases3)
  show ?thesis
  proof (cases "sweepOne V x s v ca j")
    case (Inl e)
    then show ?thesis using assms by (simp add: sweepOneIsolated_def st cand)
  next
    case (Inr r)
    obtain out x' s' where r: "r = (out, x', s')" by (metis prod_cases3)
    with Inr sweepOne_ok [OF assms [unfolded st fst_conv snd_conv]] show ?thesis
      by (simp add: sweepOneIsolated_def st cand)
  qed
qed

lemma SweepValidatorBindings_ok:
  assumes "id_ok D (b, s)" "SweepValidatorBindings V x s = (x', s', outcomes)"
  shows "id_ok D (b, s')"
proof -
  have fold: "id_ok D (b, fst (snd st)) \<Longrightarrow> id_ok D (b, fst (snd (foldl (sweepOneIsolated V) st cs)))" for st cs
  proof (induction cs arbitrary: st)
    case (Cons c cs)
    show ?case unfolding foldl_Cons by (rule Cons.IH) (rule sweepOneIsolated_ok [OF Cons.prems])
  qed simp
  show ?thesis
  proof (cases "vo_LastValidators V x")
    case (Inl e)
    then show ?thesis using assms by (simp add: SweepValidatorBindings_def)
  next
    case (Inr vs)
    let ?cs = "List.map_filter (\<lambda>v. map_option (\<lambda>a. (vi_Operator v, a, vi_Jailed v)) (vi_ConsAddr v)) vs"
    have "foldl (sweepOneIsolated V) (x, s, []) ?cs = (x', s', outcomes)"
      using assms(2) Inr by (simp add: SweepValidatorBindings_def)
    with fold [of "(x, s, [])" ?cs] assms(1) show ?thesis by simp
  qed
qed

section \<open>Runs\<close>

text \<open>
  One step: a successful message, a staking hook, the block sweep, or any change of the ledger by
  the rest of the chain that does not touch the module account.
\<close>

inductive id_step :: "id_deps \<Rightarrow> 'x val_ops \<Rightarrow> id_world \<Rightarrow> id_world \<Rightarrow> bool" for D V where
  step_register: "in_i64 (block_time c) \<Longrightarrow> MsgRegisterIdentity_ValidateBasic (I_env D) m = Inr ()
    \<Longrightarrow> RegisterIdentity D c s m = Inr s' \<Longrightarrow> id_step D V (b, s) (b, s')"
| step_issuer: "RegisterTrustedIssuer D s authority issuer = Inr s' \<Longrightarrow> id_step D V (b, s) (b, s')"
| step_revoke_issuer: "RevokeTrustedIssuer D s authority did = Inr s' \<Longrightarrow> id_step D V (b, s) (b, s')"
| step_revoke: "in_i64 (block_time c) \<Longrightarrow> RevokeIdentity D c w mv = Inr w' \<Longrightarrow> id_step D V w w'"
| step_rotate: "in_i64 (block_time c) \<Longrightarrow> RotateIdentityKey D c s mk = Inr s' \<Longrightarrow> id_step D V (b, s) (b, s')"
| step_status: "in_i64 (block_time c) \<Longrightarrow> UpdateStatus D c s mu = Inr s' \<Longrightarrow> id_step D V (b, s) (b, s')"
| step_guardians: "SetGuardians c s mg = Inr s' \<Longrightarrow> id_step D V (b, s) (b, s')"
| step_params: "id_UpdateParams D s authority p = Inr s' \<Longrightarrow> id_step D V (b, s) (b, s')"
| step_initiate: "initiator_ok (I_env D) mi \<Longrightarrow> InitiateRecovery D c w mi = Inr (i, w') \<Longrightarrow> id_step D V w w'"
| step_approve: "ApproveRecovery D c w ma = Inr w' \<Longrightarrow> id_step D V w w'"
| step_reject: "RejectRecovery D c w ma = Inr w' \<Longrightarrow> id_step D V w w'"
| step_execute: "in_i64 (block_time c) \<Longrightarrow> ExecuteRecovery D c w mc = Inr w' \<Longrightarrow> id_step D V w w'"
| step_cancel: "CancelRecovery D c w mc = Inr w' \<Longrightarrow> id_step D V w w'"
| step_created: "DIDForValidator s v = None \<Longrightarrow> AfterValidatorCreated V minSelfStake c x s v = Inr s'
    \<Longrightarrow> id_step D V (b, s) (b, s')"
| step_removed: "id_step D V (b, s) (b, AfterValidatorRemoved s v)"
| step_sweep: "SweepValidatorBindings V x s = (x', s', outcomes) \<Longrightarrow> id_step D V (b, s) (b, s')"
| step_ledger: "GetBalance b (ModuleAddress (I_env D) id_ModuleName) \<le> GetBalance b' (ModuleAddress (I_env D) id_ModuleName)
    \<Longrightarrow> id_step D V (b, s) (b', s)"

inductive id_reachable :: "id_deps \<Rightarrow> 'x val_ops \<Rightarrow> id_world \<Rightarrow> bool" for D V where
  id_start: "0 \<le> GetBalance b (ModuleAddress (I_env D) id_ModuleName) \<Longrightarrow> id_reachable D V (b, empty_id_state)"
| id_next: "id_reachable D V w \<Longrightarrow> id_step D V w w' \<Longrightarrow> id_reachable D V w'"

lemma trusted_issuer_ok:
  assumes "id_ok D (b, s)"
  shows "RegisterTrustedIssuer D s authority issuer = Inr s' \<Longrightarrow> id_ok D (b, s')"
    "RevokeTrustedIssuer D s authority did = Inr s' \<Longrightarrow> id_ok D (b, s')"
  using issuer_ok [OF assms]
  by (auto simp: RegisterTrustedIssuer_def RevokeTrustedIssuer_def split: if_splits option.splits)

lemma id_UpdateParams_ok: "id_ok D (b, s) \<Longrightarrow> id_UpdateParams D s authority p = Inr s' \<Longrightarrow> id_ok D (b, s')"
  using id_SetParams_ok [of D b s p s'] by (simp add: id_UpdateParams_def split: if_splits)

lemma id_step_ok:
  assumes "id_step D V w w'" "text_addresses (I_env D)" "id_ok D w"
  shows "id_ok D w'"
  using assms(1)
proof cases
  case (step_register c m s s' b)
  show ?thesis using RegisterIdentity_ok [OF assms(2) _ step_register(3-5)] assms(3) step_register(1,2) by simp
next
  case (step_issuer s authority issuer s' b)
  then show ?thesis using trusted_issuer_ok(1) assms(3) by simp
next
  case (step_revoke_issuer s authority did s' b)
  then show ?thesis using trusted_issuer_ok(2) assms(3) by simp
next
  case (step_revoke c mv)
  then show ?thesis using RevokeIdentity_ok(1) [OF assms(3)] by simp
next
  case (step_rotate c s mk s' b)
  then show ?thesis using RotateIdentityKey_ok assms(3) by simp
next
  case (step_status c s mu s' b)
  then show ?thesis using UpdateStatus_ok assms(3) by simp
next
  case (step_guardians c s mg s' b)
  then show ?thesis using SetGuardians_ok assms(3) by simp
next
  case (step_params s authority p s' b)
  then show ?thesis using id_UpdateParams_ok assms(3) by simp
next
  case (step_initiate mi c i)
  then show ?thesis using InitiateRecovery_ok [OF assms(3)] by simp
next
  case (step_approve c ma)
  then show ?thesis using ApproveRecovery_ok [OF assms(3)] by simp
next
  case (step_reject c ma)
  then show ?thesis using RejectRecovery_ok [OF assms(3)] by simp
next
  case (step_execute c mc)
  then show ?thesis using ExecuteRecovery_ok [OF assms(2,3)] by simp
next
  case (step_cancel c mc)
  then show ?thesis using CancelRecovery_ok [OF assms(3)] by simp
next
  case (step_created s v minSelfStake c x s' b)
  show ?thesis using AfterValidatorCreated_ok [OF _ step_created(3,4)] assms(3) step_created(1,2) by simp
next
  case (step_removed b s v)
  then show ?thesis using Unbind_ok assms(3) by (simp add: AfterValidatorRemoved_def)
next
  case (step_sweep x s x' s' outcomes b)
  show ?thesis using SweepValidatorBindings_ok [OF _ step_sweep(3)] assms(3) step_sweep(1,2) by simp
next
  case (step_ledger b b' s)
  with assms(3) show ?thesis by (simp add: id_ok_def recov_inv_def escrowed_def)
qed

lemma id_ok_empty: "id_ok D (b, empty_id_state)" if "0 \<le> GetBalance b (ModuleAddress (I_env D) id_ModuleName)"
proof (rule id_okI)
  have docs: "all_docs empty_id_state = {}" by (simp add: all_docs_def empty_id_state_def)
  have rec: "eligibility_record empty_id_state ctl = None" for ctl by (simp add: eligibility_record_def empty_id_state_def)
  show "id_inv empty_id_state"
    using docs rec by (simp add: id_inv_def docs_ok_def index_ok_def uniq_ok_def mirror_ok_def age_keys_def oldest_def standing_def)
      (simp add: empty_id_state_def EligibleControllerTotal_def)
  show "recov_inv D (b, empty_id_state)"
    using that by (simp add: recov_inv_def recov_ok_def escrowed_def deposit_total_def quorum_ok_def requests_def
        GetRecoveryRequest_def recoveryTallyEpoch_def decodeEpoch_def empty_id_state_def)
  have "id_Params_Validate id_DefaultParams = Inr ()" by code_simp
  then show "side_ok empty_id_state"
    by (simp add: side_ok_def bind_ok_def id_GetParams_def ValidatorForDID_def DIDForValidator_def empty_id_state_def)
qed

lemma id_reachable_ok:
  assumes "id_reachable D V w" "text_addresses (I_env D)"
  shows "id_ok D w"
  using assms
proof (induction rule: id_reachable.induct)
  case (id_start b)
  from id_start(1) show ?case by (rule id_ok_empty)
next
  case (id_next w w')
  then show ?case using id_step_ok by blast
qed

end
