(* ===== verification/IdChecks.thy ===== *)
theory IdChecks
  imports IdReach
begin

text \<open>
  The registered invariants of \<^verbatim>\<open>x/identity\<close> hold wherever the store invariant does, and the
  quorum denominator counts the controllers the documents say it should.
\<close>

section \<open>Uniqueness and the controller index\<close>

lemma uniqueness_holds:
  assumes "id_inv s"
  shows "\<not> UniquenessBijectionInvariant s"
proof -
  have i: "docs_ok s" "kv_sorted (ids_uniq s)"
    "set (ids_uniq s) = (\<lambda>d. (UniquenessKey (d_UniquenessHash d), d_Did d)) ` all_docs s"
    using assms by (simp_all add: id_inv_def uniq_ok_def)
  have "kv_get (ids_uniq s) (UniquenessKey (d_UniquenessHash d)) = Some (d_Did d)" if "(k, d) \<in> set (ids_docs s)" for k d
  proof -
    have "d \<in> all_docs s" using that unfolding all_docs_def by force
    then have "(UniquenessKey (d_UniquenessHash d), d_Did d) \<in> set (ids_uniq s)" unfolding i(3) by blast
    then show ?thesis using kv_get_mem [OF i(2)] by simp
  qed
  moreover have "\<exists>d. GetIdentity s did = Some d \<and> d_UniquenessHash d = drop 1 k" if "(k, did) \<in> set (ids_uniq s)" for k did
  proof -
    from that obtain d where d: "d \<in> all_docs s" "k = UniquenessKey (d_UniquenessHash d)" "did = d_Did d" unfolding i(3) by auto
    then show ?thesis using all_docs_get [OF i(1), of d] by (simp add: UniquenessKey_def)
  qed
  ultimately show ?thesis unfolding UniquenessBijectionInvariant_def list_ex_iff by fastforce
qed

lemma parse_index_key:
  assumes "nul_free c"
  shows "parseControllerIndexKey (ControllerIndexKey c did) = Some (c, did)"
proof -
  have "takeWhile (\<lambda>x. x \<noteq> CHR 0x00) (c @ CHR 0x00 # did) = c" "dropWhile (\<lambda>x. x \<noteq> CHR 0x00) (c @ CHR 0x00 # did) = CHR 0x00 # did"
    using assms by (auto simp: takeWhile_append dropWhile_append)
  then show ?thesis by (simp add: parseControllerIndexKey_def ControllerIndexKey_def Let_def)
qed

lemma index_holds:
  assumes "id_inv s"
  shows "\<not> ControllerIndexInvariant s"
proof -
  have i: "docs_ok s" "fst ` set (ids_ctrl s) = (\<lambda>d. ControllerIndexKey (d_Controller d) (d_Did d)) ` all_docs s"
    using assms by (simp_all add: id_inv_def index_ok_def)
  have "kv_has (ids_ctrl s) (ControllerIndexKey (d_Controller d) (d_Did d))" if "(k, d) \<in> set (ids_docs s)" for k d
  proof -
    have "d \<in> all_docs s" using that unfolding all_docs_def by force
    then have "ControllerIndexKey (d_Controller d) (d_Did d) \<in> fst ` set (ids_ctrl s)" unfolding i(2) by blast
    then show ?thesis using kv_get_None_iff [of "ids_ctrl s"] by (simp add: kv_has_def)
  qed
  moreover have "\<exists>c did d. parseControllerIndexKey k = Some (c, did) \<and> GetIdentity s did = Some d \<and> d_Controller d = c"
    if "(k, v) \<in> set (ids_ctrl s)" for k v
  proof -
    have "k \<in> fst ` set (ids_ctrl s)" using that by force
    then obtain d where d: "d \<in> all_docs s" "k = ControllerIndexKey (d_Controller d) (d_Did d)" unfolding i(2) by blast
    have "nul_free (d_Controller d)" using all_docs_ok [OF i(1) d(1)] by (simp add: doc_ok_def)
    then show ?thesis using parse_index_key d all_docs_get [OF i(1), of d] by auto
  qed
  ultimately show ?thesis unfolding ControllerIndexInvariant_def list_ex_iff by fastforce
qed

lemma status_holds:
  assumes "id_inv s"
  shows "\<not> StatusValidityInvariant s"
proof -
  have ok: "docs_ok s" using assms by (simp add: id_inv_def)
  have "d_Status d \<in> {DID_STATUS_ACTIVE, DID_STATUS_SUSPENDED, DID_STATUS_REVOKED}" if "(k, d) \<in> set (ids_docs s)" for k d
    using docs_entry [OF ok that] by (simp add: doc_ok_def)
  then show ?thesis unfolding StatusValidityInvariant_def list_ex_iff by fastforce
qed

section \<open>The eligibility records\<close>

lemma want_sorted: "kv_sorted m \<Longrightarrow> kv_sorted (foldl want_step m ds)"
proof (induction ds arbitrary: m)
  case (Cons d ds)
  then have "kv_sorted (want_step m d)" by (simp add: want_step_def split: option.split)
  then show ?case using Cons.IH by simp
qed simp

lemma want_get: "kv_get (foldl want_step m ds) ctl = foldl older (kv_get m ctl) (filter (\<lambda>d. d_Controller d = ctl) ds)"
proof (induction ds arbitrary: m)
  case (Cons d ds)
  have "kv_get (want_step m d) ctl = (if d_Controller d = ctl then older (kv_get m ctl) d else kv_get m ctl)"
    by (auto simp: want_step_def older_def simp del: kv_set.simps split: option.split)
  with Cons.IH [of "want_step m d"] show ?case by simp
qed simp

lemma want_oldest: "kv_get (want s) ctl = oldest s ctl"
proof -
  have "{d \<in> set (filter (\<lambda>d. d_Controller d = ctl) (map snd (ids_docs s))). d_Status d \<noteq> DID_STATUS_REVOKED}
      = {d \<in> all_docs s. d_Controller d = ctl \<and> d_Status d \<noteq> DID_STATUS_REVOKED}"
    by (auto simp: all_docs_def)
  then show ?thesis unfolding want_def want_get foldl_older oldest_def standing_def by simp
qed

lemma record_of_entry:
  assumes "mirror_ok s" "(k, v) \<in> set (ids_elig s)"
  obtains ctl x y where "k = ControllerEligibilityKey ctl" "eligibility_record s ctl = Some (x, y)"
proof -
  from elig_entry [OF assms] obtain ctl x y where e: "k = ControllerEligibilityKey ctl" "in_i64 x" "in_i64 y"
    "v = EncodeControllerEligibility x y" by metis
  have "kv_sorted (ids_elig s)" using assms(1) by (simp add: mirror_ok_def)
  from kv_get_mem [OF this] assms(2) have "kv_get (ids_elig s) k = Some v" by simp
  with e that [of ctl x y] show thesis by (simp add: eligibility_record_def)
qed

abbreviation recorded :: "id_state \<Rightarrow> string set" where
  "recorded s \<equiv> {ctl. eligibility_record s ctl \<noteq> None}"

lemma elig_keys:
  assumes "mirror_ok s"
  shows "fst ` set (ids_elig s) = ControllerEligibilityKey ` recorded s"
proof
  show "fst ` set (ids_elig s) \<subseteq> ControllerEligibilityKey ` recorded s"
  proof
    fix k assume "k \<in> fst ` set (ids_elig s)"
    then obtain v where "(k, v) \<in> set (ids_elig s)" by force
    from record_of_entry [OF assms this] obtain ctl x y where "k = ControllerEligibilityKey ctl" "eligibility_record s ctl = Some (x, y)" .
    then show "k \<in> ControllerEligibilityKey ` recorded s" by simp
  qed
  show "ControllerEligibilityKey ` recorded s \<subseteq> fst ` set (ids_elig s)"
  proof
    fix k assume "k \<in> ControllerEligibilityKey ` recorded s"
    then obtain ctl x y where "k = ControllerEligibilityKey ctl" "eligibility_record s ctl = Some (x, y)" by auto
    then show "k \<in> fst ` set (ids_elig s)" using record_in(3) [OF assms, of ctl x y] by force
  qed
qed

lemma length_keys: "kv_sorted m \<Longrightarrow> length m = card (fst ` set m)"
  using kv.entries_distinct [of m] distinct_card [of "map fst m"] by simp

lemma recorded_count:
  assumes "mirror_ok s"
  shows "length (ids_elig s) = card (recorded s)" "finite (recorded s)"
proof -
  have inj: "inj_on ControllerEligibilityKey (recorded s)" by (simp add: inj_on_def)
  have srt: "kv_sorted (ids_elig s)" using assms by (simp add: mirror_ok_def)
  show "length (ids_elig s) = card (recorded s)"
    unfolding length_keys [OF srt] elig_keys [OF assms] by (rule card_image [OF inj])
  have "finite (ControllerEligibilityKey ` recorded s)" unfolding elig_keys [OF assms, symmetric] by simp
  then show "finite (recorded s)" by (rule finite_imageD [OF _ inj])
qed

definition age_key :: "id_state \<Rightarrow> string \<Rightarrow> bytes" where
  "age_key s ctl = EligibilityByAgeKey (fst (the (eligibility_record s ctl))) ctl"

lemma age_keys_image: "age_keys (eligibility_record s) = age_key s ` recorded s"
  unfolding age_keys_def age_key_def by force

lemma age_key_inj_on: "mirror_ok s \<Longrightarrow> inj_on (age_key s) (recorded s)"
proof (rule inj_onI)
  fix a b assume m: "mirror_ok s" and ab: "a \<in> recorded s" "b \<in> recorded s" "age_key s a = age_key s b"
  from ab(1,2) obtain x y x' y' where r: "eligibility_record s a = Some (x, y)" "eligibility_record s b = Some (x', y')" by auto
  with ab(3) age_key_inj [OF record_in(1) [OF m r(1)] record_in(1) [OF m r(2)]] show "a = b" by (simp add: age_key_def)
qed

lemma mirror_count:
  assumes "mirror_ok s"
  shows "length (ids_byage s) = card (recorded s)"
proof -
  have "kv_sorted (ids_byage s)" "fst ` set (ids_byage s) = age_key s ` recorded s"
    using assms by (simp_all add: mirror_ok_def age_keys_image)
  then show ?thesis using length_keys [of "ids_byage s"] card_image [OF age_key_inj_on [OF assms]] by simp
qed

lemma eligibility_holds:
  assumes "id_inv s"
  shows "\<not> EligibilityIndexInvariant s"
proof -
  have i: "mirror_ok s" "\<And>ctl. map_option fst (eligibility_record s ctl) = oldest s ctl"
    using assms by (simp_all add: id_inv_def)
  have keys: "fst ` set (ids_byage s) = age_key s ` recorded s" using i(1) by (simp add: mirror_ok_def age_keys_image)
  have a: "\<exists>y. eligibility_record s ctl = Some (x, y) \<and> kv_has (ids_byage s) (EligibilityByAgeKey x ctl)"
    if "(ctl, x) \<in> set (want s)" for ctl x
  proof -
    have "kv_sorted (want s)" unfolding want_def by (rule want_sorted) (simp add: kv_sorted_def)
    from kv_get_mem [OF this] that have "oldest s ctl = Some x" by (simp add: want_oldest)
    then obtain y where y: "eligibility_record s ctl = Some (x, y)" using i(2) [of ctl] by auto
    then have "EligibilityByAgeKey x ctl \<in> fst ` set (ids_byage s)" unfolding keys by (force simp: age_key_def)
    with y show ?thesis using kv_get_None_iff [of "ids_byage s"] by (simp add: kv_has_def)
  qed
  have b: "kv_has (want s) (drop 1 k)" if "(k, v) \<in> set (ids_elig s)" for k v
  proof -
    from record_of_entry [OF i(1) that] obtain ctl x y
      where k: "k = ControllerEligibilityKey ctl" "eligibility_record s ctl = Some (x, y)" .
    then have "kv_get (want s) ctl = Some x" using i(2) [of ctl] by (simp add: want_oldest)
    then show ?thesis by (simp add: k(1) ControllerEligibilityKey_def kv_has_def)
  qed
  have d: "CreatedAtFromEligibilityByAgeKey k \<noteq> None" if "(k, v) \<in> set (ids_byage s)" for k v
  proof -
    have "k \<in> age_key s ` recorded s" using that unfolding keys [symmetric] by force
    then obtain ctl x y where "k = EligibilityByAgeKey x ctl" "eligibility_record s ctl = Some (x, y)" by (auto simp: age_key_def)
    then show ?thesis using record_in(1) [OF i(1)] by simp
  qed
  have c: "EligibleControllerTotal s = word_of_nat (length (ids_elig s))" using i(1) by (simp add: mirror_ok_def)
  have e: "length (ids_byage s) = length (ids_elig s)" using mirror_count [OF i(1)] recorded_count(1) [OF i(1)] by simp
  show ?thesis unfolding EligibilityIndexInvariant_def list_ex_iff using a b c d e by fastforce
qed

lemma invariants_hold: "id_inv s \<Longrightarrow> \<not> id_AllInvariants s"
  by (simp add: id_AllInvariants_def uniqueness_holds index_holds status_holds eligibility_holds)

section \<open>The quorum denominator\<close>

text \<open>The controllers with a document that is not revoked, and those with one old enough.\<close>

definition standing_controllers :: "id_state \<Rightarrow> string set" where
  "standing_controllers s = d_Controller ` {d \<in> all_docs s. d_Status d \<noteq> DID_STATUS_REVOKED}"

definition eligible_controllers :: "id_state \<Rightarrow> int \<Rightarrow> string set" where
  "eligible_controllers s cutoff =
    d_Controller ` {d \<in> all_docs s. d_Status d \<noteq> DID_STATUS_REVOKED \<and> d_CreatedAt d \<le> cutoff}"

abbreviation entry_created :: "bytes \<times> bytes \<Rightarrow> int" where
  "entry_created e \<equiv> the (CreatedAtFromEligibilityByAgeKey (fst e))"

lemma tail_scan_count:
  assumes "\<forall>e \<in> set es. CreatedAtFromEligibilityByAgeKey (fst e) \<noteq> None"
    "sorted_wrt (\<lambda>a b. entry_created b \<le> entry_created a) es" "n \<le> ceiling"
  shows "unat (fst (tail_scan ceiling cutoff es n))
    = unat n + min (length (filter (\<lambda>e. cutoff < entry_created e) es)) (unat ceiling - unat n)"
  using assms
proof (induction es arbitrary: n)
  case (Cons e es)
  show ?case
  proof (cases "ceiling \<le> n")
    case True
    with Cons.prems(3) have "n = ceiling" by simp
    then show ?thesis by simp
  next
    case False
    then have lt: "n < ceiling" by simp
    obtain x where x: "CreatedAtFromEligibilityByAgeKey (fst e) = Some x" using Cons.prems(1) by auto
    show ?thesis
    proof (cases "x \<le> cutoff")
      case True
      have "filter (\<lambda>e. cutoff < entry_created e) es = []"
        using Cons.prems(2) x True by (auto simp: filter_empty_conv)
      with True False x show ?thesis by simp
    next
      case new: False
      have "n \<noteq> - 1" using lt by (metis leD word_order.extremum)
      then have n1: "unat (n + 1) = unat n + 1"
        by (metis Suc_eq_plus1 add.commute eq_neg_iff_add_eq_0 unatSuc)
      then have n2: "n + 1 \<le> ceiling" using lt by (simp add: word_less_nat_alt word_le_nat_alt)
      show ?thesis using Cons.IH [OF _ _ n2] Cons.prems(1,2) False new x lt n1
        by (simp add: word_less_nat_alt)
    qed
  qed
qed simp

lemma recorded_standing:
  assumes "id_inv s"
  shows "recorded s = standing_controllers s"
    "ctl \<in> recorded s \<Longrightarrow> fst (the (eligibility_record s ctl)) \<le> cutoff \<longleftrightarrow> ctl \<in> eligible_controllers s cutoff"
proof -
  have i: "map_option fst (eligibility_record s c) = oldest s c" for c using assms by (simp add: id_inv_def)
  have mem: "standing s c \<noteq> {} \<longleftrightarrow> c \<in> standing_controllers s" for c
    by (auto simp: standing_def standing_controllers_def)
  have "eligibility_record s c = None \<longleftrightarrow> standing s c = {}" for c
    using i [of c] by (auto simp: oldest_def split: if_splits)
  then have "c \<in> recorded s \<longleftrightarrow> c \<in> standing_controllers s" for c unfolding mem [symmetric] mem_Collect_eq by simp
  then show "recorded s = standing_controllers s" by (rule set_eqI)
  assume "ctl \<in> recorded s"
  then obtain x y where r: "eligibility_record s ctl = Some (x, y)" by auto
  with i [of ctl] have x: "standing s ctl \<noteq> {}" "x = Min (standing s ctl)" by (auto simp: oldest_def split: if_splits)
  have "x \<le> cutoff \<longleftrightarrow> (\<exists>a \<in> standing s ctl. a \<le> cutoff)" using x by (simp add: Min_le_iff)
  also have "\<dots> \<longleftrightarrow> ctl \<in> eligible_controllers s cutoff" by (auto simp: standing_def eligible_controllers_def)
  finally show "fst (the (eligibility_record s ctl)) \<le> cutoff \<longleftrightarrow> ctl \<in> eligible_controllers s cutoff" by (simp add: r)
qed

lemma newer_entries:
  assumes "id_inv s"
  shows "length (filter (\<lambda>e. cutoff < entry_created e) (ids_byage s))
    = card (standing_controllers s - eligible_controllers s cutoff)"
proof -
  have m: "mirror_ok s" using assms by (simp add: id_inv_def)
  have srt: "kv_sorted (ids_byage s)" and keys: "fst ` set (ids_byage s) = age_key s ` recorded s"
    using m by (simp_all add: mirror_ok_def age_keys_image)
  let ?P = "\<lambda>k. cutoff < the (CreatedAtFromEligibilityByAgeKey k)"
  have created: "the (CreatedAtFromEligibilityByAgeKey (age_key s c)) = fst (the (eligibility_record s c))" if "c \<in> recorded s" for c
    using that record_in(1) [OF m] by (auto simp: age_key_def)
  have P: "?P (age_key s c) \<longleftrightarrow> c \<notin> eligible_controllers s cutoff" if "c \<in> recorded s" for c
    using created [OF that] recorded_standing(2) [OF assms that, of cutoff] by auto
  have "fst ` set (filter (\<lambda>e. ?P (fst e)) (ids_byage s)) = {k \<in> fst ` set (ids_byage s). ?P k}" by auto
  also have "\<dots> = age_key s ` {c \<in> recorded s. ?P (age_key s c)}" unfolding keys by auto
  also have "{c \<in> recorded s. ?P (age_key s c)} = recorded s - eligible_controllers s cutoff" using P by blast
  finally have im: "fst ` set (filter (\<lambda>e. ?P (fst e)) (ids_byage s)) = age_key s ` (recorded s - eligible_controllers s cutoff)" .
  have "inj_on (age_key s) (recorded s - eligible_controllers s cutoff)"
    by (rule inj_on_subset [OF age_key_inj_on [OF m]]) blast
  then show ?thesis unfolding length_keys [OF kv_sorted_filter [OF srt]] im recorded_standing(1) [OF assms, symmetric]
    by (rule card_image)
qed

lemma byage_descending:
  assumes "id_inv s"
  shows "sorted_wrt (\<lambda>a b. entry_created b \<le> entry_created a) (rev (ids_byage s))"
    "\<forall>e \<in> set (rev (ids_byage s)). CreatedAtFromEligibilityByAgeKey (fst e) \<noteq> None"
proof -
  have m: "mirror_ok s" using assms by (simp add: id_inv_def)
  have entry: "\<exists>x c. fst e = EligibilityByAgeKey x c \<and> in_i64 x" if "e \<in> set (ids_byage s)" for e
  proof -
    have "fst e \<in> age_key s ` recorded s" using that m unfolding mirror_ok_def age_keys_image by blast
    then obtain c x y where "fst e = EligibilityByAgeKey x c" "eligibility_record s c = Some (x, y)" by (auto simp: age_key_def)
    then show ?thesis using record_in(1) [OF m] by blast
  qed
  show "\<forall>e \<in> set (rev (ids_byage s)). CreatedAtFromEligibilityByAgeKey (fst e) \<noteq> None"
    using entry by force
  have "sorted_wrt (\<lambda>a b. fst a < fst b) (ids_byage s)" using m by (simp add: mirror_ok_def kv_sorted_def sorted_wrt_map)
  then have "sorted_wrt (\<lambda>a b. entry_created a \<le> entry_created b) (ids_byage s)"
  proof (rule sorted_wrt_mono_rel [rotated])
    fix a b assume ab: "a \<in> set (ids_byage s)" "b \<in> set (ids_byage s)" "fst a < fst b"
    obtain x c x' c' where k: "fst a = EligibilityByAgeKey x c" "in_i64 x" "fst b = EligibilityByAgeKey x' c'" "in_i64 x'"
      using entry [OF ab(1)] entry [OF ab(2)] by blast
    then show "entry_created a \<le> entry_created b" using age_key_less [OF k(2,4)] ab(3) by simp
  qed
  then show "sorted_wrt (\<lambda>a b. entry_created b \<le> entry_created a) (rev (ids_byage s))" by (simp add: sorted_wrt_rev)
qed

lemma count_eligible:
  fixes t minAge :: int
  assumes "id_inv s" "card (standing_controllers s) < 2 ^ 64"
  defines "E \<equiv> eligible_controllers s (age_cutoff t minAge)"
  shows "unat (CountEligibleControllersAt s t minAge)
    = card (standing_controllers s) - min (card (standing_controllers s - E)) 5000000"
proof -
  have m: "mirror_ok s" using assms(1) by (simp add: id_inv_def)
  let ?n = "card (standing_controllers s)" and ?k = "card (standing_controllers s - E)"
  have fin: "finite (standing_controllers s)" by (simp add: standing_controllers_def)
  have tot: "unat (EligibleControllerTotal s) = ?n"
    using m recorded_count(1) [OF m] recorded_standing(1) [OF assms(1)] assms(2)
    by (simp add: mirror_ok_def unat_of_nat)
  let ?tail = "fst (countEligibleNewerThanCapped s (age_cutoff t minAge) MaxEligibilityTailScan)"
  have "unat ?tail = min ?k 5000000"
    using tail_scan_count [OF byage_descending(2,1) [OF assms(1)], of 0 MaxEligibilityTailScan "age_cutoff t minAge"]
      newer_entries [OF assms(1), of "age_cutoff t minAge"]
    by (simp add: countEligibleNewerThanCapped_def MaxEligibilityTailScan_def rev_filter [symmetric] E_def)
  moreover have "?k \<le> ?n" using card_mono [OF fin, of "standing_controllers s - E"] by blast
  ultimately show ?thesis using tot
    by (simp add: CountEligibleControllersAt_def Let_def word_less_nat_alt unat_sub word_le_nat_alt)
qed

end
