(* ===== verification/IdWrites.thy ===== *)
theory IdWrites
  imports IdReach IdChecks
begin

text \<open>
  What one step of the identity module does to the documents and the eligibility records: nothing,
  or one \<^verbatim>\<open>SetIdentity\<close> at the block's time that keeps the document's creation time and
  uniqueness marker.  From this follow the permanence of documents (\<^verbatim>\<open>evolves\<close>) and that a
  controller who is in an eligibility basis now was in it when the basis was taken
  (\<^verbatim>\<open>since_mono\<close>).
\<close>

section \<open>Writes\<close>

definition basis :: "id_state \<Rightarrow> DIDDocument kv \<times> bytes kv" where
  "basis s = (ids_docs s, ids_elig s)"

definition writes_doc :: "ctx \<Rightarrow> id_state \<Rightarrow> id_state \<Rightarrow> DIDDocument \<Rightarrow> bool" where
  "writes_doc c s s' d \<longleftrightarrow> in_i64 (block_time c) \<and> doc_ok d \<and> basis s' = basis (SetIdentity c s d)
     \<and> (\<forall>prev. GetIdentity s (d_Did d) = Some prev \<longrightarrow> d_Status prev \<noteq> DID_STATUS_REVOKED
         \<and> d_UniquenessHash d = d_UniquenessHash prev \<and> d_CreatedAt d = d_CreatedAt prev)"

lemma basis_core: "core s' = core s \<Longrightarrow> basis s' = basis s"
  by (simp add: basis_def core_fields(3) [of s' s] core_fields(6) [of s' s])

lemma writes_update:
  assumes "id_inv s" "in_i64 (block_time c)" "GetIdentity s did = Some doc" "d_Status doc \<noteq> DID_STATUS_REVOKED"
    "doc_ok d" "d_Did d = d_Did doc" "d_UniquenessHash d = d_UniquenessHash doc" "d_CreatedAt d = d_CreatedAt doc"
    "basis s' = basis (SetIdentity c s d)"
  shows "writes_doc c s s' d"
proof -
  have "d_Did doc = did" using GetIdentity_did(1) [OF _ assms(3)] assms(1) by (simp add: id_inv_def)
  with assms show ?thesis by (simp add: writes_doc_def)
qed

lemma register_writes:
  assumes "text_addresses (I_env D)" "in_i64 (block_time c)"
    "MsgRegisterIdentity_ValidateBasic (I_env D) m = Inr ()" "RegisterIdentity D c s m = Inr s'"
  shows "\<exists>d. writes_doc c s s' d"
proof -
  have d: "doc_ok (new_doc c m)" by (rule new_doc_ok [OF assms(1-3)])
  from RegisterIdentity_shape [OF assms(4)] obtain n k where r: "n = SetIdentityCount (markIssuerNonce (setUniqueness
      (SetIdentity c s (new_doc c m)) (ri_UniquenessHash m) (ri_Did m)) (ri_IssuerDid m) (ri_Nonce m)) k"
    "GetIdentity s (ri_Did m) = None" "s' = n \<or> (\<exists>p. id_SetParams n p = Inr s')" by metis
  have "basis n = basis (SetIdentity c s (new_doc c m))"
    by (simp add: r(1) basis_def SetIdentityCount_def markIssuerNonce_def setUniqueness_def)
  moreover have "basis s' = basis n" using r(3) by (auto simp: basis_def id_SetParams_def ok_simps)
  ultimately have "writes_doc c s s' (new_doc c m)" using d assms(2) r(2) by (simp add: writes_doc_def new_doc_def)
  then show ?thesis by blast
qed

lemma revoke_writes:
  assumes "id_ok D w" "in_i64 (block_time c)" "RevokeIdentity D c w m = Inr w'"
  shows "\<exists>d. writes_doc c (snd w) (snd w') d"
proof -
  obtain b s where w: "w = (b, s)" by force
  from assms(3) obtain doc where doc: "GetIdentity s (rv_Did m) = Some doc" "d_Status doc \<noteq> DID_STATUS_REVOKED"
    unfolding RevokeIdentity_def w by (auto split: option.splits if_splits)
  let ?d = "doc\<lparr>d_Status := DID_STATUS_REVOKED\<rparr>"
  let ?s0 = "SetIdentity c s ?d"
  from assms(3) doc obtain b' s1 s2 s3 where q: "terminateRecoveryRequestsForDID (I_env D) (b, ?s0) (rv_Did m) = Inr (b', s1)"
    "s2 = DeleteGuardianSet s1 (rv_Did m)"
    "s3 = (case ValidatorForDID s2 (rv_Did m) of None \<Rightarrow> s2 | Some valoper \<Rightarrow> UnbindValidator s2 valoper)"
    "w' = (b', bumpGuardianEpoch s3 (rv_Did m))"
    unfolding RevokeIdentity_def w Let_def by (auto simp: ok_simps split: if_splits)
  have frame: "basis (snd w') = basis s1"
    by (simp add: q(2-4) basis_def bumpGuardianEpoch_def DeleteGuardianSet_def UnbindValidator_def Let_def split: option.split)
  note d = id_ok_doc [OF assms(1) [unfolded w] doc(1)]
  have dok: "doc_ok ?d" using d by (auto simp: doc_ok_def)
  have ok: "id_ok D (b, ?s0)"
    by (rule SetIdentity_ok [OF assms(1) [unfolded w]]) (use doc d dok assms(2) in simp_all)
  have nf: "nul_free (rv_Did m)" using d by (auto simp: doc_ok_def)
  note st = stored_requests [OF id_okD(2) [OF ok] nf]
  have "core s1 = core ?s0"
    using close_requests_inv(2) [OF id_okD(2) [OF ok] _ st(2) q(1) [unfolded terminateRecoveryRequestsForDID_def snd_conv]] st(1)
    by simp
  from basis_core [OF this] frame have "basis (snd w') = basis ?s0" by simp
  from writes_update [OF id_okD(1) [OF assms(1) [unfolded w]] assms(2) doc dok _ _ _ this] show ?thesis by (auto simp: w)
qed

lemma rotate_writes:
  assumes "id_ok D (b, s)" "in_i64 (block_time c)" "RotateIdentityKey D c s m = Inr s'"
  shows "\<exists>d. writes_doc c s s' d"
proof -
  from assms(3) obtain doc where doc: "GetIdentity s (rk_Did m) = Some doc" "d_Status doc = DID_STATUS_ACTIVE"
    "s' = SetIdentity c s (doc\<lparr>d_PubKey := rk_NewPubKey m\<rparr>)"
    unfolding RotateIdentityKey_def by (auto simp: ok_simps split: option.splits if_splits)
  have "doc_ok (doc\<lparr>d_PubKey := rk_NewPubKey m\<rparr>)" using id_ok_doc [OF assms(1) doc(1)] by (simp add: doc_ok_def)
  from writes_update [OF id_okD(1) [OF assms(1)] assms(2) doc(1) _ this, of s'] show ?thesis using doc(2,3) by auto
qed

lemma status_writes:
  assumes "id_ok D (b, s)" "in_i64 (block_time c)" "UpdateStatus D c s m = Inr s'"
  shows "\<exists>d. writes_doc c s s' d"
proof -
  from assms(3) obtain doc where doc: "GetIdentity s (us_Did m) = Some doc" "d_Status doc \<noteq> DID_STATUS_REVOKED"
    "us_NewStatus m \<in> {DID_STATUS_ACTIVE, DID_STATUS_SUSPENDED}"
    unfolding UpdateStatus_def Let_def by (auto split: option.splits if_splits)
  let ?d = "doc\<lparr>d_Status := us_NewStatus m\<rparr>"
  have walk: "basis (foldl (\<lambda>s r. if P r then s else SetRecoveryRequest s (u r)) s rs) = basis s" for P u s rs
    by (induction rs arbitrary: s) (simp_all add: SetRecoveryRequest_def basis_def)
  have "basis s' = basis (SetIdentity c s ?d)"
    using assms(3) doc unfolding UpdateStatus_def Let_def freezeLiveRecoveries_def thawRecoveries_def if_chain
    by (auto simp: walk split: if_splits)
  moreover have "doc_ok ?d" using id_ok_doc [OF assms(1) doc(1)] doc(3) by (auto simp: doc_ok_def)
  ultimately have "writes_doc c s s' ?d"
    by (intro writes_update [OF id_okD(1) [OF assms(1)] assms(2) doc(1,2)]) simp_all
  then show ?thesis by blast
qed

lemma execute_shape:
  assumes "text_addresses (I_env D)" "id_ok D w" "in_i64 (block_time c)" "ExecuteRecovery D c w m = Inr w'"
  obtains req doc where "GetRecoveryRequest (snd w) (cr_RecoveryId m) = Some req"
    "execute_checks D c (snd w) req = Inr doc" "GetIdentity (snd w) (rr_Did req) = Some doc"
    "core (snd w') = core (SetIdentity c (snd w) (doc\<lparr>d_PubKey := rr_ProposedNewPubKey req, d_KeyType := rr_KeyType req,
            d_Controller := rr_ProposedNewController req\<rparr>))"
    "doc_ok (doc\<lparr>d_PubKey := rr_ProposedNewPubKey req, d_KeyType := rr_KeyType req,
            d_Controller := rr_ProposedNewController req\<rparr>)"
    "\<forall>r \<in> requests (snd w'). rr_Did r \<noteq> rr_Did req"
proof -
  obtain b s where w: "w = (b, s)" by force
  have ri: "recov_inv D (b, s)" using assms(2) by (simp add: w id_ok_def)
  from ExecuteRecovery_shape [OF ri assms(4) [unfolded w], unfolded fst_conv snd_conv]
  obtain req doc b' where x: "live_request (I_env D) c (b, s) (cr_RecoveryId m) = Inr (req, (b, s))"
    "execute_checks D c s req = Inr doc" "refundDeposit (I_env D) b req = Inr b'"
    "supersedeSiblings (I_env D) (b', deleteRecoveryRequest (SetIdentity c s
       (doc\<lparr>d_PubKey := rr_ProposedNewPubKey req, d_KeyType := rr_KeyType req,
            d_Controller := rr_ProposedNewController req\<rparr>)) req) (rr_Did req) (rr_RecoveryId req) = Inr w'"
    by blast
  let ?d = "doc\<lparr>d_PubKey := rr_ProposedNewPubKey req, d_KeyType := rr_KeyType req, d_Controller := rr_ProposedNewController req\<rparr>"
  let ?s1 = "SetIdentity c s ?d" let ?s2 = "deleteRecoveryRequest ?s1 req"
  note l = live_request_ok [OF ri x(1), unfolded snd_conv]
  note q = stored_req_ok(2) [OF ri l(2)]
  have doc: "GetIdentity s (rr_Did req) = Some doc" using execute_checks_doc [OF x(2)] by simp
  note dd = id_ok_doc [OF assms(2) [unfolded w] doc]
  have dok: "doc_ok ?d" using dd q assms(1) by (auto simp: doc_ok_def req_ok_def text_addresses_def)
  have e: "elig_inv s" using assms(2) by (simp add: w id_ok_def id_inv_elig)
  have ok1: "id_ok D (b, ?s1)"
    by (rule SetIdentity_ok [OF assms(2) [unfolded w] _ _ dok assms(3)]) (use doc dd in simp_all)
  have get: "GetRecoveryRequest ?s1 i = GetRecoveryRequest s i" for i
    by (simp add: GetRecoveryRequest_def SetIdentity_frame(4) [OF e dok assms(3)])
  have ri2: "recov_inv D (b', ?s2)"
    by (rule settle_inv [OF id_okD(2) [OF ok1] _ _ refund_balance [OF x(3)]])
      (use get l(2,3) q in \<open>simp_all add: req_ok_def\<close>)
  have nf: "nul_free (rr_Did req)" using q by (simp add: req_ok_def)
  note st = stored_requests [OF ri2 nf]
  note cl = close_requests_inv [OF ri2 _ st(2) x(4) [unfolded supersedeSiblings_def snd_conv], unfolded snd_conv, OF st(1)]
  have core: "core (snd w') = core ?s1" using cl(2) by simp
  have gone: "\<forall>r \<in> requests (snd w'). rr_Did r \<noteq> rr_Did req"
  proof (intro ballI notI)
    fix p assume p: "p \<in> requests (snd w')" "rr_Did p = rr_Did req"
    have ro: "recov_ok (I_env D) (snd w')" "recov_ok (I_env D) ?s2" using cl(1) ri2 by (simp_all add: recov_inv_def)
    have some: "GetRecoveryRequest (snd w') (rr_RecoveryId p) = Some p" using requests_get [OF ro(1)] p(1) by simp
    let ?rs = "RecoveryRequestsForDID ?s2 (rr_Did req)"
    have gone1: "rr_RecoveryId r \<noteq> rr_RecoveryId req" if "r \<in> set ?rs" for r
    proof
      assume eq: "rr_RecoveryId r = rr_RecoveryId req"
      have "GetRecoveryRequest ?s2 (rr_RecoveryId r) = None" unfolding eq by (simp add: GetRecoveryRequest_def)
      with st(1) that show False by force
    qed
    have notin: "rr_RecoveryId p \<notin> rr_RecoveryId ` set ?rs" using cl(3) gone1 some by force
    with cl(4) some have "GetRecoveryRequest ?s2 (rr_RecoveryId p) = Some p" by simp
    then have "p \<in> set ?rs" using requests_for_did(1) [OF ro(2) nf] requests_get [OF ro(2)] p(2) by simp
    with notin show False by blast
  qed
  show thesis by (rule that [of req doc]) (use l(2) x(2) doc core dok gone in \<open>simp_all add: w\<close>)
qed

lemma execute_writes:
  assumes "text_addresses (I_env D)" "id_ok D w" "in_i64 (block_time c)" "ExecuteRecovery D c w m = Inr w'"
  shows "\<exists>d. writes_doc c (snd w) (snd w') d"
proof -
  obtain req doc where x: "execute_checks D c (snd w) req = Inr doc" "GetIdentity (snd w) (rr_Did req) = Some doc"
    "core (snd w') = core (SetIdentity c (snd w) (doc\<lparr>d_PubKey := rr_ProposedNewPubKey req, d_KeyType := rr_KeyType req,
            d_Controller := rr_ProposedNewController req\<rparr>))"
    "doc_ok (doc\<lparr>d_PubKey := rr_ProposedNewPubKey req, d_KeyType := rr_KeyType req,
            d_Controller := rr_ProposedNewController req\<rparr>)"
    using execute_shape [OF assms] by metis
  have inv: "id_inv (snd w)" using assms(2) by (simp add: id_ok_def)
  have "d_Status doc \<noteq> DID_STATUS_REVOKED" using execute_checks_doc [OF x(1)] by simp
  from writes_update [OF inv assms(3) x(2) this x(4) _ _ _ basis_core [OF x(3)]] show ?thesis by auto
qed

section \<open>Frames\<close>

lemma sync_core [simp]: "core (snd (syncTallyEpoch s r)) = core s"
  by (simp add: syncTallyEpoch_def Let_def)

lemma reap_core: "reapIfExpired E c w r = Inr (t, r', w') \<Longrightarrow> core (snd w') = core (snd w)"
  by (cases w) (auto simp: reapIfExpired_def ok_simps split: if_splits)

lemma live_core: "live_request E c w i = Inr (req, w') \<Longrightarrow> core (snd w') = core (snd w)"
  by (auto simp: live_request_def ok_simps dest: reap_core split: option.splits if_splits)

lemma count_core: "countOpenRequests E c w did = Inr (n, w') \<Longrightarrow> core (snd w') = core (snd w)"
  unfolding countOpenRequests_def
  by (drule foldE_invariant [where P = "\<lambda>a. core (snd (snd a)) = core (snd w)"])
    (auto simp: ok_simps dest!: reap_core)

lemma initiate_core:
  assumes "InitiateRecovery D c w m = Inr (i, w')"
  shows "core (snd w') = core (snd w)"
proof -
  from assms obtain n b1 s1 where c1: "countOpenRequests (I_env D) c w (ir_Did m) = Inr (n, (b1, s1))"
    by (auto simp: InitiateRecovery_def Let_def ok_simps)
  with assms have "core (snd w') = core s1"
    by (auto simp: InitiateRecovery_def Let_def ok_simps split: if_splits option.splits)
  with count_core [OF c1] show ?thesis by simp
qed

lemma approve_core:
  assumes "ApproveRecovery D c w m = Inr w'"
  shows "core (snd w') = core (snd w)"
proof -
  from assms obtain req b s where l: "live_request (I_env D) c w (gv_RecoveryId m) = Inr (req, (b, s))"
    by (auto simp: ApproveRecovery_def ok_simps)
  obtain r1 s1 where sy: "syncTallyEpoch s req = (r1, s1)" by force
  with assms l have "core (snd w') = core s1" by (auto simp: ApproveRecovery_def ok_simps split: if_splits)
  with live_core [OF l] sync_core [of s req] sy show ?thesis by simp
qed

lemma reject_core:
  assumes "RejectRecovery D c w m = Inr w'"
  shows "core (snd w') = core (snd w)"
proof -
  from assms obtain req b s where l: "live_request (I_env D) c w (gv_RecoveryId m) = Inr (req, (b, s))"
    by (auto simp: RejectRecovery_def ok_simps)
  obtain r1 s1 where sy: "syncTallyEpoch s req = (r1, s1)" by force
  with assms l have "core (snd w') = core s1"
    by (auto simp: RejectRecovery_def Let_def ok_simps split: if_splits option.splits)
  with live_core [OF l] sync_core [of s req] sy show ?thesis by simp
qed

lemma cancel_core:
  assumes "CancelRecovery D c w m = Inr w'"
  shows "core (snd w') = core (snd w)"
proof -
  from assms obtain req b s where l: "live_request (I_env D) c w (cr_RecoveryId m) = Inr (req, (b, s))"
    by (auto simp: CancelRecovery_def ok_simps)
  with assms have "core (snd w') = core s"
    by (auto simp: CancelRecovery_def ok_simps split: if_splits option.splits)
  with live_core [OF l] show ?thesis by simp
qed

lemma binding_basis [simp]:
  "basis (BindValidatorToDID s did v) = basis s" "basis (UnbindValidator s v) = basis s"
  by (simp_all add: basis_def BindValidatorToDID_def UnbindValidator_def Let_def split: option.split)

lemma sweep_frame:
  assumes "SweepValidatorBindings V x s = (x', s', outcomes)"
    and f: "\<And>s did v. f (BindValidatorToDID s did v) = f s" "\<And>s v. f (UnbindValidator s v) = f s"
  shows "f s' = f s"
proof -
  have one: "f s2 = f s1" if "sweepOne V y s1 v ca j = Inr (out, y', s2)" for y s1 v ca j out y' s2
    using that unfolding sweepOne_def Let_def by (auto simp: ok_simps f split: option.splits DIDStatus.splits if_splits)
  have iso: "f (fst (snd (sweepOneIsolated V st cand))) = f (fst (snd st))" for st cand
    using one by (auto simp: sweepOneIsolated_def split: prod.split sum.split)
  have fold: "f (fst (snd (foldl (sweepOneIsolated V) st cs))) = f (fst (snd st))" for st cs
    by (induction cs arbitrary: st) (simp_all add: iso)
  show ?thesis
  proof (cases "vo_LastValidators V x")
    case (Inl e)
    with assms(1) show ?thesis by (simp add: SweepValidatorBindings_def)
  next
    case (Inr vs)
    with assms(1) fold [of "(x, s, [])" "List.map_filter (\<lambda>v. map_option (\<lambda>a. (vi_Operator v, a, vi_Jailed v)) (vi_ConsAddr v)) vs"]
    show ?thesis by (simp add: SweepValidatorBindings_def)
  qed
qed

lemma sweep_basis: "SweepValidatorBindings V x s = (x', s', outcomes) \<Longrightarrow> basis s' = basis s"
  by (rule sweep_frame [where f = basis]) simp_all

section \<open>Steps at a block time\<close>

inductive id_step_at :: "id_deps \<Rightarrow> 'x val_ops \<Rightarrow> int \<Rightarrow> id_world \<Rightarrow> id_world \<Rightarrow> bool" for D V t where
  at_register: "block_time c = t \<Longrightarrow> in_i64 t \<Longrightarrow> MsgRegisterIdentity_ValidateBasic (I_env D) m = Inr ()
    \<Longrightarrow> RegisterIdentity D c s m = Inr s' \<Longrightarrow> id_step_at D V t (b, s) (b, s')"
| at_issuer: "RegisterTrustedIssuer D s authority issuer = Inr s' \<Longrightarrow> id_step_at D V t (b, s) (b, s')"
| at_revoke_issuer: "RevokeTrustedIssuer D s authority did = Inr s' \<Longrightarrow> id_step_at D V t (b, s) (b, s')"
| at_revoke: "block_time c = t \<Longrightarrow> in_i64 t \<Longrightarrow> RevokeIdentity D c w mv = Inr w' \<Longrightarrow> id_step_at D V t w w'"
| at_rotate: "block_time c = t \<Longrightarrow> in_i64 t \<Longrightarrow> RotateIdentityKey D c s mk = Inr s' \<Longrightarrow> id_step_at D V t (b, s) (b, s')"
| at_status: "block_time c = t \<Longrightarrow> in_i64 t \<Longrightarrow> UpdateStatus D c s mu = Inr s' \<Longrightarrow> id_step_at D V t (b, s) (b, s')"
| at_guardians: "block_time c = t \<Longrightarrow> SetGuardians c s mg = Inr s' \<Longrightarrow> id_step_at D V t (b, s) (b, s')"
| at_params: "id_UpdateParams D s authority p = Inr s' \<Longrightarrow> id_step_at D V t (b, s) (b, s')"
| at_initiate: "block_time c = t \<Longrightarrow> initiator_ok (I_env D) mi \<Longrightarrow> InitiateRecovery D c w mi = Inr (i, w') \<Longrightarrow> id_step_at D V t w w'"
| at_approve: "block_time c = t \<Longrightarrow> ApproveRecovery D c w ma = Inr w' \<Longrightarrow> id_step_at D V t w w'"
| at_reject: "block_time c = t \<Longrightarrow> RejectRecovery D c w ma = Inr w' \<Longrightarrow> id_step_at D V t w w'"
| at_execute: "block_time c = t \<Longrightarrow> in_i64 t \<Longrightarrow> ExecuteRecovery D c w mc = Inr w' \<Longrightarrow> id_step_at D V t w w'"
| at_cancel: "block_time c = t \<Longrightarrow> CancelRecovery D c w mc = Inr w' \<Longrightarrow> id_step_at D V t w w'"
| at_created: "block_time c = t \<Longrightarrow> DIDForValidator s v = None \<Longrightarrow> AfterValidatorCreated V minSelfStake c x s v = Inr s'
    \<Longrightarrow> id_step_at D V t (b, s) (b, s')"
| at_removed: "id_step_at D V t (b, s) (b, AfterValidatorRemoved s v)"
| at_sweep: "SweepValidatorBindings V x s = (x', s', outcomes) \<Longrightarrow> id_step_at D V t (b, s) (b, s')"
| at_ledger: "GetBalance b (ModuleAddress (I_env D) id_ModuleName) \<le> GetBalance b' (ModuleAddress (I_env D) id_ModuleName)
    \<Longrightarrow> id_step_at D V t (b, s) (b', s)"

lemma id_step_at_step: "id_step_at D V t w w' \<Longrightarrow> id_step D V w w'"
  by (induction rule: id_step_at.induct) (blast intro: id_step.intros)+

lemma id_step_some_time: "id_step D V w w' \<Longrightarrow> \<exists>t. id_step_at D V t w w'"
  by (induction rule: id_step.induct) (blast intro: id_step_at.intros)+

lemma id_step_at_writes:
  assumes "id_step_at D V t w w'" "text_addresses (I_env D)" "id_ok D w"
  shows "basis (snd w') = basis (snd w) \<or> (\<exists>c d. block_time c = t \<and> writes_doc c (snd w) (snd w') d)"
  using assms(1)
proof cases
  case (at_register c m s s' b)
  then show ?thesis using register_writes [OF assms(2) _ at_register(5,6)] by auto
next
  case (at_revoke c mv)
  then show ?thesis using revoke_writes [OF assms(3), of c mv w'] by auto
next
  case (at_rotate c s mk s' b)
  then show ?thesis using rotate_writes [of D b s c mk s'] assms(3) by auto
next
  case (at_status c s mu s' b)
  then show ?thesis using status_writes [of D b s c mu s'] assms(3) by auto
next
  case (at_execute c mc)
  then show ?thesis using execute_writes [OF assms(2,3), of c mc w'] by auto
next
  case (at_issuer s authority issuer s' b)
  then show ?thesis by (auto simp: basis_def RegisterTrustedIssuer_def SetTrustedIssuer_def split: if_splits)
next
  case (at_revoke_issuer s authority did s' b)
  then show ?thesis by (auto simp: basis_def RevokeTrustedIssuer_def SetTrustedIssuer_def split: if_splits option.splits)
next
  case (at_guardians c s mg s' b)
  then show ?thesis by (auto simp: basis_def SetGuardians_def bumpGuardianEpoch_def SetGuardianSet_def Let_def ok_simps
        split: if_splits option.splits)
next
  case (at_params s authority p s' b)
  then show ?thesis by (auto simp: basis_def id_UpdateParams_def id_SetParams_def ok_simps split: if_splits)
next
  case (at_initiate c mi i)
  from basis_core [OF initiate_core [OF at_initiate(3)]] show ?thesis by simp
next
  case (at_approve c ma)
  from basis_core [OF approve_core [OF at_approve(2)]] show ?thesis by simp
next
  case (at_reject c ma)
  from basis_core [OF reject_core [OF at_reject(2)]] show ?thesis by simp
next
  case (at_cancel c mc)
  from basis_core [OF cancel_core [OF at_cancel(2)]] show ?thesis by simp
next
  case (at_created c s v minSelfStake x s' b)
  then show ?thesis by (auto simp: AfterValidatorCreated_def ok_simps split: if_splits option.splits)
next
  case (at_removed b s v)
  then show ?thesis by (simp add: AfterValidatorRemoved_def)
next
  case (at_sweep x s x' s' outcomes b)
  from sweep_basis [OF at_sweep(3)] at_sweep(1,2) show ?thesis by simp
next
  case (at_ledger b b' s)
  then show ?thesis by simp
qed

section \<open>Permanence\<close>

definition evolves :: "id_state \<Rightarrow> id_state \<Rightarrow> bool" where
  "evolves s s' \<longleftrightarrow> (\<forall>did doc. GetIdentity s did = Some doc \<longrightarrow>
     (\<exists>doc'. GetIdentity s' did = Some doc' \<and> d_UniquenessHash doc' = d_UniquenessHash doc
        \<and> d_CreatedAt doc' = d_CreatedAt doc \<and> (d_Status doc = DID_STATUS_REVOKED \<longrightarrow> doc' = doc)))"

lemma evolves_same: "ids_docs s' = ids_docs s \<Longrightarrow> evolves s s'"
  by (simp add: evolves_def GetIdentity_def)

lemma evolves_via:
  assumes "evolves s t" "ids_docs s' = ids_docs t"
  shows "evolves s s'"
  using assms by (simp add: evolves_def GetIdentity_def)

lemma evolves_trans: "evolves s t \<Longrightarrow> evolves t u \<Longrightarrow> evolves s u"
  unfolding evolves_def by (metis (no_types, lifting))

lemma evolves_writes:
  assumes "id_inv s" "writes_doc c s s' d"
  shows "evolves s s'"
proof -
  have "elig_inv s" using assms(1) by (simp add: id_inv_elig)
  note g = SetIdentity_docs(2) [OF this, of d c]
  have "evolves s (SetIdentity c s d)" unfolding evolves_def using assms(2) g by (auto simp: writes_doc_def)
  with assms(2) show ?thesis by (auto intro: evolves_via simp: writes_doc_def basis_def)
qed

lemma id_step_evolves:
  assumes "id_step D V w w'" "text_addresses (I_env D)" "id_ok D w"
  shows "evolves (snd w) (snd w')"
proof -
  obtain t where "id_step_at D V t w w'" using id_step_some_time [OF assms(1)] by blast
  from id_step_at_writes [OF this assms(2,3)] show ?thesis
    using evolves_same [of "snd w'" "snd w"] evolves_writes assms(3) by (auto simp: basis_def id_ok_def)
qed

lemma id_steps_evolve:
  assumes "(id_step D V)\<^sup>*\<^sup>* w w'" "text_addresses (I_env D)" "id_ok D w"
  shows "evolves (snd w) (snd w') \<and> id_ok D w'"
  using assms(1)
proof (induction rule: rtranclp_induct)
  case base
  then show ?case using assms(3) by (simp add: evolves_same)
next
  case (step u v)
  then show ?case using id_step_evolves [OF step(2) assms(2)] id_step_ok [OF step(2) assms(2)] evolves_trans by blast
qed

section \<open>Eligibility since a moment\<close>

definition since :: "id_state \<Rightarrow> int \<Rightarrow> int \<Rightarrow> string set" where
  "since s cutoff F = {ctl. \<exists>x y. eligibility_record s ctl = Some (x, y) \<and> x \<le> cutoff \<and> y \<le> F}"

lemma since_frame: "ids_elig s' = ids_elig s \<Longrightarrow> since s' cutoff F = since s cutoff F"
  by (simp add: since_def eligibility_record_def)

lemma refresh_since:
  assumes "docs_ok s" "index_ok s" "mirror_ok s" "nul_free ctl" "in_i64 (block_time c)" "F < block_time c"
  shows "since (refresh_controller c s ctl) cutoff F \<subseteq> since s cutoff F"
proof
  let ?t = "refreshControllerEligibility c s ctl"
  fix a assume "a \<in> since (refresh_controller c s ctl) cutoff F"
  then have a: "a \<in> since ?t cutoff F"
    using since_frame [of "refresh_controller c s ctl" ?t]
    by (simp add: refresh_controller_def refreshControllerSweepStatus_def Let_def)
  show "a \<in> since s cutoff F"
  proof (cases "a = ctl")
    case False
    with a refreshControllerEligibility_spec(3) [OF assms(1-5), of a] show ?thesis by (simp add: since_def)
  next
    case True
    obtain old where old: "eligibility_record s ctl = old" by blast
    note r = refresh_cases [OF old refresh_best [OF assms(1,2,4)], of c]
    show ?thesis
    proof (cases "oldest s ctl")
      case None
      with a r old True show ?thesis by (auto simp: since_def split: option.splits)
    next
      case (Some x)
      have x: "in_i64 x" by (rule oldest_i64 [OF assms(1) Some])
      show ?thesis
      proof (cases "map_option fst old = Some x")
        case same: True
        with a r Some True show ?thesis by simp
      next
        case changed: False
        let ?y = "case old of Some (x', y') \<Rightarrow> if x < x' then block_time c else y' | None \<Rightarrow> block_time c"
        have y: "in_i64 ?y"
          using assms(5) record_in(2) [OF assms(3)] old by (auto split: option.splits prod.splits)
        have "eligibility_record ?t ctl = Some (x, ?y)"
          using r Some changed x y by (simp add: Let_def del: not_None_eq)
        with a True have "x \<le> cutoff" "?y \<le> F" by (auto simp: since_def)
        with assms(6) changed obtain x' y' where "old = Some (x', y')" "x' \<le> x" "y' \<le> F"
          by (cases old) (auto split: if_splits prod.splits)
        with old \<open>x \<le> cutoff\<close> True show ?thesis by (auto simp: since_def)
      qed
    qed
  qed
qed

lemma SetIdentity_since:
  assumes "elig_inv s" "doc_ok d" "in_i64 (block_time c)" "F < block_time c"
  shows "since (SetIdentity c s d) cutoff F \<subseteq> since s cutoff F"
proof -
  let ?s1 = "write_identity s d"
  have i: "docs_ok s" "index_ok s" "mirror_ok s" using assms(1) by (auto simp: elig_inv_def)
  have rec: "ids_elig ?s1 = ids_elig s" "ids_byage ?s1 = ids_byage s" "ids_total ?s1 = ids_total s"
    by (simp_all add: write_identity_def Let_def)
  have b1: "docs_ok ?s1" "index_ok ?s1" "mirror_ok ?s1"
    using write_identity_docs(1) [OF i(1) assms(2)] write_identity_index [OF i(1,2) assms(2)]
      mirror_frame [OF rec] i(3) by simp_all
  have n: "nul_free (d_Controller d)" using assms(2) by (simp add: doc_ok_def)
  let ?s2 = "refresh_controller c ?s1 (d_Controller d)"
  have s2: "since ?s2 cutoff F \<subseteq> since s cutoff F"
    using refresh_since [OF b1 n assms(3,4), of cutoff] since_frame [OF rec(1)] by simp
  note f2 = refresh_repairs [OF b1 n assms(3), where P = "\<lambda>_. False", simplified]
  show ?thesis
  proof (cases "stale_controller s d")
    case None
    then have "SetIdentity c s d = ?s2" by (simp add: SetIdentity_def Let_def)
    with s2 show ?thesis by simp
  next
    case (Some p)
    then obtain prev where prev: "GetIdentity s (d_Did d) = Some prev" "p = d_Controller prev"
      by (auto simp: stale_controllerI split: option.splits if_splits)
    have p: "nul_free p" "p \<noteq> []" using GetIdentity_did(3) [OF i(1) prev(1)] prev(2) by (simp_all add: doc_ok_def)
    have "SetIdentity c s d = refresh_controller c ?s2 p" using Some p(2) by (simp add: SetIdentity_def Let_def)
    with refresh_since [OF f2(1-3) p(1) assms(3,4), of cutoff] s2 show ?thesis by simp
  qed
qed

lemma since_mono:
  assumes "id_step_at D V t w w'" "text_addresses (I_env D)" "id_ok D w" "F < t"
  shows "since (snd w') cutoff F \<subseteq> since (snd w) cutoff F"
  using id_step_at_writes [OF assms(1-3)]
proof
  assume "basis (snd w') = basis (snd w)"
  then show ?thesis using since_frame [of "snd w'" "snd w"] by (simp add: basis_def)
next
  assume "\<exists>c d. block_time c = t \<and> writes_doc c (snd w) (snd w') d"
  then obtain c d where cd: "block_time c = t" "in_i64 (block_time c)" "doc_ok d" "ids_elig (snd w') = ids_elig (SetIdentity c (snd w) d)"
    by (auto simp: writes_doc_def basis_def)
  have "elig_inv (snd w)" using assms(3) by (simp add: id_ok_def id_inv_elig)
  from SetIdentity_since [OF this cd(3,2), of F cutoff] cd(1) assms(4) since_frame [OF cd(4)] show ?thesis by simp
qed

end
