(* ===== verification/IdConsent.thy ===== *)
theory IdConsent
  imports IdWrites
begin

text \<open>
  Who stands behind an approval.  The approvals a request carries, each with the guardian epoch
  its tally is counted under, only ever come from an accepted \<^verbatim>\<open>ApproveRecovery\<close>: every other step
  keeps or drops them.  So an approval found in a reachable state goes back to a message of the
  run, signed by the controller of an active guardian.
\<close>

section \<open>Approvals of a state\<close>

definition marks :: "RecoveryRequest \<Rightarrow> 64 word \<Rightarrow> (string \<times> string \<times> 64 word) set" where
  "marks r e = (\<lambda>g. (rr_Did r, g, e)) ` set (rr_Approvals r)"

definition approvals :: "id_state \<Rightarrow> bytes \<Rightarrow> (string \<times> string \<times> 64 word) set" where
  "approvals s i = (case GetRecoveryRequest s i of
      None \<Rightarrow> {}
    | Some r \<Rightarrow> marks r (recoveryTallyEpoch s i))"

definition no_new :: "id_state \<Rightarrow> id_state \<Rightarrow> bool" where
  "no_new s s' \<longleftrightarrow> (\<forall>i. approvals s' i \<subseteq> approvals s i)"

lemma no_new_refl [simp]: "no_new s s"
  by (simp add: no_new_def)

lemma no_new_trans: "no_new s t \<Longrightarrow> no_new t u \<Longrightarrow> no_new s u"
  unfolding no_new_def by blast

lemma approvals_cong:
  "GetRecoveryRequest s' i = GetRecoveryRequest s i \<Longrightarrow> recoveryTallyEpoch s' i = recoveryTallyEpoch s i
    \<Longrightarrow> approvals s' i = approvals s i"
  by (simp only: approvals_def)

lemma approvals_frame: "ids_recov s' = ids_recov s \<Longrightarrow> ids_tepoch s' = ids_tepoch s \<Longrightarrow> approvals s' = approvals s"
  by (intro ext approvals_cong) (simp_all add: GetRecoveryRequest_def recoveryTallyEpoch_def)

lemma no_new_frame: "ids_recov s' = ids_recov s \<Longrightarrow> ids_tepoch s' = ids_tepoch s \<Longrightarrow> no_new s s'"
  using approvals_frame [of s' s] by (simp add: no_new_def)

lemma approvals_set:
  "approvals (SetRecoveryRequest s r) i = (if i = rr_RecoveryId r then marks r (recoveryTallyEpoch s i) else approvals s i)"
  by (simp add: approvals_def GetRecoveryRequest_Set split: option.split)

lemma approvals_delete:
  "approvals (deleteRecoveryRequest s r) i = (if i = rr_RecoveryId r then {} else approvals s i)"
proof -
  have "GetRecoveryRequest (deleteRecoveryRequest s r) i = (if i = rr_RecoveryId r then None else GetRecoveryRequest s i)"
    by (simp add: GetRecoveryRequest_def key_simps)
  then show ?thesis by (simp add: approvals_def split: option.split)
qed

lemma approvals_tepoch: "i \<noteq> j \<Longrightarrow> approvals (setRecoveryTallyEpoch s j e) i = approvals s i"
proof -
  have "ids_recov (setRecoveryTallyEpoch s j e) = ids_recov s" by (simp add: setRecoveryTallyEpoch_def)
  then show "i \<noteq> j \<Longrightarrow> ?thesis" by (intro approvals_cong) (simp_all add: GetRecoveryRequest_def)
qed

lemma no_new_delete: "no_new s (deleteRecoveryRequest s r)"
  by (simp add: no_new_def approvals_delete)

section \<open>Steps that keep or drop approvals\<close>

lemma no_new_reap: "reapIfExpired E c w r = Inr (t, r', w') \<Longrightarrow> no_new (snd w) (snd w')"
  by (cases w) (auto simp: reapIfExpired_def ok_simps no_new_delete split: if_splits)

lemma no_new_count:
  assumes "countOpenRequests E c w did = Inr (n, w')"
  shows "no_new (snd w) (snd w')"
proof -
  have step: "no_new (snd w) (snd (snd a'))" if "no_new (snd w) (snd (snd a))"
    "(case a of (n, w) \<Rightarrow> bindE (reapIfExpired E c w r) (\<lambda>(terminal, _, w'). Inr (if terminal then n else n + 1, w'))) = Inr a'"
    for r and a a' :: "32 word \<times> id_world"
    using that no_new_trans [OF that(1)] no_new_reap [of E c "snd a" r] by (cases a) (auto simp: ok_simps)
  have "no_new (snd w) (snd (snd (n, w')))"
    by (rule foldE_invariant [where P = "\<lambda>a. no_new (snd w) (snd (snd a))", OF assms [unfolded countOpenRequests_def]])
      (simp, rule step)
  then show ?thesis by simp
qed

lemma no_new_close:
  assumes "close_requests E skip rs w = Inr w'"
  shows "no_new (snd w) (snd w')"
  by (rule foldE_invariant [where P = "\<lambda>a. no_new (snd w) (snd a)", OF assms [unfolded close_requests_def]])
    (auto simp: ok_simps no_new_trans [OF _ no_new_delete] split: if_splits prod.splits)

lemma no_new_walk:
  assumes "\<forall>r \<in> set rs. GetRecoveryRequest s0 (rr_RecoveryId r) = Some r"
    and "\<And>r. rr_RecoveryId (u r) = rr_RecoveryId r \<and> rr_Did (u r) = rr_Did r \<and> rr_Approvals (u r) = rr_Approvals r"
    and "no_new s0 s" "ids_tepoch s = ids_tepoch s0"
  shows "no_new s0 (foldl (\<lambda>s r. if keep r then s else SetRecoveryRequest s (u r)) s rs)"
  using assms(1,3,4)
proof (induction rs arbitrary: s)
  case (Cons r rs)
  have te: "recoveryTallyEpoch s = recoveryTallyEpoch s0" using Cons.prems(3) by (simp add: recoveryTallyEpoch_def fun_eq_iff)
  have "approvals (SetRecoveryRequest s (u r)) i \<subseteq> approvals s0 i" for i
  proof (cases "i = rr_RecoveryId r")
    case True
    have "GetRecoveryRequest s0 i = Some r" using Cons.prems(1) True by simp
    then have "approvals s0 i = marks r (recoveryTallyEpoch s0 i)" by (simp add: approvals_def)
    with True assms(2) [of r] show ?thesis by (simp add: approvals_set te marks_def)
  next
    case False
    with Cons.prems(2) assms(2) [of r] show ?thesis by (simp add: approvals_set no_new_def)
  qed
  then have "no_new s0 (SetRecoveryRequest s (u r))" by (simp add: no_new_def)
  moreover have "ids_tepoch (SetRecoveryRequest s (u r)) = ids_tepoch s0"
    using Cons.prems(3) by (simp add: SetRecoveryRequest_def)
  ultimately show ?case using Cons by simp
qed simp

lemma no_new_SetIdentity:
  assumes "id_inv s" "doc_ok d" "in_i64 (block_time c)"
  shows "no_new s (SetIdentity c s d)"
  using SetIdentity_frame(4,8) [OF _ assms(2,3)] assms(1) by (intro no_new_frame) (simp_all add: id_inv_elig)

lemma no_new_register:
  assumes "text_addresses (I_env D)" "id_inv s" "in_i64 (block_time c)"
    "MsgRegisterIdentity_ValidateBasic (I_env D) m = Inr ()" "RegisterIdentity D c s m = Inr s'"
  shows "no_new s s'"
proof -
  from RegisterIdentity_shape [OF assms(5)] obtain n k where r: "n = SetIdentityCount (markIssuerNonce (setUniqueness
      (SetIdentity c s (new_doc c m)) (ri_UniquenessHash m) (ri_Did m)) (ri_IssuerDid m) (ri_Nonce m)) k"
    "s' = n \<or> (\<exists>p. id_SetParams n p = Inr s')" by metis
  have "ids_recov s' = ids_recov (SetIdentity c s (new_doc c m))" "ids_tepoch s' = ids_tepoch (SetIdentity c s (new_doc c m))"
    using r(2) by (auto simp: r(1) SetIdentityCount_def markIssuerNonce_def setUniqueness_def id_SetParams_def ok_simps)
  from no_new_trans [OF no_new_SetIdentity [OF assms(2) new_doc_ok [OF assms(1,3,4)] assms(3)] no_new_frame [OF this]]
  show ?thesis .
qed

lemma no_new_revoke:
  assumes "id_ok D w" "in_i64 (block_time c)" "RevokeIdentity D c w m = Inr w'"
  shows "no_new (snd w) (snd w')"
proof -
  obtain b s where w: "w = (b, s)" by force
  from assms(3) obtain doc where doc: "GetIdentity s (rv_Did m) = Some doc"
    unfolding RevokeIdentity_def w by (auto split: option.splits)
  let ?d = "doc\<lparr>d_Status := DID_STATUS_REVOKED\<rparr>"
  let ?s0 = "SetIdentity c s ?d"
  from assms(3) doc obtain b' s1 s2 s3 where q: "terminateRecoveryRequestsForDID (I_env D) (b, ?s0) (rv_Did m) = Inr (b', s1)"
    "s2 = DeleteGuardianSet s1 (rv_Did m)"
    "s3 = (case ValidatorForDID s2 (rv_Did m) of None \<Rightarrow> s2 | Some valoper \<Rightarrow> UnbindValidator s2 valoper)"
    "w' = (b', bumpGuardianEpoch s3 (rv_Did m))"
    unfolding RevokeIdentity_def w Let_def by (auto simp: ok_simps split: if_splits)
  have "doc_ok ?d" using id_ok_doc [OF assms(1) [unfolded w] doc] by (auto simp: doc_ok_def)
  from no_new_SetIdentity [OF id_okD(1) [OF assms(1) [unfolded w]] this assms(2)] have "no_new s ?s0" .
  moreover have "no_new ?s0 s1"
    using no_new_close [OF q(1) [unfolded terminateRecoveryRequestsForDID_def snd_conv]] by simp
  moreover have "no_new s1 (snd w')"
    by (rule no_new_frame) (simp_all add: q(2-4) bumpGuardianEpoch_def DeleteGuardianSet_def UnbindValidator_def Let_def split: option.split)
  ultimately have "no_new s (snd w')" by (blast intro: no_new_trans)
  then show ?thesis by (simp add: w)
qed

lemma no_new_rotate:
  assumes "id_ok D (b, s)" "in_i64 (block_time c)" "RotateIdentityKey D c s m = Inr s'"
  shows "no_new s s'"
proof -
  from assms(3) obtain doc where doc: "GetIdentity s (rk_Did m) = Some doc" "s' = SetIdentity c s (doc\<lparr>d_PubKey := rk_NewPubKey m\<rparr>)"
    unfolding RotateIdentityKey_def by (auto simp: ok_simps split: option.splits if_splits)
  have "doc_ok (doc\<lparr>d_PubKey := rk_NewPubKey m\<rparr>)" using id_ok_doc [OF assms(1) doc(1)] by (simp add: doc_ok_def)
  from no_new_SetIdentity [OF id_okD(1) [OF assms(1)] this assms(2)] show ?thesis by (simp add: doc(2))
qed

lemma no_new_status:
  assumes "id_ok D (b, s)" "in_i64 (block_time c)" "UpdateStatus D c s m = Inr s'"
  shows "no_new s s'"
proof -
  from assms(3) obtain doc where doc: "GetIdentity s (us_Did m) = Some doc"
    "us_NewStatus m \<in> {DID_STATUS_ACTIVE, DID_STATUS_SUSPENDED}"
    "s' \<in> {SetIdentity c s (doc\<lparr>d_Status := us_NewStatus m\<rparr>),
       freezeLiveRecoveries c (SetIdentity c s (doc\<lparr>d_Status := us_NewStatus m\<rparr>)) (us_Did m),
       thawRecoveries c (SetIdentity c s (doc\<lparr>d_Status := us_NewStatus m\<rparr>)) (us_Did m)}"
    unfolding UpdateStatus_def Let_def by (auto split: option.splits if_splits)
  let ?s1 = "SetIdentity c s (doc\<lparr>d_Status := us_NewStatus m\<rparr>)"
  note d = id_ok_doc [OF assms(1) doc(1)]
  have dok: "doc_ok (doc\<lparr>d_Status := us_NewStatus m\<rparr>)" using doc(2) d by (auto simp: doc_ok_def)
  have ok: "id_ok D (b, ?s1)"
    by (rule SetIdentity_ok [OF assms(1)]) (use doc(1) d dok assms(2) in simp_all)
  have nf: "nul_free (us_Did m)" using d by (auto simp: doc_ok_def)
  note st = stored_requests(1) [OF id_okD(2) [OF ok] nf]
  have "no_new s ?s1" by (rule no_new_SetIdentity [OF id_okD(1) [OF assms(1)] dok assms(2)])
  moreover have "no_new ?s1 (freezeLiveRecoveries c ?s1 (us_Did m))"
    unfolding freezeLiveRecoveries_def if_chain by (rule no_new_walk [OF st]) simp_all
  moreover have "no_new ?s1 (thawRecoveries c ?s1 (us_Did m))"
    unfolding thawRecoveries_def by (rule no_new_walk [OF st]) (simp_all add: thawed_def)
  ultimately show ?thesis using doc(3) no_new_trans by blast
qed

lemma no_new_initiate:
  assumes "InitiateRecovery D c w m = Inr (i, w')"
  shows "no_new (snd w) (snd w')"
proof -
  from assms obtain n b1 s1 where c1: "countOpenRequests (I_env D) c w (ir_Did m) = Inr (n, (b1, s1))"
    by (auto simp: InitiateRecovery_def Let_def ok_simps)
  with assms obtain r where r: "snd w' = markRecoveryNonce (SetRecoveryRequest s1 r) (ir_Did m) (ir_Nonce m)" "rr_Approvals r = []"
    by (auto simp: InitiateRecovery_def Let_def ok_simps split: if_splits option.splits)
  have "no_new s1 (SetRecoveryRequest s1 r)" by (simp add: no_new_def approvals_set marks_def r(2))
  moreover have "no_new (SetRecoveryRequest s1 r) (snd w')"
    by (rule no_new_frame) (simp_all add: r(1) markRecoveryNonce_def)
  moreover have "no_new (snd w) s1" using no_new_count [OF c1] by simp
  ultimately show ?thesis by (blast intro: no_new_trans)
qed

lemma sync_no_new:
  assumes "syncTallyEpoch s r = (r1, s1)" "GetRecoveryRequest s i = Some r" "rr_RecoveryId r = i"
  shows "i = rr_RecoveryId r1 \<and> rr_Did r1 = rr_Did r \<and> recoveryTallyEpoch s1 i = GuardianEpoch s (rr_Did r)
    \<and> marks r1 (recoveryTallyEpoch s1 i) \<subseteq> approvals s i
    \<and> (\<forall>j. j \<noteq> i \<longrightarrow> approvals s1 j = approvals s j)"
proof (cases "recoveryTallyEpoch s i = GuardianEpoch s (rr_Did r)")
  case True
  with assms have "r1 = r" "s1 = s" by (simp_all add: syncTallyEpoch_def Let_def)
  with True assms show ?thesis by (simp add: approvals_def)
next
  case False
  with assms have "r1 = r\<lparr>rr_Approvals := [], rr_Rejections := []\<rparr>" "s1 = setRecoveryTallyEpoch s i (GuardianEpoch s (rr_Did r))"
    by (auto simp: syncTallyEpoch_def Let_def)
  then show ?thesis using assms(3) approvals_tepoch [of _ i s "GuardianEpoch s (rr_Did r)"]
    by (simp add: marks_def)
qed

lemma marks_upd [simp]:
  "marks (r\<lparr>rr_Rejections := R\<rparr>) e = marks r e"
  "marks (r\<lparr>rr_Approvals := rr_Approvals r @ [g]\<rparr>) e = insert (rr_Did r, g, e) (marks r e)"
  by (simp_all add: marks_def)

lemma no_new_reject:
  assumes "recov_inv D w" "RejectRecovery D c w m = Inr w'"
  shows "no_new (snd w) (snd w')"
proof -
  define upd :: "RecoveryRequest \<Rightarrow> RecoveryRequest" where "upd = (\<lambda>r. r\<lparr>rr_Rejections := rr_Rejections r @ [gv_GuardianDid m]\<rparr>)"
  from assms(2) obtain req wa where live: "live_request (I_env D) c w (gv_RecoveryId m) = Inr (req, wa)"
    by (auto simp: RejectRecovery_def ok_simps)
  obtain req1 s1 where sync: "syncTallyEpoch (snd wa) req = (req1, s1)" by force
  from assms(2) live sync have a: "snd w' = SetRecoveryRequest s1 (upd req1) \<or> snd w' = deleteRecoveryRequest s1 (upd req1)"
    by (cases wa; auto simp: RejectRecovery_def Let_def upd_def ok_simps split: if_splits option.splits)+
  note l = live_request_ok [OF assms(1) live]
  from sync_no_new [OF sync [unfolded l(1)] l(2,3)] a show ?thesis
    by (auto simp: no_new_def approvals_set approvals_delete upd_def split: if_split_asm)
qed

lemma no_new_cancel:
  assumes "CancelRecovery D c w m = Inr w'" "recov_inv D w"
  shows "no_new (snd w) (snd w')"
proof -
  from assms obtain req wa where live: "live_request (I_env D) c w (cr_RecoveryId m) = Inr (req, wa)"
    by (auto simp: CancelRecovery_def ok_simps)
  note l = live_request_ok [OF assms(2) live]
  from assms(1) live have "snd w' = deleteRecoveryRequest (snd w) req"
    unfolding CancelRecovery_def l(1) by (cases w) (auto simp: ok_simps split: option.splits if_splits)
  then show ?thesis by (simp add: no_new_delete)
qed

lemma no_new_execute:
  assumes "text_addresses (I_env D)" "id_ok D w" "in_i64 (block_time c)" "ExecuteRecovery D c w m = Inr w'"
  shows "no_new (snd w) (snd w')"
proof -
  have ri: "recov_inv D w" using assms(2) by (simp add: id_ok_def)
  from ExecuteRecovery_shape [OF ri assms(4)]
  obtain req doc b' where x: "live_request (I_env D) c w (cr_RecoveryId m) = Inr (req, w)"
    "execute_checks D c (snd w) req = Inr doc"
    "supersedeSiblings (I_env D) (b', deleteRecoveryRequest (SetIdentity c (snd w)
       (doc\<lparr>d_PubKey := rr_ProposedNewPubKey req, d_KeyType := rr_KeyType req,
            d_Controller := rr_ProposedNewController req\<rparr>)) req) (rr_Did req) (rr_RecoveryId req) = Inr w'"
    by blast
  let ?d = "doc\<lparr>d_PubKey := rr_ProposedNewPubKey req, d_KeyType := rr_KeyType req, d_Controller := rr_ProposedNewController req\<rparr>"
  have "recov_inv D (fst w, snd w)" using ri by simp
  note q = stored_req_ok(2) [OF this live_request_ok(2) [OF ri x(1)]]
  have "GetIdentity (snd w) (rr_Did req) = Some doc" using execute_checks_doc [OF x(2)] by simp
  from id_ok_doc [of D "fst w" "snd w", OF _ this] have dok: "doc_ok ?d"
    using q assms(1,2) by (auto simp: doc_ok_def req_ok_def text_addresses_def)
  have "id_inv (snd w)" using assms(2) by (simp add: id_ok_def)
  from no_new_SetIdentity [OF this dok assms(3)] no_new_delete
    no_new_close [OF x(3) [unfolded supersedeSiblings_def snd_conv], unfolded snd_conv]
  show ?thesis using no_new_trans by blast
qed

lemma binding_approvals [simp]:
  "approvals (BindValidatorToDID s did v) = approvals s" "approvals (UnbindValidator s v) = approvals s"
  by (rule approvals_frame; simp add: BindValidatorToDID_def UnbindValidator_def Let_def split: option.split)+

lemma no_new_sweep: "SweepValidatorBindings V x s = (x', s', outcomes) \<Longrightarrow> no_new s s'"
  using sweep_frame [where f = approvals, of V x s x' s' outcomes] by (simp add: no_new_def)

section \<open>Accepted approvals\<close>

definition accepted_approval :: "id_deps \<Rightarrow> id_world \<Rightarrow> id_world \<Rightarrow> bytes \<Rightarrow> string \<times> string \<times> 64 word \<Rightarrow> bool" where
  "accepted_approval D u u' i mark \<longleftrightarrow> (case mark of (did, g, e) \<Rightarrow>
     \<exists>c m req gd. ApproveRecovery D c u m = Inr u' \<and> gv_RecoveryId m = i \<and> gv_GuardianDid m = g
       \<and> GetRecoveryRequest (snd u) i = Some req \<and> rr_Did req = did
       \<and> GetIdentity (snd u) g = Some gd \<and> d_Status gd = DID_STATUS_ACTIVE \<and> d_Controller gd = gv_Creator m
       \<and> GuardianEpoch (snd u) did = e)"

lemma openGuardianCommitment_signer:
  assumes "openGuardianCommitment D s did g salt signer = Inr u"
  obtains gd where "GetIdentity s g = Some gd" "d_Status gd = DID_STATUS_ACTIVE" "d_Controller gd = signer"
  using assms by (auto simp: openGuardianCommitment_def split: if_splits option.splits)

lemma approve_marks:
  assumes "recov_inv D w" "ApproveRecovery D c w m = Inr w'" "x \<in> approvals (snd w') i"
  shows "x \<in> approvals (snd w) i \<or> accepted_approval D w w' i x"
proof -
  from assms(2) obtain req wa where live: "live_request (I_env D) c w (gv_RecoveryId m) = Inr (req, wa)"
    by (auto simp: ApproveRecovery_def ok_simps)
  note l = live_request_ok [OF assms(1) live]
  obtain req1 s1 where sync: "syncTallyEpoch (snd w) req = (req1, s1)" by force
  from assms(2) live sync have a: "openGuardianCommitment D (snd w) (rr_Did req) (gv_GuardianDid m) (gv_Salt m) (gv_Creator m) = Inr ()"
    "snd w' = SetRecoveryRequest s1 (req1\<lparr>rr_Approvals := rr_Approvals req1 @ [gv_GuardianDid m]\<rparr>)"
    unfolding l(1) by (cases w; auto simp: ApproveRecovery_def ok_simps split: if_splits)+
  note sy = sync_no_new [OF sync l(2,3)]
  obtain gd where gd: "GetIdentity (snd w) (gv_GuardianDid m) = Some gd" "d_Status gd = DID_STATUS_ACTIVE" "d_Controller gd = gv_Creator m"
    using openGuardianCommitment_signer [OF a(1)] by metis
  show ?thesis
  proof (cases "i = gv_RecoveryId m")
    case False
    with assms(3) a(2) sy show ?thesis by (simp add: approvals_set)
  next
    case True
    with assms(3) a(2) sy have "x \<in> approvals (snd w) i \<or> x = (rr_Did req, gv_GuardianDid m, GuardianEpoch (snd w) (rr_Did req))"
      by (auto simp: approvals_set)
    moreover have "accepted_approval D w w' i (rr_Did req, gv_GuardianDid m, GuardianEpoch (snd w) (rr_Did req))"
      unfolding accepted_approval_def using assms(2) gd True l(2) by auto
    ultimately show ?thesis by blast
  qed
qed

lemma id_step_marks:
  assumes "id_step D V w w'" "text_addresses (I_env D)" "id_ok D w" "x \<in> approvals (snd w') i"
  shows "x \<in> approvals (snd w) i \<or> accepted_approval D w w' i x"
proof -
  have ri: "recov_inv D w" and inv: "id_inv (snd w)" using assms(3) by (simp_all add: id_ok_def)
  have "no_new (snd w) (snd w') \<or> (\<exists>c m. ApproveRecovery D c w m = Inr w')"
    using assms(1)
  proof cases
    case (step_register c m s s' b)
    then show ?thesis using no_new_register [OF assms(2) _ step_register(3-5)] inv by auto
  next
    case (step_revoke c mv)
    then show ?thesis using no_new_revoke [OF assms(3)] by auto
  next
    case (step_rotate c s mk s' b)
    then show ?thesis using no_new_rotate [of D b s c mk s'] assms(3) by auto
  next
    case (step_status c s mu s' b)
    then show ?thesis using no_new_status [of D b s c mu s'] assms(3) by auto
  next
    case (step_execute c mc)
    then show ?thesis using no_new_execute [OF assms(2,3)] by auto
  next
    case (step_initiate mi c i)
    then show ?thesis using no_new_initiate by auto
  next
    case (step_reject c ma)
    then show ?thesis using no_new_reject [OF ri] by auto
  next
    case (step_cancel c mc)
    then show ?thesis using no_new_cancel [OF _ ri] by auto
  next
    case (step_sweep x s x' s' outcomes b)
    then show ?thesis using no_new_sweep by auto
  next
    case (step_issuer s authority issuer s' b)
    then show ?thesis by (auto simp: RegisterTrustedIssuer_def SetTrustedIssuer_def intro!: no_new_frame split: if_splits)
  next
    case (step_revoke_issuer s authority did s' b)
    then show ?thesis
      by (auto simp: RevokeTrustedIssuer_def SetTrustedIssuer_def intro!: no_new_frame split: if_splits option.splits)
  next
    case (step_guardians c s mg s' b)
    then show ?thesis by (auto simp: SetGuardians_def bumpGuardianEpoch_def SetGuardianSet_def Let_def ok_simps
          intro!: no_new_frame split: if_splits option.splits)
  next
    case (step_params s authority p s' b)
    then show ?thesis by (auto simp: id_UpdateParams_def id_SetParams_def ok_simps intro!: no_new_frame split: if_splits)
  next
    case (step_created s v minSelfStake c x s' b)
    then show ?thesis by (auto simp: AfterValidatorCreated_def ok_simps no_new_def split: if_splits option.splits)
  next
    case (step_removed b s v)
    then show ?thesis by (simp add: AfterValidatorRemoved_def no_new_def)
  qed auto
  then show ?thesis
  proof
    assume "no_new (snd w) (snd w')"
    with assms(4) show ?thesis by (auto simp: no_new_def)
  next
    assume "\<exists>c m. ApproveRecovery D c w m = Inr w'"
    then obtain c m where "ApproveRecovery D c w m = Inr w'" by blast
    from approve_marks [OF ri this assms(4)] show ?thesis .
  qed
qed

lemma approvals_backed:
  assumes "id_reachable D V w" "text_addresses (I_env D)" "x \<in> approvals (snd w) i"
  shows "\<exists>u u'. id_reachable D V u \<and> accepted_approval D u u' i x \<and> (id_step D V)\<^sup>*\<^sup>* u' w"
  using assms
proof (induction rule: id_reachable.induct)
  case (id_start b)
  then show ?case by (simp add: approvals_def GetRecoveryRequest_def empty_id_state_def)
next
  case (id_next w w')
  from id_step_marks [OF id_next(2,4) id_reachable_ok [OF id_next(1,4)] id_next(5)] show ?case
  proof
    assume "x \<in> approvals (snd w) i"
    with id_next.IH [OF id_next(4)] id_next(2) show ?thesis by (meson rtranclp.rtrancl_into_rtrancl)
  next
    assume "accepted_approval D w w' i x"
    with id_next(1) show ?thesis by blast
  qed
qed

end
