(* ===== verification/IdExamples.thy ===== *)
theory IdExamples
  imports IdChecks "HOL-Library.Code_Target_Nat"
begin

text \<open>
  A concrete run of the identity module, on which its properties are evaluated: an issuer is
  registered, two people register, one names the other as guardian, loses the key and recovers.
\<close>

definition idenv_example :: sdk_env where
  "idenv_example = \<lparr>AccAddressFromBech32 = (\<lambda>s. if s = [] \<or> CHR 0x00 \<in> set s then None else Some s),
     AccAddress_String = (\<lambda>a. a), ModuleAddress = (\<lambda>m. ''module/'' @ m), LockedCoins = (\<lambda>_. 0)\<rparr>"

definition crypto_example :: crypto_env where
  "crypto_example = \<lparr>Sum256 = (\<lambda>x. if length x < 4 then x else take 32 (rev x)),
     P256_Unmarshal = (\<lambda>b. if length b = 2 then Some (of_char (last b), 0) else None),
     P256_UnmarshalCompressed = (\<lambda>b. None), P256_Marshal = (\<lambda>(x, y). [CHR 0x04, char_of (nat x)]),
     K1_ParsePubKey = (\<lambda>b. None), K1_SerializeCompressed = (\<lambda>_. [])\<rparr>"

text \<open>In this instance a signature of a key is the key itself.\<close>

definition id_deps_example :: id_deps where
  "id_deps_example = \<lparr>I_env = idenv_example, I_authority = ''gov'', I_crypto = crypto_example,
     I_VerifySignature = (\<lambda>_ pk _ sig. sig = pk), I_ReauthRecoveryEnabled = False\<rparr>"

definition pk :: "char \<Rightarrow> bytes" where
  "pk c = [CHR 0x04, c]"

definition did_of :: "char \<Rightarrow> string" where
  "did_of c = (case DeriveDIDFromP256 crypto_example (pk c) of Inr d \<Rightarrow> d | Inl _ \<Rightarrow> [])"

definition at :: "int \<Rightarrow> ctx" where
  "at t = \<lparr>block_time = t, chain_id = ''phi-1'', block_height = 10\<rparr>"

definition register_msg :: "string \<Rightarrow> char \<Rightarrow> MsgRegisterIdentity" where
  "register_msg who c = \<lparr>ri_Creator = who, ri_Did = did_of c, ri_PubKey = pk c, ri_UniquenessHash = [c],
     ri_IssuerDid = ''did:phi:issuer'', ri_IssuerSig = pk (CHR ''i''), ri_Nonce = [c], ri_PopSig = pk c,
     ri_KeyType = KEY_TYPE_SECP256R1\<rparr>"

definition salt_example :: bytes where
  "salt_example = replicate 32 (CHR ''s'')"

definition id_start_example :: id_world where
  "id_start_example = (\<lparr>balances = [(''nina'', 5000000)], total_supply = 5000000\<rparr>, empty_id_state)"

definition issuer_state :: id_state where
  "issuer_state = SetTrustedIssuer empty_id_state \<lparr>ti_Did = ''did:phi:issuer'', ti_PubKey = pk (CHR ''i''), ti_Active = True\<rparr>"

definition alice :: string where "alice = did_of (CHR ''a'')"

definition gus :: string where "gus = did_of (CHR ''g'')"

definition registered_run :: "id_state res" where
  "registered_run =
    bindE (RegisterIdentity id_deps_example (at 1000) issuer_state (register_msg ''alice'' (CHR ''a''))) (\<lambda>s.
    RegisterIdentity id_deps_example (at 2000) s (register_msg ''gus'' (CHR ''g'')))"

definition guardians_msg :: MsgSetGuardians where
  "guardians_msg = \<lparr>sg_Controller = ''alice'', sg_Did = alice,
      sg_Commitments = [GuardianCommitment crypto_example gus salt_example], sg_Threshold = 1\<rparr>"

definition person :: "string \<Rightarrow> char \<Rightarrow> int \<Rightarrow> DIDDocument" where
  "person who c t = \<lparr>d_Did = did_of c, d_Controller = who, d_PubKey = pk c, d_UniquenessHash = [c],
     d_CreatedAt = t, d_Status = DID_STATUS_ACTIVE, d_KeyType = KEY_TYPE_SECP256R1\<rparr>"

text \<open>The state after the two registrations and the guardian message.\<close>

definition guarded_state :: id_state where
  "guarded_state = empty_id_state\<lparr>ids_count := Some 2,
     ids_docs := [(DIDKey alice, person ''alice'' (CHR ''a'') 1000), (DIDKey gus, person ''gus'' (CHR ''g'') 2000)],
     ids_uniq := [(UniquenessKey ''a'', alice), (UniquenessKey ''g'', gus)],
     ids_issuers := ids_issuers issuer_state,
     ids_ctrl := [(ControllerIndexKey ''alice'' alice, [CHR 0x01]), (ControllerIndexKey ''gus'' gus, [CHR 0x01])],
     ids_inonce := [(IssuerNonceKey ''did:phi:issuer'' ''a'', [CHR 0x01]), (IssuerNonceKey ''did:phi:issuer'' ''g'', [CHR 0x01])],
     ids_guardians := [(GuardiansKey alice, \<lparr>gs_Did = alice, gs_Commitments = sg_Commitments guardians_msg,
       gs_Threshold = 1, gs_UpdatedAt = 3000\<rparr>)],
     ids_elig := [(ControllerEligibilityKey ''alice'', EncodeControllerEligibility 1000 1000),
       (ControllerEligibilityKey ''gus'', EncodeControllerEligibility 2000 2000)],
     ids_byage := [(EligibilityByAgeKey 1000 ''alice'', [CHR 0x01]), (EligibilityByAgeKey 2000 ''gus'', [CHR 0x01])],
     ids_total := Some 2, ids_gepoch := [(GuardianEpochKey alice, encodeEpoch 1)],
     ids_sweep := [(ControllerSweepKey ''alice'', CHR 0x00 # alice), (ControllerSweepKey ''gus'', CHR 0x00 # gus)]\<rparr>"

definition initiate_msg :: MsgInitiateRecovery where
  "initiate_msg = \<lparr>ir_Creator = ''nina'', ir_Did = alice, ir_ProposedNewPubKey = pk (CHR ''n''),
     ir_KeyType = KEY_TYPE_SECP256R1, ir_Method = RECOVERY_METHOD_SOCIAL, ir_Nonce = ''n1'', ir_PopSig = pk (CHR ''n''),
     ir_ReauthAttestation = [], ir_AttestorDid = []\<rparr>"

definition rid :: bytes where
  "rid = DeriveRecoveryID crypto_example alice (pk (CHR ''n'')) ''n1''"

definition request_example :: "string list \<Rightarrow> RecoveryRequest" where
  "request_example approvals = \<lparr>rr_RecoveryId = rid, rr_Did = alice, rr_ProposedNewPubKey = pk (CHR ''n''),
     rr_ProposedNewController = ''nina'', rr_KeyType = KEY_TYPE_SECP256R1, rr_Method = RECOVERY_METHOD_SOCIAL,
     rr_Approvals = approvals, rr_Nonce = ''n1'', rr_InitiatedAt = 4000, rr_ExecuteAfter = 263200,
     rr_ExpiresAt = 1213600, rr_DepositUphi = ''1000000'', rr_Status = RECOVERY_STATUS_PENDING, rr_AttestorDid = [],
     rr_FeeUphi = ''0'', rr_Rejections = [], rr_FrozenAt = 0\<rparr>"

text \<open>The worlds after the request and after the guardian's approval.\<close>

definition initiated_world :: id_world where
  "initiated_world = (\<lparr>balances = [(''module/identity'', 1000000), (''nina'', 4000000)], total_supply = 5000000\<rparr>,
     guarded_state\<lparr>ids_recov := [(RecoveryKey rid, request_example [])], ids_bydid := [(RecoveryByDIDKey alice rid, [CHR 0x01])],
       ids_rnonce := [(RecoveryNonceKey alice ''n1'', [CHR 0x01])]\<rparr>)"

definition approve_msg :: MsgGuardianVote where
  "approve_msg = \<lparr>gv_Creator = ''gus'', gv_RecoveryId = rid, gv_GuardianDid = gus, gv_Salt = salt_example\<rparr>"

definition approved_world :: id_world where
  "approved_world = (fst initiated_world, (snd initiated_world)
     \<lparr>ids_recov := [(RecoveryKey rid, request_example [gus])], ids_tepoch := [(RecoveryTallyEpochKey rid, encodeEpoch 1)]\<rparr>)"

definition execute_msg :: MsgCloseRecovery where
  "execute_msg = \<lparr>cr_Creator = ''anyone'', cr_RecoveryId = rid\<rparr>"

definition recovered_alice :: DIDDocument where
  "recovered_alice = (person ''alice'' (CHR ''a'') 1000)\<lparr>d_PubKey := pk (CHR ''n''), d_KeyType := KEY_TYPE_SECP256R1,
     d_Controller := ''nina''\<rparr>"

definition executed_world :: id_world where
  "executed_world = (fst id_start_example,
     deleteRecoveryRequest (SetIdentity (at 300000) (snd approved_world) recovered_alice) (request_example [gus]))"

text \<open>Evaluation of the sortable timestamps of this run by short arithmetic.\<close>

lemma be_append: "be (m + n) v = be m (v div 256 ^ n) @ be n v"
  by (induction n arbitrary: v) (simp_all add: div_mult2_eq)

lemma be_shift: "be n (v + k * 256 ^ n) = be n v"
proof (induction n arbitrary: v)
  case (Suc n)
  have "(v + k * 256 ^ Suc n) div 256 = v div 256 + k * 256 ^ n" by (simp add: mult.assoc [symmetric] mult.commute [of 256])
  moreover have "(v + k * 256 ^ Suc n) mod 256 = v mod 256"
    using mod_mult_self2 [of v 256 "k * 256 ^ n"] by (simp add: mult.left_commute)
  then have "char_of (v + k * 256 ^ Suc n) = (char_of v :: char)"
    by (metis char_of_mod_256)
  ultimately show ?case using Suc by simp
qed simp

lemma SortableInt64_small:
  assumes "0 \<le> v" "v < 4294967296"
  shows "SortableInt64 v = [CHR 0x80, CHR 0x00, CHR 0x00, CHR 0x00] @ be 4 (nat v)"
proof -
  have "uint (word_of_int v + 2 ^ 63 :: 64 word) = v + 9223372036854775808"
    using assms by (simp add: uint_word_ariths uint_word_of_int)
  then have "SortableInt64 v = be (4 + 4) (nat v + 9223372036854775808)"
    unfolding SortableInt64_def msb_flip be64_def unat_eq_nat_uint using assms by (simp add: nat_add_distrib)
  also have "\<dots> = be 4 ((nat v + 9223372036854775808) div 256 ^ 4) @ be 4 (nat v + 9223372036854775808)"
    by (rule be_append)
  also have "(nat v + 9223372036854775808) div 256 ^ 4 = 2147483648" using assms by simp
  also have "be 4 2147483648 = [CHR 0x80, CHR 0x00, CHR 0x00, CHR 0x00]" by code_simp
  also have "be 4 (nat v + 9223372036854775808) = be 4 (nat v)" using be_shift [of 4 "nat v" 2147483648] by simp
  finally show ?thesis .
qed

lemma SortableInt64_code [code]:
  "SortableInt64 v = (if 0 \<le> v \<and> v < 4294967296 then [CHR 0x80, CHR 0x00, CHR 0x00, CHR 0x00] @ be 4 (nat v)
     else be64 (word_of_int v XOR push_bit 63 1))"
  using SortableInt64_small [of v] by (simp add: SortableInt64_def)

lemma ParseSortableInt64_code [code]:
  "ParseSortableInt64 b = (if length b = 8 \<and> take 4 b = [CHR 0x80, CHR 0x00, CHR 0x00, CHR 0x00] then int (be_dec (drop 4 b))
     else sint (dec64 b XOR push_bit 63 1))"
proof (cases "length b = 8 \<and> take 4 b = [CHR 0x80, CHR 0x00, CHR 0x00, CHR 0x00]")
  case True
  let ?v = "int (be_dec (drop 4 b))"
  have v: "0 \<le> ?v" "?v < 4294967296" using be_dec_less [of "drop 4 b"] True by simp_all
  have "b = SortableInt64 ?v"
    using SortableInt64_small [OF v] True be_be_dec [of "drop 4 b" 4] append_take_drop_id [of 4 b] by simp
  then have "ParseSortableInt64 b = ?v" using ParseSortable_Sortable [of ?v] v by (simp add: in_i64_def)
  with True show ?thesis by simp
next
  case False
  then show ?thesis by (simp only: if_False ParseSortableInt64_def)
qed

lemma guarded_eval: "bindE registered_run (\<lambda>s. SetGuardians (at 3000) s guardians_msg) = Inr guarded_state"
  by code_simp

lemma initiated_eval:
  "InitiateRecovery id_deps_example (at 4000) (fst id_start_example, guarded_state) initiate_msg = Inr (rid, initiated_world)"
  by code_simp

lemma approved_eval: "ApproveRecovery id_deps_example (at 5000) initiated_world approve_msg = Inr approved_world"
  by code_simp

lemma execute_parts:
  "live_request idenv_example (at 300000) approved_world rid = Inr (request_example [gus], approved_world)"
  "execute_checks id_deps_example (at 300000) (snd approved_world) (request_example [gus]) = Inr (person ''alice'' (CHR ''a'') 1000)"
  "refundDeposit idenv_example (fst approved_world) (request_example [gus]) = Inr (fst id_start_example)"
  by code_simp+

lemma text_example: "text_addresses (I_env id_deps_example)"
  by (simp add: text_addresses_def id_deps_example_def idenv_example_def)

lemma example_checks:
  "MsgRegisterIdentity_ValidateBasic idenv_example (register_msg ''alice'' (CHR ''a'')) = Inr ()"
  "MsgRegisterIdentity_ValidateBasic idenv_example (register_msg ''gus'' (CHR ''g'')) = Inr ()"
  "in_i64 1000 \<and> in_i64 2000 \<and> in_i64 300000"
  "RegisterTrustedIssuer id_deps_example empty_id_state ''gov'' \<lparr>ti_Did = ''did:phi:issuer'', ti_PubKey = pk (CHR ''i''), ti_Active = True\<rparr>
    = Inr issuer_state"
  "initiator_ok idenv_example initiate_msg"
  by code_simp+

lemma example_fields [simp]:
  "I_env id_deps_example = idenv_example" "block_time (at t) = t"
  by (simp_all add: id_deps_example_def at_def)

text \<open>A staking side with one validator, operated by Alice; its state lists what was done to it.\<close>

definition vals_example :: "string list val_ops" where
  "vals_example = \<lparr>vo_LastValidators = (\<lambda>x. Inr [\<lparr>vi_Operator = ''val1'', vi_ConsAddr = Some ''cons1'', vi_Jailed = x \<noteq> []\<rparr>]),
     vo_Jail = (\<lambda>x a. Inr (''jail'' # x)), vo_IsTombstoned = (\<lambda>x a. ''tombstone'' \<in> set x),
     vo_Tombstone = (\<lambda>x a. ''tombstone'' # x), vo_JailUntil = (\<lambda>x a. x), vo_OperatorAccount = (\<lambda>v. ''alice''),
     vo_MinSelfDelegation = (\<lambda>x v. Inr 100)\<rparr>"

abbreviation example_reachable :: "id_world \<Rightarrow> bool" where
  "example_reachable w \<equiv> id_reachable id_deps_example vals_example w"

lemma guarded_reachable: "example_reachable (fst id_start_example, guarded_state)"
proof -
  let ?b = "fst id_start_example"
  have "GetBalance ?b (ModuleAddress idenv_example id_ModuleName) = 0" by code_simp
  then have "example_reachable (?b, empty_id_state)" by (intro id_start) simp
  then have i: "example_reachable (?b, issuer_state)" using example_checks(4) by (blast intro: id_next step_issuer)
  from guarded_eval obtain s1 s2 where s:
    "RegisterIdentity id_deps_example (at 1000) issuer_state (register_msg ''alice'' (CHR ''a'')) = Inr s1"
    "RegisterIdentity id_deps_example (at 2000) s1 (register_msg ''gus'' (CHR ''g'')) = Inr s2"
    "SetGuardians (at 3000) s2 guardians_msg = Inr guarded_state"
    by (auto simp: registered_run_def bindE_Inr_iff)
  have "example_reachable (?b, s1)"
    by (rule id_next [OF i step_register [OF _ _ s(1)]]) (use example_checks in simp_all)
  from id_next [OF this step_register [OF _ _ s(2)]] example_checks have "example_reachable (?b, s2)" by simp
  from id_next [OF this step_guardians [OF s(3)]] show ?thesis .
qed

lemma approved_reachable: "example_reachable initiated_world" "example_reachable approved_world"
proof -
  have "id_step id_deps_example V (fst id_start_example, guarded_state) initiated_world" for V :: "string list val_ops"
    by (rule step_initiate [OF _ initiated_eval]) (simp add: example_checks(5))
  from id_next [OF guarded_reachable this] show i: "example_reachable initiated_world" .
  from id_next [OF i step_approve [OF approved_eval]] show "example_reachable approved_world" .
qed

lemma executed_eval: "ExecuteRecovery id_deps_example (at 300000) approved_world execute_msg = Inr executed_world"
proof -
  have ok: "elig_inv (snd approved_world)"
    using id_reachable_ok [OF approved_reachable(2) text_example] by (simp add: id_ok_def id_inv_elig)
  have d: "doc_ok recovered_alice" by code_simp
  have bd: "ids_bydid (snd approved_world) = [(RecoveryByDIDKey alice rid, [CHR 0x01])]"
    by (simp add: approved_world_def initiated_world_def)
  have "in_i64 (block_time (at 300000))" using example_checks(3) by simp
  from SetIdentity_frame(5) [OF ok d this]
  have "ids_bydid (snd executed_world) = []"
    by (simp add: executed_world_def bd) (simp add: request_example_def kv_delete_def)
  then have none: "RecoveryRequestsForDID (snd executed_world) did = []" for did
    by (simp add: RecoveryRequestsForDID_def Let_def kv_prefix_def map_filter_def)
  have doc: "(person ''alice'' (CHR ''a'') 1000)\<lparr>d_PubKey := rr_ProposedNewPubKey (request_example [gus]),
      d_KeyType := rr_KeyType (request_example [gus]), d_Controller := rr_ProposedNewController (request_example [gus])\<rparr>
    = recovered_alice"
    by (simp add: recovered_alice_def request_example_def)
  have "live_request idenv_example (at 300000) approved_world (cr_RecoveryId execute_msg)
      = Inr (request_example [gus], fst approved_world, snd approved_world)"
    using execute_parts(1) by (simp add: execute_msg_def)
  then have "ExecuteRecovery id_deps_example (at 300000) approved_world execute_msg
      = supersedeSiblings idenv_example executed_world (rr_Did (request_example [gus])) (rr_RecoveryId (request_example [gus]))"
    using execute_parts(2,3) by (simp add: ExecuteRecovery_def Let_def case_prod_beta doc executed_world_def)
  then show ?thesis by (simp add: supersedeSiblings_def close_requests_def none)
qed

lemma executed_reachable: "example_reachable executed_world"
  using id_next [OF approved_reachable(2) step_execute [OF _ executed_eval]] example_checks(3) by simp

end
