(* ===== verification/IdProps.thy ===== *)
theory IdProps
  imports IdConsent IdExamples
begin

text \<open>
  What the identity module guarantees: its registered invariants, the quorum denominator, one
  document per person, guarded recovery, escrowed deposits and one DID per validator.
\<close>

section \<open>Registered invariants\<close>

text \<open>
  C25: The four registered invariants (uniqueness bijection, controller index, status validity and
  the eligibility index) hold in every state reachable by any interleaving of identity messages,
  staking hooks, block sweeps and foreign ledger activity, provided accepted address strings are
  non-empty and free of NUL bytes, as bech32 strings are.  The runs start from the empty store; a
  genesis import is not among their steps.
\<close>

theorem reachable_identity_invariants:
  assumes "id_reachable D V w" "text_addresses (I_env D)"
  shows "\<not> id_AllInvariants (snd w)"
  using id_reachable_ok [OF assms] by (simp add: id_ok_def invariants_hold)

theorem reachable_identity_invariants_witness: "\<not> id_AllInvariants (snd executed_world)"
  by (rule reachable_identity_invariants [OF executed_reachable text_example])

section \<open>The quorum denominator\<close>

text \<open>
  C28: The incrementally maintained denominator of a public vote agrees with the definition read off
  the documents: as long as at most 5,000,000 controllers are too young, it is the number of
  distinct controllers with a document that is not revoked and old enough; beyond that scan
  ceiling it errs upwards only.  This is for states of runs that start from the empty store.
\<close>

theorem eligible_count_exact:
  fixes t minAge :: int
  assumes "id_reachable D V w" "text_addresses (I_env D)" "card (standing_controllers (snd w)) < 2 ^ 64"
  defines "E \<equiv> eligible_controllers (snd w) (age_cutoff t minAge)"
  shows "card E \<le> unat (CountEligibleControllersAt (snd w) t minAge)
    \<and> (card (standing_controllers (snd w) - E) \<le> 5000000
      \<longrightarrow> unat (CountEligibleControllersAt (snd w) t minAge) = card E)"
proof -
  have inv: "id_inv (snd w)" using id_reachable_ok [OF assms(1,2)] by (simp add: id_ok_def)
  let ?S = "standing_controllers (snd w)"
  have sub: "E \<subseteq> ?S" unfolding E_def eligible_controllers_def standing_controllers_def by auto
  have fin: "finite ?S" by (simp add: standing_controllers_def)
  have "card (?S - E) = card ?S - card E" "card E \<le> card ?S"
    using card_Diff_subset [OF finite_subset [OF sub fin] sub] card_mono [OF fin sub] by simp_all
  then show ?thesis using count_eligible [OF inv assms(3), of t minAge] by (simp add: E_def)
qed

lemma guarded_docs: "all_docs guarded_state = {person ''alice'' (CHR ''a'') 1000, person ''gus'' (CHR ''g'') 2000}"
  by (simp add: all_docs_def guarded_state_def)

lemma filter_two: "{x \<in> {a, b}. P x} = (if P a then {a} else {}) \<union> (if P b then {b} else {})"
  by auto

theorem eligible_count_exact_witness:
  "unat (CountEligibleControllersAt guarded_state (2500 * nanos) (1000 * nanos)) = 1"
proof -
  have cut: "age_cutoff (2500 * nanos) (1000 * nanos) = 1500" by (simp add: age_cutoff_def nanos_def i64_def)
  have S: "standing_controllers guarded_state = {''alice'', ''gus''}"
    unfolding standing_controllers_def guarded_docs filter_two by (simp add: person_def insert_commute)
  have E: "eligible_controllers guarded_state 1500 = {''alice''}"
    unfolding eligible_controllers_def guarded_docs filter_two by (simp add: person_def)
  have "{''alice'', ''gus''} - {''alice''} = {''gus''}" by auto
  then show ?thesis
    using eligible_count_exact [OF guarded_reachable text_example, of "2500 * nanos" "1000 * nanos"]
    by (simp add: cut S E)
qed

section \<open>One document per person, for good\<close>

text \<open>
  C26: One person, one document, for good.  A registered document is never deleted, keeps its
  uniqueness marker and creation time through every later run, no other document ever carries
  that marker, and a registration with it is refused, also after the document was revoked.  The
  runs start from the empty store.
\<close>

theorem one_human_one_did:
  assumes "id_reachable D V w" "text_addresses (I_env D)" "GetIdentity (snd w) did = Some doc"
    "(id_step D V)\<^sup>*\<^sup>* w w'"
  shows "\<exists>doc'. GetIdentity (snd w') did = Some doc' \<and> d_UniquenessHash doc' = d_UniquenessHash doc
      \<and> d_CreatedAt doc' = d_CreatedAt doc
      \<and> (\<forall>did2 doc2. GetIdentity (snd w') did2 = Some doc2 \<longrightarrow> d_UniquenessHash doc2 = d_UniquenessHash doc \<longrightarrow> did2 = did)
      \<and> (\<forall>c m. ri_UniquenessHash m = d_UniquenessHash doc \<longrightarrow>
          RegisterIdentity D c (snd w') m \<in> {Inl ErrIdentityExists, Inl ErrUniquenessUsed})"
proof -
  have st: "evolves (snd w) (snd w')" "id_ok D w'"
    using id_steps_evolve [OF assms(4,2) id_reachable_ok [OF assms(1,2)]] by blast+
  from st(1) assms(3) obtain doc' where doc': "GetIdentity (snd w') did = Some doc'"
    "d_UniquenessHash doc' = d_UniquenessHash doc" "d_CreatedAt doc' = d_CreatedAt doc" unfolding evolves_def by blast
  have i: "docs_ok (snd w')" "uniq_ok (snd w')" using st(2) by (simp_all add: id_ok_def id_inv_def)
  have marker: "kv_get (ids_uniq (snd w')) (UniquenessKey (d_UniquenessHash e)) = Some d"
    if "GetIdentity (snd w') d = Some e" for d e
  proof -
    note g = GetIdentity_did [OF i(1) that]
    have "(UniquenessKey (d_UniquenessHash e), d) \<in> set (ids_uniq (snd w'))" using i(2) g(1,2) by (auto simp: uniq_ok_def)
    then show ?thesis using kv_get_mem [of "ids_uniq (snd w')"] i(2) by (simp add: uniq_ok_def)
  qed
  have "did2 = did" if "GetIdentity (snd w') did2 = Some doc2" "d_UniquenessHash doc2 = d_UniquenessHash doc" for did2 doc2
    using marker [OF that(1)] marker [OF doc'(1)] that(2) doc'(2) by simp
  moreover have "RegisterIdentity D c (snd w') m \<in> {Inl ErrIdentityExists, Inl ErrUniquenessUsed}"
    if "ri_UniquenessHash m = d_UniquenessHash doc" for c m
    using marker [OF doc'(1)] that doc'(2) by (simp add: RegisterIdentity_def HasUniqueness_def kv_has_def)
  ultimately show ?thesis using doc' by blast
qed

lemma guarded_alice: "GetIdentity guarded_state alice = Some (person ''alice'' (CHR ''a'') 1000)"
  by (simp add: GetIdentity_def guarded_state_def)

lemma example_steps: "(id_step id_deps_example vals_example)\<^sup>*\<^sup>* (fst id_start_example, guarded_state) executed_world"
proof -
  have "id_step id_deps_example vals_example (fst id_start_example, guarded_state) initiated_world"
    by (rule step_initiate [OF _ initiated_eval]) (simp add: example_checks(5))
  moreover have "id_step id_deps_example vals_example initiated_world approved_world"
    by (rule step_approve [OF approved_eval])
  moreover have "id_step id_deps_example vals_example approved_world executed_world"
    by (rule step_execute [OF _ executed_eval]) (simp add: example_checks(3))
  ultimately show ?thesis by (meson converse_rtranclp_into_rtranclp rtranclp.rtrancl_refl)
qed

theorem one_human_one_did_witness:
  "\<exists>doc'. GetIdentity (snd executed_world) alice = Some doc' \<and> d_UniquenessHash doc' = ''a''
    \<and> RegisterIdentity id_deps_example (at 400000) (snd executed_world) (register_msg ''mallory'' (CHR ''a''))
      \<in> {Inl ErrIdentityExists, Inl ErrUniquenessUsed}"
  using one_human_one_did [OF guarded_reachable text_example _ example_steps, unfolded snd_conv, OF guarded_alice]
  by (auto simp: person_def register_msg_def)

text \<open>
  C29: Revocation is final.  Once a document is revoked, no later message, hook or sweep changes
  any field of it, its key and controller included.  The runs start from the empty store.
\<close>

theorem revocation_is_final:
  assumes "id_reachable D V w" "text_addresses (I_env D)" "GetIdentity (snd w) did = Some doc"
    "d_Status doc = DID_STATUS_REVOKED" "(id_step D V)\<^sup>*\<^sup>* w w'"
  shows "GetIdentity (snd w') did = Some doc"
proof -
  have "evolves (snd w) (snd w')"
    using id_steps_evolve [OF assms(5,2) id_reachable_ok [OF assms(1,2)]] by blast
  with assms(3,4) show ?thesis unfolding evolves_def by blast
qed

definition revoked_alice :: DIDDocument where
  "revoked_alice = (person ''alice'' (CHR ''a'') 1000)\<lparr>d_Status := DID_STATUS_REVOKED\<rparr>"

definition revoked_state :: id_state where
  "revoked_state = bumpGuardianEpoch (DeleteGuardianSet (SetIdentity (at 6000) guarded_state revoked_alice) alice) alice"

lemma guarded_elig: "elig_inv guarded_state"
  using id_reachable_ok [OF guarded_reachable text_example] by (simp add: id_ok_def id_inv_elig)

lemma revoked_eval:
  "RevokeIdentity id_deps_example (at 6000) (fst id_start_example, guarded_state) \<lparr>rv_Creator = ''alice'', rv_Did = alice\<rparr>
    = Inr (fst id_start_example, revoked_state)"
  "GetIdentity revoked_state alice = Some revoked_alice" "in_i64 6000"
proof -
  let ?s = "SetIdentity (at 6000) guarded_state revoked_alice"
  have d: "doc_ok revoked_alice" by code_simp
  show t: "in_i64 6000" by code_simp
  then have t': "in_i64 (block_time (at 6000))" by simp
  note f = SetIdentity_frame [OF guarded_elig d t']
  have e: "ids_bydid guarded_state = []" "ids_did2val guarded_state = []"
    by (simp_all add: guarded_state_def empty_id_state_def)
  have none: "RecoveryRequestsForDID ?s did = []" for did
    by (simp add: RecoveryRequestsForDID_def Let_def kv_prefix_def map_filter_def f(5) e(1))
  have unb: "ValidatorForDID (DeleteGuardianSet ?s alice) did = None" for did
    by (simp add: ValidatorForDID_def DeleteGuardianSet_def f(9) e(2))
  have doc: "(person ''alice'' (CHR ''a'') 1000)\<lparr>d_Status := DID_STATUS_REVOKED\<rparr> = revoked_alice" by (simp add: revoked_alice_def)
  have p: "d_Controller (person ''alice'' (CHR ''a'') 1000) = ''alice''" "d_Status (person ''alice'' (CHR ''a'') 1000) = DID_STATUS_ACTIVE"
    by (simp_all add: person_def)
  show "RevokeIdentity id_deps_example (at 6000) (fst id_start_example, guarded_state) \<lparr>rv_Creator = ''alice'', rv_Did = alice\<rparr>
    = Inr (fst id_start_example, revoked_state)"
    by (simp add: RevokeIdentity_def guarded_alice p doc terminateRecoveryRequestsForDID_def close_requests_def none unb
        revoked_state_def)
  have "GetIdentity ?s alice = Some revoked_alice"
    using SetIdentity_docs(2) [OF guarded_elig d t', of alice] by (simp add: revoked_alice_def person_def alice_def)
  then show "GetIdentity revoked_state alice = Some revoked_alice"
    by (simp add: revoked_state_def GetIdentity_def bumpGuardianEpoch_def DeleteGuardianSet_def Let_def)
qed

lemma revoked_reachable: "example_reachable (fst id_start_example, revoked_state)"
  by (rule id_next [OF guarded_reachable step_revoke [OF _ revoked_eval(1)]]) (simp add: revoked_eval(3))

theorem revocation_is_final_witness:
  "GetIdentity (AfterValidatorRemoved revoked_state ''val1'') alice = Some revoked_alice"
proof -
  have "(id_step id_deps_example vals_example)\<^sup>*\<^sup>* (fst id_start_example, revoked_state)
      (fst id_start_example, AfterValidatorRemoved revoked_state ''val1'')"
    using step_removed [of id_deps_example vals_example "fst id_start_example" revoked_state "''val1''"] by (rule r_into_rtranclp)
  from revocation_is_final [OF revoked_reachable text_example, unfolded snd_conv, OF revoked_eval(2) _ this]
  show ?thesis by (simp add: revoked_alice_def)
qed

section \<open>Recovery\<close>



text \<open>
  C30: The deposit of every open request can always be paid out of the module account: forfeiting
  it succeeds, and refunding it succeeds whenever the recipient may receive funds, as long as
  the ledger itself is consistent and module accounts are not vesting.  The runs start from the
  empty store, and in them other modules never lower the balance of the identity module account.
\<close>

theorem deposits_always_settle:
  assumes "id_reachable D V w" "text_addresses (I_env D)" "bank_inv (fst w)"
    "LockedCoins (I_env D) (ModuleAddress (I_env D) id_ModuleName) = 0"
    "GetRecoveryRequest (snd w) i = Some r"
  shows "isOK (forfeitDeposit (I_env D) (fst w) r)
    \<and> (\<forall>a. AccAddressFromBech32 (I_env D) (rr_ProposedNewController r) = Some a \<longrightarrow> \<not> BlockedAddr (I_env D) a
        \<longrightarrow> isOK (refundDeposit (I_env D) (fst w) r))"
proof -
  let ?E = "I_env D" and ?M = "ModuleAddress (I_env D) id_ModuleName"
  have ri: "recov_ok ?E (snd w)" "escrowed ?E w"
    using id_reachable_ok [OF assms(1,2)] by (simp_all add: id_ok_def recov_inv_def)
  have m: "(RecoveryKey i, r) \<in> set (ids_recov (snd w))"
    using assms(5) kv_get_in by (simp add: GetRecoveryRequest_def)
  have "0 \<le> (case e of (k, r) \<Rightarrow> deposit r)" if "e \<in> set (ids_recov (snd w))" for e
    using that recov_entry [OF ri(1), of "fst e" "snd e"] by (simp add: req_ok_def case_prod_beta)
  then have "deposit r \<le> deposit_total (snd w)"
    unfolding deposit_total_def using sum_list_nonneg_member [OF _ m, of "\<lambda>(k, r). deposit r"] by simp
  then have bal: "deposit r \<le> GetBalance (fst w) ?M - LockedCoins ?E ?M"
    using ri(2) assms(4) by (simp add: escrowed_def)
  have perms: "map_of maccPerms id_ModuleName \<noteq> None" "map_of maccPerms id_FeeCollectorName \<noteq> None"
    by (simp_all add: maccPerms_def id_ModuleName_def id_FeeCollectorName_def)
  have send: "isOK (SendCoins ?E (fst w) ?M y n)" if "NewIntFromString (rr_DepositUphi r) = Some n" "0 < n" for y n
  proof -
    have "deposit r = n" using that by (simp add: deposit_def amount_or_zero_def)
    with bal that send_possible [OF assms(3), of n ?E ?M y] assms(4) show ?thesis by (auto simp: isOK_iff)
  qed
  have "isOK (forfeitDeposit ?E (fst w) r)"
    using send perms by (auto simp: forfeitDeposit_def SendCoinsFromModuleToModule_def isOK_iff split: option.split)
  moreover have "isOK (refundDeposit ?E (fst w) r)"
    if "AccAddressFromBech32 ?E (rr_ProposedNewController r) = Some a" "\<not> BlockedAddr ?E a" for a
    using send perms that by (auto simp: refundDeposit_def SendCoinsFromModuleToAccount_def isOK_iff split: option.split)
  ultimately show ?thesis by blast
qed

theorem deposits_always_settle_witness:
  "isOK (forfeitDeposit idenv_example (fst approved_world) (request_example [gus]))"
proof -
  have "GetRecoveryRequest (snd approved_world) rid = Some (request_example [gus])"
    by (simp add: GetRecoveryRequest_def approved_world_def)
  moreover have "bank_inv (fst approved_world)" by code_simp
  moreover have "LockedCoins idenv_example x = 0" for x by (simp add: idenv_example_def)
  ultimately show ?thesis
    using deposits_always_settle [OF approved_reachable(2) text_example, of rid "request_example [gus]"] by simp
qed

text \<open>
  C32: An expired request that is not held by a suspension is refused by every message that names
  it.  The refusal also discards the expiry bookkeeping of the same message, so the deposit is
  settled only when a new request for the DID is opened, or the document is revoked or recovered.
\<close>

theorem expired_request_refused:
  assumes "GetRecoveryRequest (snd w) i = Some r" "rr_ExpiresAt r < block_time c"
    "rr_FrozenAt r = 0 \<or> \<not> recoveryFrozenBySuspension (snd w) (rr_Did r)"
  shows "(gv_RecoveryId v = i \<longrightarrow> \<not> isOK (ApproveRecovery D c w v) \<and> \<not> isOK (RejectRecovery D c w v))
    \<and> (cr_RecoveryId m = i \<longrightarrow> \<not> isOK (ExecuteRecovery D c w m) \<and> \<not> isOK (CancelRecovery D c w m))"
proof -
  obtain b s where w: "w = (b, s)" by force
  have "\<exists>e. live_request (I_env D) c w i = Inl e"
    using assms by (cases "forfeitDeposit (I_env D) b r")
      (auto simp: w live_request_def reapIfExpired_def)
  then show ?thesis
    by (auto simp: isOK_iff ApproveRecovery_def RejectRecovery_def ExecuteRecovery_def CancelRecovery_def)
qed

theorem expired_request_refused_witness:
  "\<not> isOK (CancelRecovery id_deps_example (at 2000000) approved_world execute_msg)"
proof -
  have "GetRecoveryRequest (snd approved_world) rid = Some (request_example [gus])"
    by (simp add: GetRecoveryRequest_def approved_world_def)
  from expired_request_refused [OF this, of "at 2000000" approve_msg id_deps_example execute_msg]
  show ?thesis by (simp add: request_example_def execute_msg_def)
qed

section \<open>Validators\<close>

text \<open>
  C31: The two validator indexes are inverse to each other in every reachable state, so a DID
  backs at most one validator and a validator is backed by at most one DID.  The runs start from
  the empty store, and in them staking calls the creation hook only for an operator that is not
  bound yet.
\<close>

theorem validator_bijection:
  assumes "id_reachable D V w" "text_addresses (I_env D)"
  shows "ValidatorForDID (snd w) did = Some v \<longleftrightarrow> DIDForValidator (snd w) v = Some did"
  using id_reachable_ok [OF assms] by (simp add: id_ok_def side_ok_def bind_ok_def)

definition bound_state :: id_state where
  "bound_state = BindValidatorToDID guarded_state alice ''val1''"

lemma bound_eval:
  "AfterValidatorCreated vals_example 50 (at 3500) [] guarded_state ''val1'' = Inr bound_state"
  "DIDForValidator guarded_state ''val1'' = None"
  by code_simp+

theorem validator_bijection_witness:
  "ValidatorForDID bound_state alice = Some ''val1'' \<and> DIDForValidator bound_state ''val1'' = Some alice"
proof -
  have "example_reachable (fst id_start_example, bound_state)"
    by (rule id_next [OF guarded_reachable step_created [OF bound_eval(2,1)]])
  from validator_bijection [OF this text_example, of alice "''val1''"]
  have "ValidatorForDID bound_state alice = Some ''val1'' \<longleftrightarrow> DIDForValidator bound_state ''val1'' = Some alice" by simp
  moreover have "ValidatorForDID bound_state alice = Some ''val1''"
    by (simp add: bound_state_def ValidatorForDID_def BindValidatorToDID_def del: kv_set.simps)
  ultimately show ?thesis by simp
qed

end
