(* ===== verification/GovKeeper.thy ===== *)
theory GovKeeper
  imports StoreEntry Bank
begin

text \<open>
  \<^verbatim>\<open>x/governance\<close>: the governed table that routes a proposal to the public or the technical vote
  (\<^verbatim>\<open>types/params.go\<close>), the keys, the running one-human-one-vote tally with its frozen
  eligibility basis and budgeted pruning (\<^verbatim>\<open>keeper/tally_state.go\<close>), parameters and genesis
  (\<^verbatim>\<open>keeper/keeper.go\<close>).  All tally records share one raw byte store, as in the source, where the
  decoders read a record of the wrong width as absent or zero.
\<close>

section \<open>Vote routes\<close>

datatype VoteRoute = VOTE_ROUTE_UNSPECIFIED | VOTE_ROUTE_PUBLIC | VOTE_ROUTE_TECHNICAL | VOTE_ROUTE_other int

record VoteRouteEntry =
  vr_MsgTypeUrl :: string
  vr_Route :: VoteRoute

record gov_Params =
  gp_VoteRoutes :: "VoteRouteEntry list"

definition MappingUpdateMsgTypeURL :: string where
  "MappingUpdateMsgTypeURL = ''/phi.governance.MsgUpdateParams''"

definition DefaultTechnicalMsgTypeURLs :: "string list" where
  "DefaultTechnicalMsgTypeURLs =
    [''/cosmos.consensus.v1.MsgUpdateParams'',
     ''/cosmos.distribution.v1beta1.MsgUpdateParams'',
     ''/cosmos.slashing.v1beta1.MsgUpdateParams'',
     ''/cosmos.staking.v1beta1.MsgUpdateParams'',
     ''/cosmos.upgrade.v1beta1.MsgCancelUpgrade'',
     ''/cosmos.upgrade.v1beta1.MsgSoftwareUpgrade'']"

definition gov_DefaultParams :: gov_Params where
  "gov_DefaultParams =
    \<lparr>gp_VoteRoutes = map (\<lambda>url. \<lparr>vr_MsgTypeUrl = url, vr_Route = VOTE_ROUTE_TECHNICAL\<rparr>) DefaultTechnicalMsgTypeURLs\<rparr>"

primrec validate_routes :: "string list \<Rightarrow> VoteRouteEntry list \<Rightarrow> unit res" where
  "validate_routes seen [] = Inr ()"
| "validate_routes seen (e # es) =
    (if vr_MsgTypeUrl e = [] then Inl (Plain ''empty msg_type_url'')
     else if hd (vr_MsgTypeUrl e) \<noteq> CHR ''/'' then Inl (Plain ''must start with a slash'')
     else if vr_MsgTypeUrl e \<in> set seen then Inl (Plain ''duplicate vote_route entry'')
     else if vr_Route e \<noteq> VOTE_ROUTE_PUBLIC \<and> vr_Route e \<noteq> VOTE_ROUTE_TECHNICAL then Inl (Plain ''must be PUBLIC or TECHNICAL'')
     else if vr_MsgTypeUrl e = MappingUpdateMsgTypeURL then Inl (Plain ''not table-governed'')
     else validate_routes (vr_MsgTypeUrl e # seen) es)"

definition gov_Params_Validate :: "gov_Params \<Rightarrow> unit res" where
  "gov_Params_Validate p = validate_routes [] (gp_VoteRoutes p)"

text \<open>A later row overwrites an earlier one; a missing row reads as the zero value.\<close>

definition RouteTable :: "gov_Params \<Rightarrow> string \<Rightarrow> VoteRoute" where
  "RouteTable p url =
    (case map_of (rev (map (\<lambda>e. (vr_MsgTypeUrl e, vr_Route e)) (gp_VoteRoutes p))) url of
       None \<Rightarrow> VOTE_ROUTE_UNSPECIFIED | Some r \<Rightarrow> r)"

definition RouteFor :: "string \<Rightarrow> (string \<Rightarrow> VoteRoute) \<Rightarrow> VoteRoute" where
  "RouteFor url table =
    (if url = MappingUpdateMsgTypeURL then VOTE_ROUTE_PUBLIC
     else if table url = VOTE_ROUTE_TECHNICAL then VOTE_ROUTE_TECHNICAL
     else VOTE_ROUTE_PUBLIC)"

definition Classify :: "string list \<Rightarrow> (string \<Rightarrow> VoteRoute) \<Rightarrow> VoteRoute" where
  "Classify msgs table =
    (if list_ex (\<lambda>m. RouteFor m table = VOTE_ROUTE_PUBLIC) msgs then VOTE_ROUTE_PUBLIC
     else if msgs = [] then VOTE_ROUTE_PUBLIC
     else VOTE_ROUTE_TECHNICAL)"

section \<open>Keys\<close>

definition TallyCountPrefix :: bytes where "TallyCountPrefix = [CHR 0x10]"
definition TallyTurnoutPrefix :: bytes where "TallyTurnoutPrefix = [CHR 0x11]"
definition CountedVotePrefix :: bytes where "CountedVotePrefix = [CHR 0x12]"
definition ProposalEligibilityPrefix :: bytes where "ProposalEligibilityPrefix = [CHR 0x13]"
definition PrunePrefix :: bytes where "PrunePrefix = [CHR 0x14]"

definition GenesisStorePrefixes :: "bytes list" where
  "GenesisStorePrefixes =
    [TallyCountPrefix, TallyTurnoutPrefix, CountedVotePrefix, ProposalEligibilityPrefix, PrunePrefix]"

definition IsGenesisStoreKey :: "bytes \<Rightarrow> bool" where
  "IsGenesisStoreKey key \<longleftrightarrow> list_ex (\<lambda>p. length p < length key \<and> take (length p) key = p) GenesisStorePrefixes"

definition IneligibleVoteMarker :: char where
  "IneligibleVoteMarker = CHR 0xFF"

text \<open>Go's conversions \<^verbatim>\<open>byte(option)\<close> and \<^verbatim>\<open>int32(b)\<close>.\<close>

definition byte_of :: "int \<Rightarrow> char" where
  "byte_of x = char_of (nat (x mod 256))"

definition int_of_byte :: "char \<Rightarrow> int" where
  "int_of_byte b = int (of_char b)"

definition TallyCountKey :: "64 word \<Rightarrow> int \<Rightarrow> bytes" where
  "TallyCountKey proposalID option = TallyCountPrefix @ be64 proposalID @ [byte_of option]"

definition TallyTurnoutKey :: "64 word \<Rightarrow> bytes" where
  "TallyTurnoutKey proposalID = TallyTurnoutPrefix @ be64 proposalID"

definition CountedVotePrefixFor :: "64 word \<Rightarrow> bytes" where
  "CountedVotePrefixFor proposalID = CountedVotePrefix @ be64 proposalID"

definition CountedVoteKey :: "64 word \<Rightarrow> bytes \<Rightarrow> bytes" where
  "CountedVoteKey proposalID voter = CountedVotePrefix @ be64 proposalID @ voter"

definition ProposalEligibilityKey :: "64 word \<Rightarrow> bytes" where
  "ProposalEligibilityKey proposalID = ProposalEligibilityPrefix @ be64 proposalID"

definition PruneKey :: "64 word \<Rightarrow> bytes" where
  "PruneKey proposalID = PrunePrefix @ be64 proposalID"

lemmas gov_prefix_defs = TallyCountPrefix_def TallyTurnoutPrefix_def CountedVotePrefix_def
  ProposalEligibilityPrefix_def PrunePrefix_def

lemmas gov_key_defs = TallyCountKey_def TallyTurnoutKey_def CountedVotePrefixFor_def CountedVoteKey_def
  ProposalEligibilityKey_def PruneKey_def gov_prefix_defs

section \<open>State\<close>

record gov_state =
  gv_params :: "gov_Params option"
  gv_store :: "bytes kv"

definition empty_gov_state :: gov_state where
  "empty_gov_state = \<lparr>gv_params = None, gv_store = []\<rparr>"

definition gov_GetParams :: "gov_state \<Rightarrow> gov_Params" where
  "gov_GetParams s = (case gv_params s of None \<Rightarrow> gov_DefaultParams | Some p \<Rightarrow> p)"

definition gov_SetParams :: "gov_state \<Rightarrow> gov_Params \<Rightarrow> gov_state res" where
  "gov_SetParams s p = bindE (gov_Params_Validate p) (\<lambda>_. Inr (s\<lparr>gv_params := Some p\<rparr>))"

definition VoteRouteTable :: "gov_state \<Rightarrow> string \<Rightarrow> VoteRoute" where
  "VoteRouteTable s = RouteTable (gov_GetParams s)"

definition gov_UpdateParams :: "string \<Rightarrow> gov_state \<Rightarrow> string \<Rightarrow> gov_Params \<Rightarrow> gov_state res" where
  "gov_UpdateParams authority s msg_Authority p =
    (if msg_Authority \<noteq> authority then Inl (ErrInvalidSigner) else gov_SetParams s p)"

section \<open>The running tally\<close>

definition encodeUint64 :: "64 word \<Rightarrow> bytes" where
  "encodeUint64 v = be64 v"

definition decodeUint64 :: "bytes option \<Rightarrow> 64 word" where
  "decodeUint64 bz = (case bz of None \<Rightarrow> 0 | Some b \<Rightarrow> if length b \<noteq> 8 then 0 else dec64 b)"

definition applyDelta :: "64 word \<Rightarrow> int \<Rightarrow> 64 word" where
  "applyDelta cur delta =
    (if delta < 0 then (let d = word_of_int (- delta) in if cur < d then 0 else cur - d)
     else cur + word_of_int delta)"

record FrozenEligibility =
  fe_Denominator :: "64 word"
  fe_Cutoff :: int
  fe_FrozenAt :: int

definition SetProposalEligibility :: "gov_state \<Rightarrow> 64 word \<Rightarrow> FrozenEligibility \<Rightarrow> gov_state" where
  "SetProposalEligibility s proposalID e = s\<lparr>gv_store := kv_set (gv_store s) (ProposalEligibilityKey proposalID)
      (be64 (fe_Denominator e) @ be64 (word_of_int (fe_Cutoff e)) @ be64 (word_of_int (fe_FrozenAt e)))\<rparr>"

definition GetProposalEligibility :: "gov_state \<Rightarrow> 64 word \<Rightarrow> FrozenEligibility option" where
  "GetProposalEligibility s proposalID =
    (case kv_get (gv_store s) (ProposalEligibilityKey proposalID) of
       None \<Rightarrow> None
     | Some bz \<Rightarrow>
        (if length bz = 24 \<or> length bz = 16
         then Some \<lparr>fe_Denominator = dec64 bz, fe_Cutoff = sint (dec64 (drop 8 bz)),
                fe_FrozenAt = (if length bz = 24 then sint (dec64 (drop 16 bz)) else 0)\<rparr>
         else None))"

record RunningTally =
  rt_Counts :: "(int \<times> 64 word) list"
  rt_Turnout :: "64 word"

definition tally_counts :: "gov_state \<Rightarrow> 64 word \<Rightarrow> bytes kv" where
  "tally_counts s proposalID = kv_prefix (gv_store s) (TallyCountPrefix @ be64 proposalID)"

definition GetRunningTally :: "gov_state \<Rightarrow> 64 word \<Rightarrow> RunningTally" where
  "GetRunningTally s proposalID =
    \<lparr>rt_Counts = map (\<lambda>(k, v). (int_of_byte (k ! 9), decodeUint64 (Some v)))
        (filter (\<lambda>(k, v). length k = 10) (tally_counts s proposalID)),
     rt_Turnout = decodeUint64 (kv_get (gv_store s) (TallyTurnoutKey proposalID))\<rparr>"

definition addOptionCount :: "gov_state \<Rightarrow> 64 word \<Rightarrow> int \<Rightarrow> int \<Rightarrow> gov_state" where
  "addOptionCount s proposalID option delta =
    (let key = TallyCountKey proposalID option; cur = decodeUint64 (kv_get (gv_store s) key) in
     s\<lparr>gv_store := kv_set (gv_store s) key (encodeUint64 (applyDelta cur delta))\<rparr>)"

definition addTurnout :: "gov_state \<Rightarrow> 64 word \<Rightarrow> int \<Rightarrow> gov_state" where
  "addTurnout s proposalID delta =
    (let key = TallyTurnoutKey proposalID; cur = decodeUint64 (kv_get (gv_store s) key) in
     s\<lparr>gv_store := kv_set (gv_store s) key (encodeUint64 (applyDelta cur delta))\<rparr>)"

definition GetCountedVote :: "gov_state \<Rightarrow> 64 word \<Rightarrow> bytes \<Rightarrow> char option" where
  "GetCountedVote s proposalID voter =
    (case kv_get (gv_store s) (CountedVoteKey proposalID voter) of
       None \<Rightarrow> None
     | Some bz \<Rightarrow> if length bz \<noteq> 1 then None else Some (hd bz))"

definition setCountedVote :: "gov_state \<Rightarrow> 64 word \<Rightarrow> bytes \<Rightarrow> char \<Rightarrow> gov_state" where
  "setCountedVote s proposalID voter marker =
    s\<lparr>gv_store := kv_set (gv_store s) (CountedVoteKey proposalID voter) [marker]\<rparr>"

definition RecordVote :: "gov_state \<Rightarrow> 64 word \<Rightarrow> bytes \<Rightarrow> int \<Rightarrow> bool \<Rightarrow> bool \<times> gov_state" where
  "RecordVote s proposalID voter option eligible =
    (let prev = GetCountedVote s proposalID voter in
     if prev = Some IneligibleVoteMarker then (False, s)
     else if prev = None \<and> \<not> eligible then (False, setCountedVote s proposalID voter IneligibleVoteMarker)
     else case prev of
         Some b \<Rightarrow>
           (if int_of_byte b = option then (True, s)
            else (True, setCountedVote
                   (addOptionCount (addOptionCount s proposalID (int_of_byte b) (- 1)) proposalID option 1)
                   proposalID voter (byte_of option)))
       | None \<Rightarrow>
           (True, setCountedVote (addOptionCount (addTurnout s proposalID 1) proposalID option 1)
                   proposalID voter (byte_of option)))"

definition ids_under :: "bytes kv \<Rightarrow> bytes \<Rightarrow> 64 word list" where
  "ids_under m p = map (\<lambda>e. dec64 (drop (length p) (fst e)))
      (filter (\<lambda>e. length p + 8 \<le> length (fst e)) (kv_prefix m p))"

definition TalliedProposalIDs :: "gov_state \<Rightarrow> 64 word list" where
  "TalliedProposalIDs s = sort (remdups (concat (map (ids_under (gv_store s))
      [ProposalEligibilityPrefix, TallyTurnoutPrefix, CountedVotePrefix, TallyCountPrefix])))"

text \<open>The records an iteration visits when its callback never stops it.\<close>

definition IterateCountedVotes :: "gov_state \<Rightarrow> 64 word \<Rightarrow> (bytes \<times> char) list" where
  "IterateCountedVotes s proposalID =
    (let p = CountedVotePrefixFor proposalID in
     map (\<lambda>(k, v). (drop (length p) k, hd v)) (filter (\<lambda>(k, v). length v = 1) (kv_prefix (gv_store s) p)))"

section \<open>Pruning\<close>

definition EnqueueForPruning :: "gov_state \<Rightarrow> 64 word \<Rightarrow> gov_state" where
  "EnqueueForPruning s proposalID = s\<lparr>gv_store := kv_set (gv_store s) (PruneKey proposalID) [CHR 0x01]\<rparr>"

definition IsQueuedForPruning :: "gov_state \<Rightarrow> 64 word \<Rightarrow> bool" where
  "IsQueuedForPruning s proposalID = kv_has (gv_store s) (PruneKey proposalID)"

definition prune_queue :: "bytes kv \<Rightarrow> 64 word list" where
  "prune_queue m = map (\<lambda>e. dec64 (drop 1 (fst e)))
      (filter (\<lambda>e. length (fst e) = length PrunePrefix + 8) (kv_prefix m PrunePrefix))"

text \<open>One round of the loop: a batch of vote records, or the aggregates once those are gone.\<close>

definition prune_one :: "nat \<Rightarrow> 64 word \<Rightarrow> nat \<Rightarrow> bytes kv \<Rightarrow> nat \<times> bytes kv" where
  "prune_one budget proposalID deleted m =
    (let batch = take (budget - deleted) (map fst (kv_prefix m (CountedVotePrefixFor proposalID))) in
     if batch \<noteq> [] then (deleted + length batch, kv_delete_all m batch)
     else let tallyKeys = map fst (kv_prefix m (TallyCountPrefix @ be64 proposalID));
              m1 = kv_delete_all m tallyKeys in
       (deleted + length tallyKeys + 1,
        kv_delete (kv_delete (kv_delete m1 (TallyTurnoutKey proposalID)) (ProposalEligibilityKey proposalID))
          (PruneKey proposalID)))"

primrec prune_loop :: "nat \<Rightarrow> 64 word list \<Rightarrow> nat \<Rightarrow> bytes kv \<Rightarrow> nat \<times> bytes kv" where
  "prune_loop budget [] deleted m = (deleted, m)"
| "prune_loop budget (p # ps) deleted m =
    (if budget \<le> deleted then (deleted, m)
     else case prune_one budget p deleted m of (deleted', m') \<Rightarrow> prune_loop budget ps deleted' m')"

definition PruneStep :: "gov_state \<Rightarrow> nat \<Rightarrow> nat \<times> gov_state" where
  "PruneStep s budget =
    (if budget = 0 then (0, s)
     else case prune_loop budget (prune_queue (gv_store s)) 0 (gv_store s) of (deleted, m) \<Rightarrow>
       (deleted, s\<lparr>gv_store := m\<rparr>))"

definition PruneBudgetPerBlock :: nat where
  "PruneBudgetPerBlock = 100"

definition gov_EndBlock :: "gov_state \<Rightarrow> gov_state" where
  "gov_EndBlock s = snd (PruneStep s PruneBudgetPerBlock)"

section \<open>Genesis\<close>

record gov_GenesisState =
  gg_Params :: gov_Params
  gg_StoreEntries :: "KV list"

definition gov_storeEntryRules :: "Rule list" where
  "gov_storeEntryRules =
    [\<lparr>rule_Name = ''running tally count'', rule_Prefix = TallyCountPrefix, rule_Value = Some Uint64NoOverflow\<rparr>,
     \<lparr>rule_Name = ''turnout'', rule_Prefix = TallyTurnoutPrefix, rule_Value = Some Uint64NoOverflow\<rparr>,
     \<lparr>rule_Name = ''counted-vote marker'', rule_Prefix = CountedVotePrefix, rule_Value = Some (FixedLen 1)\<rparr>,
     \<lparr>rule_Name = ''frozen eligibility basis'', rule_Prefix = ProposalEligibilityPrefix, rule_Value = Some (OneOfLen [16, 24])\<rparr>,
     \<lparr>rule_Name = ''pruning-queue marker'', rule_Prefix = PrunePrefix, rule_Value = Some NonEmpty\<rparr>]"

definition gov_GenesisState_Validate :: "gov_GenesisState \<Rightarrow> unit res" where
  "gov_GenesisState_Validate gs =
    bindE (gov_Params_Validate (gg_Params gs)) (\<lambda>_. Validate (gg_StoreEntries gs) gov_storeEntryRules)"

definition import_entry :: "KV \<Rightarrow> bytes kv \<Rightarrow> bytes kv res" where
  "import_entry e m =
    (if IsGenesisStoreKey (Key e) then Inr (kv_set m (Key e) (Value e))
     else Inl (Panic ''key is not under an exported prefix''))"

text \<open>A failed check panics; it is the same failure of the start-up.\<close>

definition gov_InitGenesis :: "gov_state \<Rightarrow> gov_GenesisState \<Rightarrow> gov_state res" where
  "gov_InitGenesis s gs =
    bindE (gov_GenesisState_Validate gs) (\<lambda>_.
    bindE (gov_SetParams s (gg_Params gs)) (\<lambda>s.
    bindE (foldE import_entry (gg_StoreEntries gs) (gv_store s)) (\<lambda>m.
    Inr (s\<lparr>gv_store := m\<rparr>))))"

definition gov_exportStoreEntries :: "gov_state \<Rightarrow> KV list" where
  "gov_exportStoreEntries s =
    concat (map (\<lambda>p. map (\<lambda>(k, v). \<lparr>Key = k, Value = v\<rparr>) (kv_prefix (gv_store s) p)) GenesisStorePrefixes)"

definition gov_ExportGenesis :: "gov_state \<Rightarrow> gov_GenesisState" where
  "gov_ExportGenesis s = \<lparr>gg_Params = gov_GetParams s, gg_StoreEntries = gov_exportStoreEntries s\<rparr>"

end
