(* ===== verification/LegacyDec.thy ===== *)
theory LegacyDec
  imports MathInt
begin

text \<open>
  The fixed-point decimals of \<^verbatim>\<open>cosmossdk.io/math\<close> (\<^verbatim>\<open>legacy_dec.go\<close>): an integer that counts
  units of \<^verbatim>\<open>10^-18\<close>.  Products and quotients round half to even, and every operation panics
  when its result leaves the valid range.  The lemmas show where rounding is exact and bound it
  elsewhere.
\<close>

type_synonym dec = int

definition LegacyPrecision :: nat where
  "LegacyPrecision = 18"

definition precisionReuse :: int where
  "precisionReuse = 10 ^ 18"

definition fivePrecision :: int where
  "fivePrecision = precisionReuse div 2"

definition upperLimit :: dec where
  "upperLimit = 2 ^ 256 * 10 ^ 18 - 1"

definition IsInValidRange :: "dec \<Rightarrow> bool" where
  "IsInValidRange d \<longleftrightarrow> - upperLimit \<le> d \<and> d \<le> upperLimit"

definition assertInValidRange :: "dec \<Rightarrow> dec res" where
  "assertInValidRange d = (if IsInValidRange d then Inr d else Inl (Panic ''decimal out of range''))"

definition round_half_even :: "int \<Rightarrow> int" where
  "round_half_even d =
    (let quo = d div precisionReuse; rem = d mod precisionReuse in
     if rem < fivePrecision then quo
     else if fivePrecision < rem then quo + 1
     else if even quo then quo else quo + 1)"

definition chopPrecisionAndRound :: "int \<Rightarrow> int" where
  "chopPrecisionAndRound d = (if d < 0 then - round_half_even (- d) else round_half_even d)"

definition LegacyNewDecFromInt :: "int \<Rightarrow> dec" where
  "LegacyNewDecFromInt i = i * precisionReuse"

definition dec_Add :: "dec \<Rightarrow> dec \<Rightarrow> dec res" where
  "dec_Add d d2 = assertInValidRange (d + d2)"

definition dec_Mul :: "dec \<Rightarrow> dec \<Rightarrow> dec res" where
  "dec_Mul d d2 = assertInValidRange (chopPrecisionAndRound (d * d2))"

definition dec_Quo :: "dec \<Rightarrow> dec \<Rightarrow> dec res" where
  "dec_Quo d d2 =
    (if d2 = 0 then Inl (Panic ''division by zero'')
     else assertInValidRange (chopPrecisionAndRound ((d * (precisionReuse * precisionReuse)) sdiv d2)))"

text \<open>\<^verbatim>\<open>big.Int.SetString(s, 10)\<close>: an optional sign and at least one digit, nothing else.\<close>

definition dec_digits :: "string \<Rightarrow> int option" where
  "dec_digits s =
    (if s \<noteq> [] \<and> list_all (\<lambda>c. digit_val c < 10) s
     then Some (foldl (\<lambda>a c. a * 10 + digit_val c) 0 s) else None)"

definition SetString10 :: "string \<Rightarrow> int option" where
  "SetString10 s = (case s of
      [] \<Rightarrow> None
    | c # r \<Rightarrow>
       (if c = CHR ''-'' then map_option uminus (dec_digits r)
        else if c = CHR ''+'' then dec_digits r
        else dec_digits s))"

text \<open>\<^verbatim>\<open>strings.Split(s, ".")\<close>.\<close>

primrec split_dots :: "string \<Rightarrow> string list" where
  "split_dots [] = [[]]"
| "split_dots (c # s) =
    (if c = CHR ''.'' then [] # split_dots s
     else case split_dots s of [] \<Rightarrow> [[c]] | p # ps \<Rightarrow> (c # p) # ps)"

definition LegacyNewDecFromStr :: "string \<Rightarrow> dec res" where
  "LegacyNewDecFromStr str0 =
    (let neg = (str0 \<noteq> [] \<and> hd str0 = CHR ''-'');
         str = (if neg then tl str0 else str0) in
     if str = [] then Inl (Plain ''decimal string cannot be empty'')
     else let strs = split_dots str; whole = hd strs in
       if 2 < length strs then Inl (Plain ''invalid decimal string'')
       else if length strs = 2 \<and> (strs ! 1 = [] \<or> whole = []) then Inl (Plain ''invalid decimal length'')
       else let frac = (if length strs = 2 then strs ! 1 else []) in
         if LegacyPrecision < length frac then Inl (Plain ''exceeds max precision'')
         else case SetString10 (whole @ frac @ replicate (LegacyPrecision - length frac) (CHR ''0'')) of
             None \<Rightarrow> Inl (Plain ''failed to set decimal string'')
           | Some combined \<Rightarrow>
              (let d = (if neg then - combined else combined) in
               if IsInValidRange d then Inr d else Inl (Plain ''out of range'')))"

section \<open>Rounding\<close>

lemma precision_pos: "0 < precisionReuse"
  by (simp add: precisionReuse_def)

lemma round_exact: "round_half_even (n * precisionReuse) = n"
  by (simp add: round_half_even_def fivePrecision_def precisionReuse_def)

lemma chop_exact: "chopPrecisionAndRound (n * precisionReuse) = n"
  using round_exact [of n] round_exact [of "- n"] by (simp add: chopPrecisionAndRound_def)

lemma Mul_whole: "dec_Mul (LegacyNewDecFromInt n) d = assertInValidRange (n * d)"
proof -
  have "LegacyNewDecFromInt n * d = n * d * precisionReuse" by (simp add: LegacyNewDecFromInt_def)
  then show ?thesis unfolding dec_Mul_def by (simp only: chop_exact)
qed

lemma round_near: "2 * \<bar>round_half_even d * precisionReuse - d\<bar> \<le> precisionReuse"
proof -
  define q r where "q = d div precisionReuse" and "r = d mod precisionReuse"
  have d: "d = q * precisionReuse + r" "0 \<le> r" "r < precisionReuse"
    using precision_pos by (simp_all add: q_def r_def)
  have five: "2 * fivePrecision = precisionReuse" by (simp add: fivePrecision_def precisionReuse_def)
  have "round_half_even d = q \<and> r \<le> fivePrecision \<or> round_half_even d = q + 1 \<and> fivePrecision \<le> r"
    by (simp add: round_half_even_def Let_def q_def r_def)
  then show ?thesis
  proof
    assume "round_half_even d = q \<and> r \<le> fivePrecision"
    with d five show ?thesis by simp
  next
    assume "round_half_even d = q + 1 \<and> fivePrecision \<le> r"
    then have "round_half_even d * precisionReuse - d = precisionReuse - r" "fivePrecision \<le> r"
      using d(1) by (simp_all add: distrib_right)
    with d five show ?thesis by simp
  qed
qed

lemma chop_near: "2 * \<bar>chopPrecisionAndRound d * precisionReuse - d\<bar> \<le> precisionReuse"
  using round_near [of d] round_near [of "- d"] by (simp add: chopPrecisionAndRound_def abs_minus_commute add.commute)

lemma round_nonneg: "0 \<le> d \<Longrightarrow> 0 \<le> round_half_even d"
  using precision_pos by (simp add: round_half_even_def Let_def pos_imp_zdiv_nonneg_iff)

end
