(* ===== verification/GovTally.thy ===== *)
theory GovTally
  imports GovKeeper LegacyDec IdKeeper
begin

text \<open>
  \<^verbatim>\<open>x/governance\<close>: the reference count (\<^verbatim>\<open>tally.go\<close>), the live tally handed to \<^verbatim>\<open>x/gov\<close>
  (\<^verbatim>\<open>tally_live.go\<close>), the vote hooks that freeze the eligibility basis and accumulate ballots
  (\<^verbatim>\<open>hooks.go\<close>), the technical route's validator source (\<^verbatim>\<open>validators.go\<close>) and the registered
  invariant (\<^verbatim>\<open>invariants.go\<close>).  The identity source is the identity keeper of
  \<^verbatim>\<open>IdKeeper\<close>, as the application wires it; proposals, stored votes and validators are what
  \<^verbatim>\<open>x/gov\<close> and staking hand over, so they are arguments.  Times are nanoseconds.
\<close>

section \<open>What the governance module of the SDK hands over\<close>

definition OptionYes :: int where "OptionYes = 1"
definition OptionAbstain :: int where "OptionAbstain = 2"
definition OptionNo :: int where "OptionNo = 3"
definition OptionNoWithVeto :: int where "OptionNoWithVeto = 4"
definition StatusVotingPeriod :: int where "StatusVotingPeriod = 2"

text \<open>The message types are absent when \<^verbatim>\<open>GetMsgs\<close> fails.\<close>

record gov_Proposal =
  pr_Id :: "64 word"
  pr_Status :: int
  pr_VotingStartTime :: "int option"
  pr_Expedited :: bool
  pr_Msgs :: "string list option"

record WeightedVoteOption =
  wo_Option :: int
  wo_Weight :: string

record ValidatorGovInfo =
  vi_Address :: bytes
  vi_BondedTokens :: int

section \<open>The reference count\<close>

definition ClassifyByMsgType :: "gov_state \<Rightarrow> string list \<Rightarrow> VoteRoute" where
  "ClassifyByMsgType s msgs = Classify msgs (VoteRouteTable s)"

record VoteRecord =
  vt_Voter :: string
  vt_Option :: int

record OneHumanTally =
  oh_Yes :: "64 word"
  oh_No :: "64 word"
  oh_NoWithVeto :: "64 word"
  oh_Abstain :: "64 word"
  oh_TotalEligible :: "64 word"

definition add_option :: "int \<Rightarrow> OneHumanTally \<Rightarrow> OneHumanTally" where
  "add_option option res =
    (if option = OptionYes then res\<lparr>oh_Yes := oh_Yes res + 1\<rparr>
     else if option = OptionNo then res\<lparr>oh_No := oh_No res + 1\<rparr>
     else if option = OptionNoWithVeto then res\<lparr>oh_NoWithVeto := oh_NoWithVeto res + 1\<rparr>
     else if option = OptionAbstain then res\<lparr>oh_Abstain := oh_Abstain res + 1\<rparr>
     else res)"

primrec tally_votes :: "(string \<Rightarrow> bool) \<Rightarrow> VoteRecord list \<Rightarrow> string list \<Rightarrow> OneHumanTally \<Rightarrow> OneHumanTally" where
  "tally_votes eligible [] counted res = res"
| "tally_votes eligible (v # vs) counted res =
    (if vt_Voter v \<in> set counted then tally_votes eligible vs counted res
     else if \<not> eligible (vt_Voter v) then tally_votes eligible vs counted res
     else tally_votes eligible vs (vt_Voter v # counted) (add_option (vt_Option v) res))"

definition TallyOneHumanOneVote :: "id_state \<Rightarrow> int \<Rightarrow> VoteRecord list \<Rightarrow> OneHumanTally" where
  "TallyOneHumanOneVote ids votingStart votes =
    (let minAge = MinIdentityAge ids in
     tally_votes (\<lambda>v. IsEligibleControllerAt ids v votingStart minAge) votes []
       \<lparr>oh_Yes = 0, oh_No = 0, oh_NoWithVeto = 0, oh_Abstain = 0,
        oh_TotalEligible = CountEligibleControllersAt ids votingStart minAge\<rparr>)"

definition decFromU64 :: "64 word \<Rightarrow> dec" where
  "decFromU64 x = LegacyNewDecFromInt (uint x)"

definition Passes :: "OneHumanTally \<Rightarrow> dec \<Rightarrow> dec \<Rightarrow> dec \<Rightarrow> bool res" where
  "Passes t quorum threshold vetoThreshold =
    (let totalVotes = oh_Yes t + oh_No t + oh_NoWithVeto t + oh_Abstain t;
         nonAbstain = oh_Yes t + oh_No t + oh_NoWithVeto t in
     if oh_TotalEligible t = 0 then Inr False
     else if totalVotes = 0 then Inr False
     else bindE (dec_Quo (decFromU64 totalVotes) (decFromU64 (oh_TotalEligible t))) (\<lambda>turnout.
       if turnout < quorum then Inr False
       else bindE (dec_Quo (decFromU64 (oh_NoWithVeto t)) (decFromU64 totalVotes)) (\<lambda>veto.
         if vetoThreshold < veto then Inr False
         else if nonAbstain = 0 then Inr False
         else bindE (dec_Quo (decFromU64 (oh_Yes t)) (decFromU64 nonAbstain)) (\<lambda>yesRatio.
           Inr (threshold < yesRatio)))))"

section \<open>The live tally\<close>

definition prunableAtTally :: "gov_Proposal \<Rightarrow> bool" where
  "prunableAtTally proposal \<longleftrightarrow> \<not> pr_Expedited proposal"

definition emptyResults :: "int \<Rightarrow> dec option" where
  "emptyResults = [OptionYes \<mapsto> 0, OptionAbstain \<mapsto> 0, OptionNo \<mapsto> 0, OptionNoWithVeto \<mapsto> 0]"

text \<open>The running best option, its weight, and whether it is tied.\<close>

definition dominate :: "int \<times> dec \<times> bool \<Rightarrow> WeightedVoteOption \<Rightarrow> int \<times> dec \<times> bool" where
  "dominate acc o1 = (case acc of (best, bestW, tie) \<Rightarrow>
    (case LegacyNewDecFromStr (wo_Weight o1) of
       Inl _ \<Rightarrow> acc
     | Inr w \<Rightarrow>
        (if bestW < w then (wo_Option o1, w, False)
         else if w = bestW \<and> bestW \<noteq> 0 then (best, bestW, True)
         else acc)))"

definition dominantOption :: "WeightedVoteOption list \<Rightarrow> int" where
  "dominantOption opts =
    (case foldl dominate (OptionAbstain, 0, False) opts of (best, _, tie) \<Rightarrow>
       if tie then OptionAbstain else best)"

definition sumBonded :: "(string \<times> ValidatorGovInfo) list \<Rightarrow> int" where
  "sumBonded validators = (\<Sum>(_, v) \<leftarrow> validators. vi_BondedTokens v)"

definition scalePublicResults ::
    "(int \<times> 64 word) list \<Rightarrow> 64 word \<Rightarrow> 64 word \<Rightarrow> int \<Rightarrow> (dec \<times> (int \<Rightarrow> dec option)) res" where
  "scalePublicResults counts turnout totalEligible totalBonded =
    (if turnout = 0 \<or> totalEligible = 0 \<or> totalBonded = 0 then Inr (0, emptyResults)
     else
       bindE (dec_Quo (LegacyNewDecFromInt totalBonded) (LegacyNewDecFromInt (uint totalEligible))) (\<lambda>scale.
       bindE (foldE (\<lambda>(option, n) results.
           bindE (dec_Mul (LegacyNewDecFromInt (uint n)) scale) (\<lambda>x. Inr (results(option \<mapsto> x)))) counts emptyResults) (\<lambda>results.
       bindE (dec_Mul (LegacyNewDecFromInt (uint turnout)) scale) (\<lambda>totalPower.
       Inr (totalPower, results)))))"

definition tallyPublicLive ::
    "gov_state \<Rightarrow> gov_Proposal \<Rightarrow> id_state \<Rightarrow> (string \<times> ValidatorGovInfo) list \<Rightarrow> (dec \<times> (int \<Rightarrow> dec option)) res" where
  "tallyPublicLive s proposal ids validators =
    (let running = GetRunningTally s (pr_Id proposal);
         totalEligible = (case GetProposalEligibility s (pr_Id proposal) of
             Some basis \<Rightarrow> fe_Denominator basis | None \<Rightarrow> EligibleControllerTotal ids)
     in scalePublicResults (rt_Counts running) (rt_Turnout running) totalEligible (sumBonded validators))"

record valBallot =
  vb_bonded :: int
  vb_options :: "WeightedVoteOption list"

text \<open>Adding to an option outside the four initialised ones dereferences a nil decimal.\<close>

definition add_weight :: "dec \<Rightarrow> WeightedVoteOption \<Rightarrow> (int \<Rightarrow> dec option) \<Rightarrow> (int \<Rightarrow> dec option) res" where
  "add_weight pow o1 results =
    bindE (LegacyNewDecFromStr (wo_Weight o1)) (\<lambda>w.
    bindE (dec_Mul pow w) (\<lambda>x.
    case results (wo_Option o1) of
      None \<Rightarrow> Inl (Panic ''nil decimal'')
    | Some y \<Rightarrow> bindE (dec_Add y x) (\<lambda>z. Inr (results(wo_Option o1 \<mapsto> z)))))"

definition tallyValidatorBallots :: "valBallot list \<Rightarrow> (dec \<times> (int \<Rightarrow> dec option)) res" where
  "tallyValidatorBallots ballots =
    foldE (\<lambda>b (totalPower, results).
      let pow = LegacyNewDecFromInt (vb_bonded b) in
      bindE (foldE (add_weight pow) (vb_options b) results) (\<lambda>results.
      bindE (dec_Add totalPower pow) (\<lambda>totalPower. Inr (totalPower, results)))) ballots (0, emptyResults)"

text \<open>Operators are visited in sorted order; a validator without a stored vote is skipped.\<close>

definition tallyTechnicalLive ::
    "(64 word \<Rightarrow> bytes \<Rightarrow> WeightedVoteOption list option) \<Rightarrow> gov_Proposal \<Rightarrow> (string \<times> ValidatorGovInfo) list
      \<Rightarrow> (dec \<times> (int \<Rightarrow> dec option)) res" where
  "tallyTechnicalLive Votes proposal validators =
    tallyValidatorBallots
      (List.map_filter (\<lambda>(_, v). map_option (\<lambda>options. \<lparr>vb_bonded = vi_BondedTokens v, vb_options = options\<rparr>)
          (Votes (pr_Id proposal) (vi_Address v)))
        (sort_key fst validators))"

definition PhiTallyFn ::
    "(64 word \<Rightarrow> bytes \<Rightarrow> WeightedVoteOption list option) \<Rightarrow> id_state \<Rightarrow> gov_state \<Rightarrow> gov_Proposal
      \<Rightarrow> (string \<times> ValidatorGovInfo) list \<Rightarrow> (gov_state \<times> dec \<times> (int \<Rightarrow> dec option)) res" where
  "PhiTallyFn Votes ids s proposal validators =
    (case pr_Msgs proposal of
       None \<Rightarrow> Inl (Plain ''messages cannot be unpacked'')
     | Some msgs \<Rightarrow>
        (let s1 = (if prunableAtTally proposal then EnqueueForPruning s (pr_Id proposal) else s) in
         bindE (if ClassifyByMsgType s1 msgs = VOTE_ROUTE_TECHNICAL
                then tallyTechnicalLive Votes proposal validators
                else tallyPublicLive s1 proposal ids validators) (\<lambda>(pow, results).
         Inr (s1, pow, results))))"

section \<open>Hooks\<close>

definition ErrNotEligibleToVote :: err where
  "ErrNotEligibleToVote = Registered ''governance'' 2"

definition timeFromUnix :: "int \<Rightarrow> int" where
  "timeFromUnix sec = sec * nanos"

definition IsActiveValidatorOperator :: "(bytes \<Rightarrow> bool option) \<Rightarrow> bytes \<Rightarrow> bool" where
  "IsActiveValidatorOperator GetValidatorBonded addr =
    (case GetValidatorBonded addr of None \<Rightarrow> False | Some bonded \<Rightarrow> bonded)"

definition freezeEligibilityOnce :: "ctx \<Rightarrow> id_state \<Rightarrow> gov_state \<Rightarrow> gov_Proposal \<Rightarrow> FrozenEligibility \<times> gov_state" where
  "freezeEligibilityOnce c ids s proposal =
    (case GetProposalEligibility s (pr_Id proposal) of
       Some basis \<Rightarrow> (basis, s)
     | None \<Rightarrow>
        (let minAge = MinIdentityAge ids;
             cutoff = (case pr_VotingStartTime proposal of None \<Rightarrow> 0 | Some votingStart \<Rightarrow> age_cutoff votingStart minAge);
             basis = \<lparr>fe_Denominator = CountEligibleControllersAt ids (timeFromUnix cutoff) 0,
                      fe_Cutoff = cutoff, fe_FrozenAt = block_time c\<rparr>
         in (basis, SetProposalEligibility s (pr_Id proposal) basis)))"

definition routeOf :: "gov_state \<Rightarrow> gov_Proposal \<Rightarrow> VoteRoute" where
  "routeOf s proposal = (case pr_Msgs proposal of None \<Rightarrow> VOTE_ROUTE_PUBLIC | Some msgs \<Rightarrow> ClassifyByMsgType s msgs)"

definition recordBallot ::
    "(bytes \<Rightarrow> bool option) \<Rightarrow> ctx \<Rightarrow> id_state \<Rightarrow> gov_state \<Rightarrow> gov_Proposal \<Rightarrow> string \<Rightarrow> bytes
      \<Rightarrow> WeightedVoteOption list \<Rightarrow> gov_state res" where
  "recordBallot GetValidatorBonded c ids s proposal voter voterAddr options =
    (case freezeEligibilityOnce c ids s proposal of (basis, s) \<Rightarrow>
     if routeOf s proposal = VOTE_ROUTE_TECHNICAL then
       (if \<not> IsActiveValidatorOperator GetValidatorBonded voterAddr then Inl ErrNotEligibleToVote else Inr s)
     else if \<not> IsEligibleControllerSince ids voter (timeFromUnix (fe_Cutoff basis)) 0 (timeFromUnix (fe_FrozenAt basis))
       then Inl ErrNotEligibleToVote
     else Inr (snd (RecordVote s (pr_Id proposal) voterAddr (dominantOption options) True)))"

definition AfterProposalDeposit :: "ctx \<Rightarrow> id_state \<Rightarrow> gov_state \<Rightarrow> gov_Proposal option \<Rightarrow> gov_state" where
  "AfterProposalDeposit c ids s proposal = (case proposal of
      None \<Rightarrow> s
    | Some proposal \<Rightarrow>
       if pr_Status proposal \<noteq> StatusVotingPeriod then s else snd (freezeEligibilityOnce c ids s proposal))"

definition AfterProposalVote ::
    "(bytes \<Rightarrow> bool option) \<Rightarrow> ctx \<Rightarrow> id_state \<Rightarrow> gov_state \<Rightarrow> gov_Proposal option
      \<Rightarrow> (string \<times> WeightedVoteOption list) option \<Rightarrow> bytes \<Rightarrow> gov_state res" where
  "AfterProposalVote GetValidatorBonded c ids s proposal vote voterAddr =
    (case proposal of
       None \<Rightarrow> Inr s
     | Some proposal \<Rightarrow>
        (case vote of
           None \<Rightarrow> Inr s
         | Some (voter, options) \<Rightarrow> recordBallot GetValidatorBonded c ids s proposal voter voterAddr options))"

definition prunableAfterVoting :: "int \<Rightarrow> bool" where
  "prunableAfterVoting status \<longleftrightarrow> status \<noteq> StatusVotingPeriod"

definition AfterProposalVotingPeriodEnded :: "gov_state \<Rightarrow> 64 word \<Rightarrow> gov_Proposal option \<Rightarrow> gov_state" where
  "AfterProposalVotingPeriodEnded s proposalID proposal = (case proposal of
      None \<Rightarrow> s
    | Some proposal \<Rightarrow> if \<not> prunableAfterVoting (pr_Status proposal) then s else EnqueueForPruning s proposalID)"

section \<open>The registered invariant\<close>

definition sumCounts :: "RunningTally \<Rightarrow> 64 word" where
  "sumCounts t = (\<Sum>(_, n) \<leftarrow> rt_Counts t. n)"

text \<open>True means broken.\<close>

definition proposal_broken :: "gov_state \<Rightarrow> 64 word \<Rightarrow> bool" where
  "proposal_broken s proposalID =
    (let running = GetRunningTally s proposalID;
         counted = word_of_nat (length (filter (\<lambda>(_, marker). marker \<noteq> IneligibleVoteMarker) (IterateCountedVotes s proposalID)))
     in case GetProposalEligibility s proposalID of
          None \<Rightarrow> \<not> (counted = 0 \<and> rt_Turnout running = 0 \<and> sumCounts running = 0)
        | Some basis \<Rightarrow>
            fe_Denominator basis < rt_Turnout running
            \<or> sumCounts running \<noteq> rt_Turnout running
            \<or> counted \<noteq> rt_Turnout running)"

definition TurnoutWithinFrozenBasisInvariant :: "gov_state \<Rightarrow> bool" where
  "TurnoutWithinFrozenBasisInvariant s = list_ex (proposal_broken s) (TalliedProposalIDs s)"

end
