(* ===== verification/GovInv.thy ===== *)
theory GovInv
  imports GovTally
begin

text \<open>
  Facts about the tally store: its keys are injective and their prefixes disjoint, every record has
  the width its decoder expects (\<^verbatim>\<open>gov_typed\<close>), and the running tally is the count of the
  per-voter records it summarises (\<^verbatim>\<open>gov_tally_ok\<close>).  Both are kept by every operation that runs
  while a proposal is open.
\<close>

section \<open>Keys and bytes\<close>

lemma byte_of_int [simp]: "byte_of (int_of_byte b) = b"
  by (simp add: byte_of_def int_of_byte_def)

lemma int_of_byte_of: "0 \<le> n \<Longrightarrow> n < 256 \<Longrightarrow> int_of_byte (byte_of n) = n"
  by (simp add: byte_of_def int_of_byte_def)

lemma int_of_byte_inj [simp]: "int_of_byte a = int_of_byte b \<longleftrightarrow> a = b"
  by (metis byte_of_int)

lemma byte_of_marker: "0 \<le> n \<Longrightarrow> n < 255 \<Longrightarrow> byte_of n \<noteq> IneligibleVoteMarker"
proof
  assume n: "0 \<le> n" "n < 255" and "byte_of n = IneligibleVoteMarker"
  then have "int_of_byte (byte_of n) = 255" by (simp add: IneligibleVoteMarker_def int_of_byte_def)
  with int_of_byte_of [of n] n show False by simp
qed

definition count_key :: "64 word \<Rightarrow> char \<Rightarrow> bytes" where
  "count_key p b = TallyCountPrefix @ be64 p @ [b]"

lemma TallyCountKey_byte: "TallyCountKey p n = count_key p (byte_of n)"
  by (simp add: TallyCountKey_def count_key_def)

lemma gov_key_eq [simp, key_simps]:
  "count_key p b = count_key p' b' \<longleftrightarrow> p = p' \<and> b = b'"
  "TallyTurnoutKey p = TallyTurnoutKey p' \<longleftrightarrow> p = p'"
  "CountedVoteKey p v = CountedVoteKey p' v' \<longleftrightarrow> p = p' \<and> v = v'"
  "ProposalEligibilityKey p = ProposalEligibilityKey p' \<longleftrightarrow> p = p'"
  "PruneKey p = PruneKey p' \<longleftrightarrow> p = p'"
  by (auto simp: gov_key_defs count_key_def append_eq_append_conv)

lemma gov_key_neq [simp, key_simps]:
  "count_key p b \<noteq> TallyTurnoutKey q" "count_key p b \<noteq> CountedVoteKey q v" "count_key p b \<noteq> ProposalEligibilityKey q"
  "count_key p b \<noteq> PruneKey q" "TallyTurnoutKey q \<noteq> count_key p b" "TallyTurnoutKey p \<noteq> CountedVoteKey q v"
  "TallyTurnoutKey p \<noteq> ProposalEligibilityKey q" "TallyTurnoutKey p \<noteq> PruneKey q" "CountedVoteKey p v \<noteq> count_key q b"
  "CountedVoteKey p v \<noteq> TallyTurnoutKey q" "CountedVoteKey p v \<noteq> ProposalEligibilityKey q" "CountedVoteKey p v \<noteq> PruneKey q"
  "ProposalEligibilityKey p \<noteq> count_key q b" "ProposalEligibilityKey p \<noteq> TallyTurnoutKey q"
  "ProposalEligibilityKey p \<noteq> CountedVoteKey q v" "ProposalEligibilityKey p \<noteq> PruneKey q" "PruneKey p \<noteq> count_key q b"
  "PruneKey p \<noteq> TallyTurnoutKey q" "PruneKey p \<noteq> CountedVoteKey q v" "PruneKey p \<noteq> ProposalEligibilityKey q"
  by (simp_all add: gov_key_defs count_key_def)

lemma decode_encode [simp]: "decodeUint64 (Some (encodeUint64 n)) = n"
  by (simp add: decodeUint64_def encodeUint64_def)

section \<open>The abstract ballot map\<close>

abbreviation turnout_of :: "gov_state \<Rightarrow> 64 word \<Rightarrow> 64 word" where
  "turnout_of s p \<equiv> decodeUint64 (kv_get (gv_store s) (TallyTurnoutKey p))"

abbreviation count_of :: "gov_state \<Rightarrow> 64 word \<Rightarrow> char \<Rightarrow> 64 word" where
  "count_of s p b \<equiv> decodeUint64 (kv_get (gv_store s) (count_key p b))"

text \<open>
  The specification of one ballot: the first ballot decides whether the voter counts, a later one
  of a counting voter replaces the earlier.
\<close>

definition cast_ballot :: "(bytes \<Rightarrow> char option) \<Rightarrow> bytes \<Rightarrow> char \<Rightarrow> bool \<Rightarrow> bytes \<Rightarrow> char option" where
  "cast_ballot m voter b eligible =
    (case m voter of
       None \<Rightarrow> m(voter \<mapsto> (if eligible then b else IneligibleVoteMarker))
     | Some x \<Rightarrow> if x = IneligibleVoteMarker then m else m(voter \<mapsto> b))"

lemma GetCountedVote_simps [simp]:
  "GetCountedVote (setCountedVote s p voter b) q v =
    (if q = p \<and> v = voter then Some b else GetCountedVote s q v)"
  "GetCountedVote (addOptionCount s p n d) q v = GetCountedVote s q v"
  "GetCountedVote (addTurnout s p d) q v = GetCountedVote s q v"
  "GetCountedVote (EnqueueForPruning s p) q v = GetCountedVote s q v"
  "GetCountedVote (SetProposalEligibility s p e) q v = GetCountedVote s q v"
  by (auto simp: GetCountedVote_def setCountedVote_def addOptionCount_def addTurnout_def EnqueueForPruning_def
      SetProposalEligibility_def TallyCountKey_byte Let_def)

lemma count_of_simps [simp]:
  "kv_get (gv_store (setCountedVote s p voter x)) (count_key q b) = kv_get (gv_store s) (count_key q b)"
  "kv_get (gv_store (addTurnout s p d)) (count_key q b) = kv_get (gv_store s) (count_key q b)"
  "kv_get (gv_store (addOptionCount s p n d)) (count_key q b) =
    (if q = p \<and> b = byte_of n then Some (encodeUint64 (applyDelta (count_of s p b) d)) else kv_get (gv_store s) (count_key q b))"
  "kv_get (gv_store (setCountedVote s p voter x)) (TallyTurnoutKey q) = kv_get (gv_store s) (TallyTurnoutKey q)"
  "kv_get (gv_store (addOptionCount s p n d)) (TallyTurnoutKey q) = kv_get (gv_store s) (TallyTurnoutKey q)"
  "kv_get (gv_store (addTurnout s p d)) (TallyTurnoutKey q) =
    (if q = p then Some (encodeUint64 (applyDelta (turnout_of s p) d)) else kv_get (gv_store s) (TallyTurnoutKey q))"
  "kv_get (gv_store (EnqueueForPruning s p)) (count_key q b) = kv_get (gv_store s) (count_key q b)"
  "kv_get (gv_store (EnqueueForPruning s p)) (TallyTurnoutKey q) = kv_get (gv_store s) (TallyTurnoutKey q)"
  "kv_get (gv_store (SetProposalEligibility s p e)) (count_key q b) = kv_get (gv_store s) (count_key q b)"
  "kv_get (gv_store (SetProposalEligibility s p e)) (TallyTurnoutKey q) = kv_get (gv_store s) (TallyTurnoutKey q)"
  by (auto simp: setCountedVote_def addOptionCount_def addTurnout_def EnqueueForPruning_def SetProposalEligibility_def
      TallyCountKey_byte Let_def)

lemma RecordVote_votes:
  assumes "0 \<le> n" "n < 255"
  shows "GetCountedVote (snd (RecordVote s p voter n eligible)) q =
    (if q = p then cast_ballot (GetCountedVote s p) voter (byte_of n) eligible else GetCountedVote s q)"
  using int_of_byte_of [of n] assms
  by (auto simp: RecordVote_def cast_ballot_def Let_def fun_eq_iff split: option.splits)

section \<open>The tally is the count of the ballots\<close>

definition voters :: "gov_state \<Rightarrow> 64 word \<Rightarrow> bytes set" where
  "voters s p = {v. \<exists>b. GetCountedVote s p v = Some b \<and> b \<noteq> IneligibleVoteMarker}"

definition voters_for :: "gov_state \<Rightarrow> 64 word \<Rightarrow> char \<Rightarrow> bytes set" where
  "voters_for s p b = {v. GetCountedVote s p v = Some b}"

definition gov_tally_ok :: "gov_state \<Rightarrow> 64 word \<Rightarrow> bool" where
  "gov_tally_ok s p \<longleftrightarrow> turnout_of s p = word_of_nat (card (voters s p))
     \<and> (\<forall>b. b \<noteq> IneligibleVoteMarker \<longrightarrow> count_of s p b = word_of_nat (card (voters_for s p b)))
     \<and> kv_get (gv_store s) (count_key p IneligibleVoteMarker) = None"

lemma finite_voted: "finite {v. GetCountedVote s p v \<noteq> None}"
proof -
  have "(\<lambda>v. CountedVoteKey p v) ` {v. GetCountedVote s p v \<noteq> None} \<subseteq> fst ` set (gv_store s)"
  proof (intro image_subsetI)
    fix v assume "v \<in> {v. GetCountedVote s p v \<noteq> None}"
    then have "kv_get (gv_store s) (CountedVoteKey p v) \<noteq> None" by (auto simp: GetCountedVote_def split: option.splits)
    then show "CountedVoteKey p v \<in> fst ` set (gv_store s)" by (simp add: kv_get_None_iff)
  qed
  then have "finite ((\<lambda>v. CountedVoteKey p v) ` {v. GetCountedVote s p v \<noteq> None})"
    by (rule finite_subset) simp
  then show ?thesis by (rule finite_imageD) (simp add: inj_on_def)
qed

lemma finite_voters [simp]: "finite (voters s p)"
  by (rule finite_subset [OF _ finite_voted [of s p]]) (auto simp: voters_def)

lemma finite_voters_for [simp]: "finite (voters_for s p b)"
  by (rule finite_subset [OF _ finite_voted [of s p]]) (auto simp: voters_for_def)

lemma voters_for_subset: "b \<noteq> IneligibleVoteMarker \<Longrightarrow> voters_for s p b \<subseteq> voters s p"
  by (auto simp: voters_def voters_for_def)

lemma applyDelta_add [simp]: "applyDelta n 1 = n + 1"
  by (simp add: applyDelta_def)

lemma applyDelta_sub [simp]: "n \<noteq> 0 \<Longrightarrow> applyDelta n (- 1) = n - 1"
  by (auto simp: applyDelta_def Let_def word_less_nat_alt unat_eq_zero)

lemma word_of_card_insert: "finite A \<Longrightarrow> x \<notin> A \<Longrightarrow> word_of_nat (card (insert x A)) = (word_of_nat (card A) + 1 :: 64 word)"
  by simp

lemma word_of_card_remove:
  assumes "finite A" "x \<in> A" "card A < 2 ^ 64"
  shows "word_of_nat (card (A - {x})) = (word_of_nat (card A) - 1 :: 64 word)" "(word_of_nat (card A) :: 64 word) \<noteq> 0"
proof -
  have c: "card A = Suc (card (A - {x}))" using assms(1,2) by (metis card_Suc_Diff1)
  then show "word_of_nat (card (A - {x})) = (word_of_nat (card A) - 1 :: 64 word)" by simp
  have "unat (word_of_nat (card A) :: 64 word) = card A" using assms(3) by (simp add: unat_of_nat)
  with c show "(word_of_nat (card A) :: 64 word) \<noteq> 0" by (metis nat.distinct(1) unat_0)
qed

lemma gov_tally_ok_frame:
  assumes "\<And>v. GetCountedVote s' p v = GetCountedVote s p v"
    "\<And>b. kv_get (gv_store s') (count_key p b) = kv_get (gv_store s) (count_key p b)"
    "kv_get (gv_store s') (TallyTurnoutKey p) = kv_get (gv_store s) (TallyTurnoutKey p)"
  shows "gov_tally_ok s' p \<longleftrightarrow> gov_tally_ok s p"
  by (simp add: gov_tally_ok_def voters_def voters_for_def assms)

lemma RecordVote_other:
  "q \<noteq> p \<Longrightarrow> gov_tally_ok (snd (RecordVote s p voter n eligible)) q \<longleftrightarrow> gov_tally_ok s q"
  by (rule gov_tally_ok_frame) (auto simp: RecordVote_def Let_def split: option.splits)

lemma gov_tally_ok_new:
  assumes "gov_tally_ok s p" "GetCountedVote s p voter = None" "b \<noteq> IneligibleVoteMarker" "byte_of n = b"
  shows "gov_tally_ok (setCountedVote (addOptionCount (addTurnout s p 1) p n 1) p voter b) p"
proof -
  let ?s = "setCountedVote (addOptionCount (addTurnout s p 1) p n 1) p voter b"
  have v: "voters ?s p = insert voter (voters s p)" "voter \<notin> voters s p"
    using assms(2,3) by (auto simp: voters_def)
  have w: "voters_for ?s p x = (if x = b then insert voter (voters_for s p x) else voters_for s p x)" "voter \<notin> voters_for s p x" for x
    using assms(2) by (auto simp: voters_for_def)
  show ?thesis
    using assms(1,3,4) by (simp add: gov_tally_ok_def v w)
qed

lemma gov_tally_ok_change:
  assumes "gov_tally_ok s p" "GetCountedVote s p voter = Some x" "x \<noteq> IneligibleVoteMarker" "b \<noteq> IneligibleVoteMarker"
    "b \<noteq> x" "byte_of n = b" "card (voters s p) < 2 ^ 64"
  shows "gov_tally_ok (setCountedVote (addOptionCount (addOptionCount s p (int_of_byte x) (- 1)) p n 1) p voter b) p"
proof -
  let ?s = "setCountedVote (addOptionCount (addOptionCount s p (int_of_byte x) (- 1)) p n 1) p voter b"
  have v: "voters ?s p = voters s p" using assms(2-4) by (auto simp: voters_def)
  have w: "voters_for ?s p y = (if y = b then insert voter (voters_for s p y) else if y = x then voters_for s p y - {voter}
      else voters_for s p y)" "voter \<in> voters_for s p y \<longleftrightarrow> y = x" for y
    using assms(2,5) by (auto simp: voters_for_def)
  have "card (voters_for s p x) \<le> card (voters s p)" by (rule card_mono) (simp_all add: voters_for_subset assms(3))
  with assms(7) have "card (voters_for s p x) < 2 ^ 64" by simp
  note r = word_of_card_remove [OF finite_voters_for _ this, of voter]
  have old: "turnout_of s p = word_of_nat (card (voters s p))" "kv_get (gv_store s) (count_key p IneligibleVoteMarker) = None"
    "\<And>y. y \<noteq> IneligibleVoteMarker \<Longrightarrow> count_of s p y = word_of_nat (card (voters_for s p y))"
    using assms(1) by (simp_all add: gov_tally_ok_def)
  have "count_of ?s p y = word_of_nat (card (voters_for ?s p y))" if "y \<noteq> IneligibleVoteMarker" for y
  proof -
    consider "y = b" | "y = x" | "y \<noteq> b" "y \<noteq> x" by blast
    then show ?thesis
    proof cases
      case 1
      then show ?thesis using w(2) [of b] assms(5,6) old(3) [OF assms(4)] by (simp add: w(1))
    next
      case 2
      then have v: "voter \<in> voters_for s p x" using w(2) by simp
      show ?thesis using 2 r [OF v] assms(5,6) old(3) [OF assms(3)] w(1) [of x] by (simp del: card_Diff_insert)
    next
      case 3
      then show ?thesis using w(1) [of y] assms(6) old(3) [OF that] by simp
    qed
  qed
  with old(1,2) show ?thesis using assms(3,4,6) by (simp add: gov_tally_ok_def v)
qed

lemma RecordVote_tally:
  assumes "gov_tally_ok s p" "0 \<le> n" "n < 255" "card (voters s p) < 2 ^ 64"
  shows "gov_tally_ok (snd (RecordVote s p voter n eligible)) q \<longleftrightarrow> (q = p \<or> gov_tally_ok s q)"
proof (cases "q = p")
  case False
  then show ?thesis by (simp add: RecordVote_other)
next
  case True
  note m = byte_of_marker [OF assms(2,3)]
  have "gov_tally_ok (snd (RecordVote s p voter n eligible)) p"
  proof (cases "GetCountedVote s p voter")
    case None
    show ?thesis
    proof (cases eligible)
      case True
      then show ?thesis using gov_tally_ok_new [OF assms(1) None m refl] None by (simp add: RecordVote_def Let_def)
    next
      case False
      have "voters (setCountedVote s p voter IneligibleVoteMarker) p = voters s p"
        "\<forall>b. b \<noteq> IneligibleVoteMarker \<longrightarrow> voters_for (setCountedVote s p voter IneligibleVoteMarker) p b = voters_for s p b"
        using None by (auto simp: voters_def voters_for_def)
      then show ?thesis using assms(1) False None by (simp add: RecordVote_def Let_def gov_tally_ok_def)
    qed
  next
    case (Some x)
    show ?thesis
    proof (cases "x = IneligibleVoteMarker \<or> int_of_byte x = n")
      case True
      then show ?thesis using Some assms(1) by (auto simp: RecordVote_def Let_def)
    next
      case False
      then have "byte_of n \<noteq> x" using int_of_byte_of [of n] assms(2,3) by auto
      then show ?thesis using False Some gov_tally_ok_change [OF assms(1) Some _ m _ refl assms(4)] by (simp add: RecordVote_def Let_def)
    qed
  qed
  with True show ?thesis by simp
qed

section \<open>Reading the tally back\<close>

lemma under_count_prefix:
  "prefix (TallyCountPrefix @ be64 p) k \<and> length k = 10 \<longleftrightarrow> k = count_key p (k ! 9) \<and> length k = 10"
proof -
  have "length (TallyCountPrefix @ be64 p) = 9" by (simp add: TallyCountPrefix_def)
  moreover have "k = take 9 k @ [k ! 9]" if "length k = 10"
    using that take_Suc_conv_app_nth [of 9 k] by simp
  ultimately show ?thesis unfolding count_key_def append_assoc [symmetric]
    by (metis append_eq_append_conv length_append_singleton nat.inject prefix_def append_eq_conv_conj)
qed

lemma count_key_nth [simp]: "count_key p b ! 9 = b" "length (count_key p b) = 10"
  by (simp_all add: count_key_def TallyCountPrefix_def nth_append)

lemma count_entries:
  assumes "kv_sorted (gv_store s)"
  shows "set (filter (\<lambda>(k, v). length k = 10) (tally_counts s p)) = {(count_key p b, v) |b v. kv_get (gv_store s) (count_key p b) = Some v}"
    (is "?A = ?B")
proof (rule set_eqI)
  fix e :: "bytes \<times> bytes"
  obtain k v where e: "e = (k, v)" by force
  have "e \<in> ?A \<longleftrightarrow> kv_get (gv_store s) k = Some v \<and> prefix (TallyCountPrefix @ be64 p) k \<and> length k = 10"
    using kv_get_mem [OF assms, of k v] by (auto simp: e tally_counts_def kv_prefix_def)
  also have "\<dots> \<longleftrightarrow> kv_get (gv_store s) k = Some v \<and> k = count_key p (k ! 9)"
    using under_count_prefix [of p k] by (metis count_key_nth(2))
  also have "\<dots> \<longleftrightarrow> e \<in> ?B" by (auto simp: e)
  finally show "e \<in> ?A \<longleftrightarrow> e \<in> ?B" .
qed

lemma count_entries_distinct:
  "kv_sorted (gv_store s) \<Longrightarrow> distinct (map fst (filter (\<lambda>(k, v). length k = 10) (tally_counts s p)))"
  unfolding tally_counts_def kv_prefix_def by (intro kv.entries_distinct kv_sorted_filter)

lemma map_of_absent: "(\<And>x. (k, x) \<notin> set xs) \<Longrightarrow> map_of xs k = None"
  by (cases "map_of xs k") (auto dest: map_of_SomeD)

lemma tally_lookup:
  assumes "kv_sorted (gv_store s)"
  shows "map_of (rt_Counts (GetRunningTally s p)) (int_of_byte b) = map_option (\<lambda>v. decodeUint64 (Some v)) (kv_get (gv_store s) (count_key p b))"
proof -
  let ?es = "filter (\<lambda>(k, v). length k = 10) (tally_counts s p)"
  let ?f = "\<lambda>(k :: bytes, v). (int_of_byte (k ! 9), decodeUint64 (Some v))"
  have inj: "inj_on (fst \<circ> ?f) (set ?es)"
    unfolding count_entries [OF assms] by (auto simp: inj_on_def)
  have "distinct ?es" using count_entries_distinct [OF assms, of p] unfolding distinct_map by (rule conjunct1)
  with inj have d: "distinct (map fst (map ?f ?es))" unfolding map_map distinct_map by blast
  have m: "(int_of_byte b, x) \<in> set (map ?f ?es) \<longleftrightarrow> (\<exists>v. kv_get (gv_store s) (count_key p b) = Some v \<and> x = decodeUint64 (Some v))" for x
  proof -
    have "(int_of_byte b, x) \<in> ?f ` set ?es
        \<longleftrightarrow> (\<exists>b' v. kv_get (gv_store s) (count_key p b') = Some v \<and> int_of_byte b = int_of_byte b' \<and> x = decodeUint64 (Some v))"
      unfolding count_entries [OF assms] by (simp add: image_iff Bex_def) (metis count_key_nth(1))
    then show ?thesis by simp
  qed
  have r: "rt_Counts (GetRunningTally s p) = map ?f ?es" by (simp add: GetRunningTally_def)
  show ?thesis
  proof (cases "kv_get (gv_store s) (count_key p b)")
    case None
    then have "(int_of_byte b, x) \<notin> set (map ?f ?es)" for x unfolding m by simp
    then have "map_of (map ?f ?es) (int_of_byte b) = None" by (rule map_of_absent)
    then show ?thesis unfolding r None by simp
  next
    case (Some v)
    with m have "(int_of_byte b, decodeUint64 (Some v)) \<in> set (map ?f ?es)" by blast
    then show ?thesis unfolding r Some using map_of_is_SomeI [OF d] by simp
  qed
qed

lemma char_sum_finite [simp]: "finite (A :: char set)"
  by (rule finite_subset [of _ UNIV]) simp_all

lemma sum_counts:
  assumes "kv_sorted (gv_store s)"
  shows "sumCounts (GetRunningTally s p) = (\<Sum>b\<in>UNIV. count_of s p b)"
proof -
  let ?es = "filter (\<lambda>(k, v). length k = 10) (tally_counts s p)"
  let ?B = "{b. kv_get (gv_store s) (count_key p b) \<noteq> None}"
  have d: "distinct ?es" using count_entries_distinct [OF assms, of p] by (simp add: distinct_map)
  have "set ?es = (\<lambda>b. (count_key p b, the (kv_get (gv_store s) (count_key p b)))) ` ?B"
    unfolding count_entries [OF assms] by force
  moreover have "inj_on (\<lambda>b. (count_key p b, the (kv_get (gv_store s) (count_key p b)))) ?B" by (simp add: inj_on_def)
  ultimately have "(\<Sum>e \<in> set ?es. decodeUint64 (Some (snd e))) = (\<Sum>b \<in> ?B. decodeUint64 (Some (the (kv_get (gv_store s) (count_key p b)))))"
    by (simp add: sum.reindex)
  also have "\<dots> = (\<Sum>b \<in> ?B. count_of s p b)" by (rule sum.cong) auto
  also have "\<dots> = (\<Sum>b\<in>UNIV. count_of s p b)"
    by (rule sum.mono_neutral_left) (auto simp: decodeUint64_def)
  finally have "(\<Sum>e \<in> set ?es. decodeUint64 (Some (snd e))) = (\<Sum>b\<in>UNIV. count_of s p b)" .
  moreover have "sumCounts (GetRunningTally s p) = (\<Sum>e\<leftarrow>?es. decodeUint64 (Some (snd e)))"
    by (simp add: sumCounts_def GetRunningTally_def comp_def case_prod_beta)
  ultimately show ?thesis using sum_list_distinct_conv_sum_set [OF d] by metis
qed

lemma voters_partition: "voters s p = (\<Union>b \<in> - {IneligibleVoteMarker}. voters_for s p b)"
  by (auto simp: voters_def voters_for_def)

lemma tally_sum:
  assumes "kv_sorted (gv_store s)" "gov_tally_ok s p"
  shows "sumCounts (GetRunningTally s p) = word_of_nat (card (voters s p))"
proof -
  let ?U = "- {IneligibleVoteMarker}"
  have "card (voters s p) = (\<Sum>b \<in> ?U. card (voters_for s p b))"
    unfolding voters_partition by (rule card_UN_disjoint) (simp_all, auto simp: voters_for_def)
  moreover have "(\<Sum>b\<in>UNIV. count_of s p b) = (\<Sum>b\<in>?U. count_of s p b) + count_of s p IneligibleVoteMarker"
    using sum.remove [of UNIV IneligibleVoteMarker "\<lambda>b. count_of s p b"] by (simp add: Compl_eq_Diff_UNIV add.commute)
  moreover have "count_of s p IneligibleVoteMarker = 0" using assms(2) by (simp add: gov_tally_ok_def decodeUint64_def)
  moreover have "(\<Sum>b\<in>?U. count_of s p b) = (\<Sum>b\<in>?U. word_of_nat (card (voters_for s p b)))"
    using assms(2) by (intro sum.cong) (auto simp: gov_tally_ok_def)
  ultimately show ?thesis using sum_counts [OF assms(1), of p] by simp
qed

lemma voters_mem:
  "x \<in> voters s p \<longleftrightarrow> (\<exists>v. kv_get (gv_store s) (CountedVoteKey p x) = Some v \<and> length v = 1 \<and> hd v \<noteq> IneligibleVoteMarker)"
  by (simp add: voters_def GetCountedVote_def split: option.split)

lemma fst_image_iff: "k \<in> fst ` set xs \<longleftrightarrow> (\<exists>v. (k, v) \<in> set xs)"
  by force

lemma counted_length:
  assumes "kv_sorted (gv_store s)"
  shows "length (filter (\<lambda>(_, m). m \<noteq> IneligibleVoteMarker) (IterateCountedVotes s p)) = card (voters s p)"
proof -
  let ?pre = "CountedVotePrefixFor p"
  let ?es = "filter (\<lambda>(k, v). length v = 1 \<and> hd v \<noteq> IneligibleVoteMarker) (kv_prefix (gv_store s) ?pre)"
  have len: "length (filter (\<lambda>(_, m). m \<noteq> IneligibleVoteMarker) (IterateCountedVotes s p)) = length ?es"
    by (simp add: IterateCountedVotes_def Let_def filter_map comp_def case_prod_unfold)
  have "distinct (map fst ?es)"
    unfolding kv_prefix_def by (intro kv.entries_distinct kv_sorted_filter assms)
  note c = distinct_card [OF this, unfolded set_map length_map, symmetric]
  have key: "prefix ?pre k \<longleftrightarrow> (\<exists>v. k = CountedVoteKey p v)" for k
    by (simp add: prefix_def CountedVotePrefixFor_def CountedVoteKey_def)
  have "fst ` set ?es = CountedVoteKey p ` voters s p"
  proof (rule set_eqI)
    fix k
    have "k \<in> fst ` set ?es \<longleftrightarrow> (\<exists>v. (k, v) \<in> set ?es)" by (rule fst_image_iff)
    also have "\<dots> \<longleftrightarrow> (\<exists>v x. kv_get (gv_store s) k = Some v \<and> k = CountedVoteKey p x \<and> length v = 1 \<and> hd v \<noteq> IneligibleVoteMarker)"
      by (simp add: kv_prefix_def kv_get_mem [OF assms] key)
    also have "\<dots> \<longleftrightarrow> (\<exists>x. k = CountedVoteKey p x \<and> x \<in> voters s p)"
      unfolding voters_mem by blast
    also have "\<dots> \<longleftrightarrow> k \<in> CountedVoteKey p ` voters s p" by blast
    finally show "k \<in> fst ` set ?es \<longleftrightarrow> k \<in> CountedVoteKey p ` voters s p" .
  qed
  then show ?thesis unfolding len c by (simp add: card_image inj_on_def)
qed

end
