(* ===== verification/GovProps.thy ===== *)
theory GovProps
  imports GovInv IdExamples
begin

text \<open>Properties of the governance module on its own: the running tally, routing, pruning and genesis.\<close>

section \<open>The running tally agrees with a recount\<close>

text \<open>Any field of the reference count that counts the votes for one option.\<close>

lemma tally_votes_count:
  fixes f :: "OneHumanTally \<Rightarrow> 64 word"
  assumes "\<And>k r. f (add_option k r) = f r + (if k = n then 1 else 0)"
  shows "f (tally_votes E vs counted r) = f r
    + word_of_nat (card {v. v \<notin> set counted \<and> E v \<and> map_of (map (\<lambda>x. (vt_Voter x, vt_Option x)) vs) v = Some n})"
proof (induction vs arbitrary: counted r)
  case Nil
  then show ?case by simp
next
  case (Cons x vs)
  let ?S = "\<lambda>vs counted. {v. v \<notin> set counted \<and> E v \<and> map_of (map (\<lambda>x. (vt_Voter x, vt_Option x)) vs) v = Some n}"
  show ?case
  proof (cases "vt_Voter x \<in> set counted \<or> \<not> E (vt_Voter x)")
    case True
    then have "?S (x # vs) counted = ?S vs counted" by auto
    with True show ?thesis by (auto simp: Cons.IH)
  next
    case False
    have fin: "finite (?S vs (vt_Voter x # counted))"
      by (rule finite_subset [of _ "vt_Voter ` set vs"]) (auto dest!: map_of_SomeD)
    have "?S (x # vs) counted = (if vt_Option x = n then insert (vt_Voter x) (?S vs (vt_Voter x # counted)) else ?S vs (vt_Voter x # counted))"
      using False by auto
    moreover have "vt_Voter x \<notin> ?S vs (vt_Voter x # counted)" by simp
    ultimately have "card (?S (x # vs) counted) = card (?S vs (vt_Voter x # counted)) + (if vt_Option x = n then 1 else 0)"
      using fin by simp
    with False Cons.IH [of "vt_Voter x # counted"] assms show ?thesis by (simp add: ac_simps)
  qed
qed

lemma add_option_fields:
  "oh_Yes (add_option k r) = oh_Yes r + (if k = OptionYes then 1 else 0)"
  "oh_No (add_option k r) = oh_No r + (if k = OptionNo then 1 else 0)"
  "oh_NoWithVeto (add_option k r) = oh_NoWithVeto r + (if k = OptionNoWithVeto then 1 else 0)"
  "oh_Abstain (add_option k r) = oh_Abstain r + (if k = OptionAbstain then 1 else 0)"
  by (simp_all add: add_option_def OptionYes_def OptionNo_def OptionNoWithVeto_def OptionAbstain_def)

definition record_ballots :: "(string \<Rightarrow> bytes) \<Rightarrow> (string \<Rightarrow> bool) \<Rightarrow> 64 word \<Rightarrow> gov_state \<Rightarrow> (string \<times> int) list \<Rightarrow> gov_state" where
  "record_ballots addr E p s bs = foldl (\<lambda>s (v, n). snd (RecordVote s p (addr v) n (E v))) s bs"

lemma record_ballots_snoc:
  "record_ballots addr E p s (bs @ [(v, n)]) = snd (RecordVote (record_ballots addr E p s bs) p (addr v) n (E v))"
  by (simp add: record_ballots_def)

definition expected_mark :: "(string \<Rightarrow> bool) \<Rightarrow> (string \<times> int) list \<Rightarrow> string \<Rightarrow> char option" where
  "expected_mark E bs v = map_option (\<lambda>n. if E v then byte_of n else IneligibleVoteMarker) (map_of (rev bs) v)"

lemma ballots_marks:
  assumes "inj_on addr V" "fst ` set bs \<subseteq> V" "\<forall>(v, n) \<in> set bs. 0 \<le> n \<and> n < 255" "s = record_ballots addr E p empty_gov_state bs"
  shows "v \<in> V \<Longrightarrow> GetCountedVote s p (addr v) = expected_mark E bs v"
    "a \<notin> addr ` V \<Longrightarrow> GetCountedVote s p a = None"
proof -
  have "(\<forall>v \<in> V. GetCountedVote s p (addr v) = expected_mark E bs v) \<and> (\<forall>a. a \<notin> addr ` V \<longrightarrow> GetCountedVote s p a = None)"
    using assms(2-4)
  proof (induction bs arbitrary: s rule: rev_induct)
    case Nil
    then show ?case by (simp add: record_ballots_def empty_gov_state_def GetCountedVote_def expected_mark_def)
  next
    case (snoc b bs)
    obtain u n where b: "b = (u, n)" by force
    let ?t = "record_ballots addr E p empty_gov_state bs"
    have ih: "\<forall>v \<in> V. GetCountedVote ?t p (addr v) = expected_mark E bs v" "\<forall>a. a \<notin> addr ` V \<longrightarrow> GetCountedVote ?t p a = None"
      using snoc.IH [OF _ _ refl] snoc.prems(1,2) by auto
    have u: "u \<in> V" "0 \<le> n" "n < 255" using snoc.prems(1,2) by (auto simp: b)
    have s: "GetCountedVote s p = cast_ballot (GetCountedVote ?t p) (addr u) (byte_of n) (E u)"
      using snoc.prems(3) RecordVote_votes [OF u(2,3), of ?t p "addr u" "E u" p] by (simp add: b record_ballots_snoc)
    have m: "GetCountedVote ?t p (addr u) = expected_mark E bs u" using ih(1) u(1) by blast
    have neq: "addr v \<noteq> addr u" if "v \<in> V" "v \<noteq> u" for v using assms(1) that u(1) by (auto simp: inj_on_def)
    have mark: "expected_mark E (bs @ [b]) v = (if v = u then Some (if E u then byte_of n else IneligibleVoteMarker) else expected_mark E bs v)" for v
      by (simp add: expected_mark_def b)
    have known: "expected_mark E bs u = None \<or> E u \<and> (\<exists>x. expected_mark E bs u = Some x \<and> x \<noteq> IneligibleVoteMarker)
        \<or> \<not> E u \<and> expected_mark E bs u = Some IneligibleVoteMarker"
    proof (cases "map_of (rev bs) u")
      case (Some k)
      then have "(u, k) \<in> set bs" using map_of_SomeD by fastforce
      then have "0 \<le> k" "k < 255" using snoc.prems(2) by auto
      from byte_of_marker [OF this] Some show ?thesis by (simp add: expected_mark_def)
    qed (simp add: expected_mark_def)
    have "GetCountedVote s p (addr v) = expected_mark E (bs @ [b]) v" if "v \<in> V" for v
      using known m ih(1) that neq [of v] unfolding s mark cast_ballot_def by (cases "v = u") (auto split: option.split)
    moreover have "GetCountedVote s p a = None" if "a \<notin> addr ` V" for a
      using ih(2) that u(1) m unfolding s cast_ballot_def by (auto split: option.split)
    ultimately show ?case by blast
  qed
  then show "v \<in> V \<Longrightarrow> GetCountedVote s p (addr v) = expected_mark E bs v" "a \<notin> addr ` V \<Longrightarrow> GetCountedVote s p a = None"
    by blast+
qed

lemma RecordVote_sorted: "kv_sorted (gv_store s) \<Longrightarrow> kv_sorted (gv_store (snd (RecordVote s p v n e)))"
  by (simp add: RecordVote_def Let_def setCountedVote_def addOptionCount_def addTurnout_def split: option.split)

lemma RecordVote_voters: "0 \<le> n \<Longrightarrow> n < 255 \<Longrightarrow> voters (snd (RecordVote s p v n e)) p \<subseteq> insert v (voters s p)"
  by (auto simp: voters_def RecordVote_votes cast_ballot_def split: option.splits if_splits)

lemma ballots_tally:
  fixes addr :: "string \<Rightarrow> bytes" and E :: "string \<Rightarrow> bool" and p :: "64 word"
  assumes "\<forall>(v, n) \<in> set bs. 0 \<le> n \<and> n < 255" "length bs < 2 ^ 64"
  defines "s \<equiv> record_ballots addr E p empty_gov_state bs"
  shows "kv_sorted (gv_store s)" "gov_tally_ok s p" "card (voters s p) \<le> length bs"
proof -
  have "kv_sorted (gv_store s) \<and> gov_tally_ok s p \<and> card (voters s p) \<le> length bs"
    unfolding s_def using assms(1,2)
  proof (induction bs rule: rev_induct)
    case Nil
    have "voters empty_gov_state p = {}" "voters_for empty_gov_state p b = {}" for b
      by (simp_all add: voters_def voters_for_def GetCountedVote_def empty_gov_state_def)
    then show ?case by (simp add: record_ballots_def gov_tally_ok_def empty_gov_state_def decodeUint64_def)
  next
    case (snoc b bs)
    obtain u n where b: "b = (u, n)" by force
    let ?t = "record_ballots addr E p empty_gov_state bs"
    have ih: "kv_sorted (gv_store ?t)" "gov_tally_ok ?t p" "card (voters ?t p) \<le> length bs" using snoc by simp_all
    have n: "0 \<le> n" "n < 255" using snoc.prems(1) by (auto simp: b)
    have "card (voters ?t p) < 2 ^ 64" using ih(3) snoc.prems(2) by simp
    note r = RecordVote_tally [OF ih(2) n this, of "addr u" "E u" p]
    have "card (voters (snd (RecordVote ?t p (addr u) n (E u))) p) \<le> card (insert (addr u) (voters ?t p))"
      by (rule card_mono [OF _ RecordVote_voters [OF n]]) simp
    also have "\<dots> \<le> Suc (card (voters ?t p))" by (rule card_insert_le_m1 [of "Suc _", simplified]) simp
    finally show ?case using ih r RecordVote_sorted [OF ih(1)] by (simp add: b record_ballots_snoc)
  qed
  then show "kv_sorted (gv_store s)" "gov_tally_ok s p" "card (voters s p) \<le> length bs" by blast+
qed

definition running_count :: "gov_state \<Rightarrow> 64 word \<Rightarrow> int \<Rightarrow> 64 word" where
  "running_count s p n = (case map_of (rt_Counts (GetRunningTally s p)) n of None \<Rightarrow> 0 | Some x \<Rightarrow> x)"

lemma running_count_card:
  assumes "kv_sorted (gv_store s)" "gov_tally_ok s p" "0 \<le> n" "n < 255"
  shows "running_count s p n = word_of_nat (card (voters_for s p (byte_of n)))"
proof -
  have n: "n = int_of_byte (byte_of n)" using assms(3,4) by (simp add: int_of_byte_of)
  have "running_count s p n = count_of s p (byte_of n)"
    by (subst n) (simp add: running_count_def tally_lookup [OF assms(1)] decodeUint64_def split: option.split)
  with assms(2) byte_of_marker [OF assms(3,4)] show ?thesis by (simp add: gov_tally_ok_def)
qed

lemma recount_voters:
  fixes addr :: "string \<Rightarrow> bytes" and E :: "string \<Rightarrow> bool" and p :: "64 word"
  assumes "inj_on addr (fst ` set bs)" "\<forall>(v, n) \<in> set bs. 0 \<le> n \<and> n < 255" "0 \<le> n" "n < 255"
  defines "s \<equiv> record_ballots addr E p empty_gov_state bs"
  shows "card (voters_for s p (byte_of n)) = card {v. E v \<and> map_of (rev bs) v = Some n}"
proof -
  note m = ballots_marks [OF assms(1) order_refl assms(2), of s E p]
  have byte: "byte_of k = byte_of n \<longleftrightarrow> k = n" if "0 \<le> k" "k < 255" for k
    using that assms(3,4) by (auto dest!: arg_cong [of _ _ int_of_byte] simp: int_of_byte_of simp del: int_of_byte_inj)
  have mem: "v \<in> fst ` set bs \<and> 0 \<le> k \<and> k < 255" if "map_of (rev bs) v = Some k" for v k
    using map_of_SomeD [OF that] assms(2) by force
  have "voters_for s p (byte_of n) = addr ` {v. E v \<and> map_of (rev bs) v = Some n}"
  proof (intro equalityI subsetI)
    fix a assume "a \<in> voters_for s p (byte_of n)"
    then have a: "GetCountedVote s p a = Some (byte_of n)" by (simp add: voters_for_def)
    with m(2) [of a] obtain v where v: "v \<in> fst ` set bs" "a = addr v" by (force simp: s_def)
    have "map_option (\<lambda>k. if E v then byte_of k else IneligibleVoteMarker) (map_of (rev bs) v) = Some (byte_of n)"
      using a m(1) [of v] v by (simp add: s_def expected_mark_def)
    then obtain k where k: "map_of (rev bs) v = Some k" "(if E v then byte_of k else IneligibleVoteMarker) = byte_of n"
      unfolding map_option_eq_Some by blast
    then have "E v" "k = n" using byte_of_marker [OF assms(3,4)] mem [OF k(1)] byte [of k] by (auto split: if_splits)
    with v(2) k(1) show "a \<in> addr ` {v. E v \<and> map_of (rev bs) v = Some n}" by blast
  next
    fix a assume "a \<in> addr ` {v. E v \<and> map_of (rev bs) v = Some n}"
    then obtain v where v: "a = addr v" "E v" "map_of (rev bs) v = Some n" by blast
    then show "a \<in> voters_for s p (byte_of n)" using m(1) [of v] mem [OF v(3)] by (simp add: voters_for_def s_def expected_mark_def)
  qed
  moreover have "inj_on addr {v. E v \<and> map_of (rev bs) v = Some n}"
    by (rule inj_on_subset [OF assms(1)]) (use mem in blast)
  ultimately show ?thesis by (simp add: card_image)
qed

text \<open>
  C33: The incremental tally implements the reference count of the module: folding ballots one by
  one, with changes of mind retracted and re-added, gives for every option exactly what
  \<^verbatim>\<open>TallyOneHumanOneVote\<close> counts over the latest ballot of each voter, and the turnout is the
  number of distinct eligible voters.
\<close>

theorem running_tally_refines_recount:
  fixes start :: int and addr :: "string \<Rightarrow> bytes" and ids :: id_state and p :: "64 word"
  assumes "inj_on addr (fst ` set bs)" "\<forall>(v, n) \<in> set bs. n \<in> {OptionYes, OptionNo, OptionNoWithVeto, OptionAbstain}"
    "length bs < 2 ^ 64"
  defines "E \<equiv> \<lambda>v. IsEligibleControllerAt ids v start (MinIdentityAge ids)"
  defines "s \<equiv> record_ballots addr E p empty_gov_state bs"
  defines "T \<equiv> TallyOneHumanOneVote ids start (map (\<lambda>(v, n). \<lparr>vt_Voter = v, vt_Option = n\<rparr>) (rev bs))"
  shows "running_count s p OptionYes = oh_Yes T \<and> running_count s p OptionNo = oh_No T
    \<and> running_count s p OptionNoWithVeto = oh_NoWithVeto T \<and> running_count s p OptionAbstain = oh_Abstain T
    \<and> unat (rt_Turnout (GetRunningTally s p)) = card {v \<in> fst ` set bs. E v}"
proof -
  have r: "\<forall>(v, n) \<in> set bs. 0 \<le> n \<and> n < 255"
    using assms(2) by (auto simp: OptionYes_def OptionNo_def OptionNoWithVeto_def OptionAbstain_def)
  note b = ballots_tally [OF r assms(3), of addr E p, folded s_def]
  have maps: "map (\<lambda>x. (vt_Voter x, vt_Option x)) (map (\<lambda>(v, n). \<lparr>vt_Voter = v, vt_Option = n\<rparr>) (rev bs)) = rev bs"
    by (simp add: comp_def case_prod_beta)
  have one: "running_count s p n = word_of_nat (card {v. E v \<and> map_of (rev bs) v = Some n})" if "0 \<le> n" "n < 255" for n
    using running_count_card [OF b(1,2) that] recount_voters [OF assms(1) r that, of E p, folded s_def] by simp
  have ref: "f T = f \<lparr>oh_Yes = 0, oh_No = 0, oh_NoWithVeto = 0, oh_Abstain = 0,
        oh_TotalEligible = CountEligibleControllersAt ids start (MinIdentityAge ids)\<rparr>
      + word_of_nat (card {v. E v \<and> map_of (rev bs) v = Some n})"
    if "\<And>k r. f (add_option k r) = f r + (if k = n then 1 else 0)" for f :: "OneHumanTally \<Rightarrow> 64 word" and n
    unfolding T_def TallyOneHumanOneVote_def Let_def E_def [symmetric]
    using tally_votes_count [of f n E "map (\<lambda>(v, n). \<lparr>vt_Voter = v, vt_Option = n\<rparr>) (rev bs)" "[]", OF that] unfolding maps by simp
  have "voters s p = addr ` {v \<in> fst ` set bs. E v}"
  proof -
    note m = ballots_marks [OF assms(1) order_refl r meta_eq_to_obj_eq [OF s_def]]
    have dom: "map_of (rev bs) v \<noteq> None" if "v \<in> fst ` set bs" for v using that by (simp add: map_of_eq_None_iff)
    have mark: "\<exists>x. expected_mark E bs v = Some x \<and> (x \<noteq> IneligibleVoteMarker \<longleftrightarrow> E v)" if v: "v \<in> fst ` set bs" for v
    proof -
      from dom [OF v] obtain k where k: "map_of (rev bs) v = Some k" by blast
      then have "0 \<le> k" "k < 255" using r map_of_SomeD [OF k] by auto
      then show ?thesis using byte_of_marker [of k] k by (simp add: expected_mark_def)
    qed
    have "a \<in> voters s p \<longleftrightarrow> (\<exists>v \<in> fst ` set bs. a = addr v \<and> E v)" for a
    proof (cases "a \<in> addr ` fst ` set bs")
      case True
      then obtain v where v: "v \<in> fst ` set bs" "a = addr v" by blast
      have inj: "u = v" if "u \<in> fst ` set bs" "addr v = addr u" for u using inj_onD [OF assms(1) that(2) v(1) that(1)] by simp
      have "a \<in> voters s p \<longleftrightarrow> E v" using mark [OF v(1)] m(1) [OF v(1)] by (auto simp: voters_def v(2))
      also have "\<dots> \<longleftrightarrow> (\<exists>v \<in> fst ` set bs. a = addr v \<and> E v)"
      proof
        assume "E v"
        with v show "\<exists>v \<in> fst ` set bs. a = addr v \<and> E v" by (intro bexI [of _ v]) simp_all
      next
        assume "\<exists>v \<in> fst ` set bs. a = addr v \<and> E v"
        then obtain u where u: "u \<in> fst ` set bs" "a = addr u" "E u" by (elim bexE conjE)
        with inj [OF u(1)] v(2) show "E v" by simp
      qed
      finally show ?thesis .
    next
      case False
      then show ?thesis using m(2) [OF False] by (auto simp: voters_def)
    qed
    then show ?thesis by blast
  qed
  moreover have "inj_on addr {v \<in> fst ` set bs. E v}" by (rule inj_on_subset [OF assms(1)]) blast
  ultimately have card: "card (voters s p) = card {v \<in> fst ` set bs. E v}" by (simp add: card_image)
  have "rt_Turnout (GetRunningTally s p) = word_of_nat (card (voters s p))"
    using b(2) by (simp add: GetRunningTally_def gov_tally_ok_def)
  then have "unat (rt_Turnout (GetRunningTally s p)) = card {v \<in> fst ` set bs. E v}"
    using b(3) assms(3) card by (simp add: unat_of_nat)
  then show ?thesis
    using one [of OptionYes] one [of OptionNo] one [of OptionNoWithVeto] one [of OptionAbstain]
      ref [of oh_Yes, OF add_option_fields(1)] ref [of oh_No, OF add_option_fields(2)]
      ref [of oh_NoWithVeto, OF add_option_fields(3)] ref [of oh_Abstain, OF add_option_fields(4)]
    by (simp add: OptionYes_def OptionNo_def OptionNoWithVeto_def OptionAbstain_def)
qed

theorem running_tally_refines_recount_witness:
  "running_count (record_ballots (\<lambda>v. v) (\<lambda>v. IsEligibleControllerAt guarded_state v (900000 * nanos) (MinIdentityAge guarded_state)) 7
      empty_gov_state [(''alice'', OptionYes), (''gus'', OptionNo), (''alice'', OptionNo), (''eve'', OptionYes)]) 7 OptionNo
    = oh_No (TallyOneHumanOneVote guarded_state (900000 * nanos)
      (map (\<lambda>(v, n). \<lparr>vt_Voter = v, vt_Option = n\<rparr>)
        (rev [(''alice'', OptionYes), (''gus'', OptionNo), (''alice'', OptionNo), (''eve'', OptionYes)])))"
  using running_tally_refines_recount
    [of "\<lambda>v. v" "[(''alice'', OptionYes), (''gus'', OptionNo), (''alice'', OptionNo), (''eve'', OptionYes)]" guarded_state "900000 * nanos" 7]
  by simp

section \<open>Routing\<close>

lemma validate_routes_ok:
  assumes "validate_routes seen es = Inr ()"
  shows "distinct (map vr_MsgTypeUrl es)"
proof -
  have "distinct (map vr_MsgTypeUrl es) \<and> vr_MsgTypeUrl ` set es \<inter> set seen = {}"
    using assms
  proof (induction es arbitrary: seen)
    case (Cons e es)
    then have e: "vr_MsgTypeUrl e \<notin> set seen" "validate_routes (vr_MsgTypeUrl e # seen) es = Inr ()"
      by (auto split: if_splits)
    from Cons.IH [OF e(2)] e(1) show ?case by auto
  qed simp
  then show ?thesis by simp
qed

lemma RouteTable_entry:
  assumes "gov_Params_Validate p = Inr ()" "e \<in> set (gp_VoteRoutes p)"
  shows "RouteTable p (vr_MsgTypeUrl e) = vr_Route e"
proof -
  let ?m = "map (\<lambda>e. (vr_MsgTypeUrl e, vr_Route e)) (gp_VoteRoutes p)"
  have "distinct (map vr_MsgTypeUrl (gp_VoteRoutes p))"
    using validate_routes_ok assms(1) unfolding gov_Params_Validate_def by blast
  then have "distinct (map fst (rev ?m))" by (simp add: rev_map [symmetric] comp_def)
  moreover have "(vr_MsgTypeUrl e, vr_Route e) \<in> set (rev ?m)" using assms(2) by auto
  ultimately have "map_of (rev ?m) (vr_MsgTypeUrl e) = Some (vr_Route e)" by (rule map_of_is_SomeI)
  then show ?thesis by (simp add: RouteTable_def)
qed

text \<open>
  C34: Under any accepted table a proposal goes to the validators exactly when it has messages and
  every one of them is listed as technical.  In particular a proposal that changes the table
  itself, one with an unlisted message and an empty one are always decided by the public.
\<close>

theorem technical_only_if_listed:
  assumes "gov_Params_Validate p = Inr ()"
  shows "Classify msgs (RouteTable p) = VOTE_ROUTE_TECHNICAL \<longleftrightarrow>
      msgs \<noteq> [] \<and> (\<forall>m \<in> set msgs. \<lparr>vr_MsgTypeUrl = m, vr_Route = VOTE_ROUTE_TECHNICAL\<rparr> \<in> set (gp_VoteRoutes p))
    \<and> MappingUpdateMsgTypeURL \<notin> set msgs"
proof -
  have one: "RouteFor m (RouteTable p) \<noteq> VOTE_ROUTE_PUBLIC \<longleftrightarrow>
      \<lparr>vr_MsgTypeUrl = m, vr_Route = VOTE_ROUTE_TECHNICAL\<rparr> \<in> set (gp_VoteRoutes p) \<and> m \<noteq> MappingUpdateMsgTypeURL" for m
  proof -
    have "RouteTable p m = VOTE_ROUTE_TECHNICAL \<Longrightarrow> \<exists>e \<in> set (gp_VoteRoutes p). vr_MsgTypeUrl e = m \<and> vr_Route e = VOTE_ROUTE_TECHNICAL"
      by (auto simp: RouteTable_def split: option.splits dest!: map_of_SomeD) force
    then have "RouteTable p m = VOTE_ROUTE_TECHNICAL \<Longrightarrow> \<lparr>vr_MsgTypeUrl = m, vr_Route = VOTE_ROUTE_TECHNICAL\<rparr> \<in> set (gp_VoteRoutes p)"
      by (metis (full_types) VoteRouteEntry.surjective old.unit.exhaust)
    moreover have "\<lparr>vr_MsgTypeUrl = m, vr_Route = VOTE_ROUTE_TECHNICAL\<rparr> \<in> set (gp_VoteRoutes p) \<Longrightarrow> RouteTable p m = VOTE_ROUTE_TECHNICAL"
      using RouteTable_entry [OF assms] by force
    ultimately show ?thesis by (auto simp: RouteFor_def)
  qed
  have "Classify msgs (RouteTable p) = VOTE_ROUTE_TECHNICAL \<longleftrightarrow> msgs \<noteq> [] \<and> (\<forall>m \<in> set msgs. RouteFor m (RouteTable p) \<noteq> VOTE_ROUTE_PUBLIC)"
    by (auto simp: Classify_def list_ex_iff)
  then show ?thesis unfolding one by blast
qed

theorem technical_only_if_listed_witness:
  "Classify [''/cosmos.upgrade.v1beta1.MsgSoftwareUpgrade''] (RouteTable gov_DefaultParams) = VOTE_ROUTE_TECHNICAL
    \<and> Classify [''/cosmos.upgrade.v1beta1.MsgSoftwareUpgrade'', MappingUpdateMsgTypeURL] (RouteTable gov_DefaultParams) \<noteq> VOTE_ROUTE_TECHNICAL"
proof -
  have v: "gov_Params_Validate gov_DefaultParams = Inr ()" by code_simp
  show ?thesis
    using technical_only_if_listed [OF v, of "[''/cosmos.upgrade.v1beta1.MsgSoftwareUpgrade'']"]
      technical_only_if_listed [OF v, of "[''/cosmos.upgrade.v1beta1.MsgSoftwareUpgrade'', MappingUpdateMsgTypeURL]"]
    by (simp add: gov_DefaultParams_def DefaultTechnicalMsgTypeURLs_def MappingUpdateMsgTypeURL_def)
qed

end
