(* ===== verification/GovPrune.thy ===== *)
theory GovPrune
  imports GovInv "HOL-Library.Code_Target_Nat"
begin

text \<open>
  The block-by-block deletion of finished proposals: it touches only queued proposals, always makes
  progress, and a proposal leaves the queue only together with its last record.
\<close>

section \<open>The records of a proposal\<close>

definition of_proposal :: "64 word \<Rightarrow> bytes \<Rightarrow> bool" where
  "of_proposal p k \<longleftrightarrow> prefix (CountedVotePrefixFor p) k \<or> prefix (TallyCountPrefix @ be64 p) k
     \<or> k \<in> {TallyTurnoutKey p, ProposalEligibilityKey p, PruneKey p}"

lemma be64_prefix_unique: "prefix (x # be64 p) k \<Longrightarrow> prefix (y # be64 q) k \<Longrightarrow> x = y \<and> p = q"
proof -
  assume "prefix (x # be64 p) k" "prefix (y # be64 q) k"
  then obtain u v where "x = y" "be64 p @ u = be64 q @ v" by (auto simp: prefix_def)
  then show "x = y \<and> p = q" by (metis dec64_be64)
qed

lemma of_proposal_unique: "of_proposal p k \<Longrightarrow> of_proposal q k \<Longrightarrow> p = q"
  unfolding of_proposal_def CountedVotePrefixFor_def
  by (auto simp: gov_key_defs dest: be64_prefix_unique)

lemma vote_keys_of: "set (map fst (kv_prefix m (CountedVotePrefixFor p))) \<subseteq> {k. of_proposal p k \<and> k \<noteq> PruneKey p}"
  by (auto simp: kv_prefix_def of_proposal_def gov_key_defs)

lemma kv_delete_filter: "kv_delete m k = filter (\<lambda>e. fst e \<notin> {k}) m"
  by (simp add: kv_delete_def)

text \<open>One round deletes records of its proposal only; it keeps the queue marker or deletes everything.\<close>

lemma prune_one_spec:
  assumes "deleted < budget" "prune_one budget p deleted m = (d', m')"
  obtains K where "m' = filter (\<lambda>e. fst e \<notin> K) m" "K \<subseteq> {k. of_proposal p k}" "d' > deleted"
    "PruneKey p \<in> K \<and> (\<forall>k \<in> fst ` set m. of_proposal p k \<longrightarrow> k \<in> K) \<or> PruneKey p \<notin> K \<and> K \<inter> fst ` set m \<noteq> {}"
proof -
  define ks where "ks = map fst (kv_prefix m (CountedVotePrefixFor p))"
  define batch where "batch = take (budget - deleted) ks"
  define ts where "ts = map fst (kv_prefix m (TallyCountPrefix @ be64 p))"
  have ks: "set ks \<subseteq> {k. of_proposal p k \<and> k \<noteq> PruneKey p}" "set ks \<subseteq> fst ` set m"
    using vote_keys_of [of m p] by (auto simp: ks_def kv_prefix_def)
  have bs: "set batch \<subseteq> set ks" unfolding batch_def by (rule set_take_subset)
  have one: "prune_one budget p deleted m =
      (if batch \<noteq> [] then (deleted + length batch, kv_delete_all m batch)
       else (deleted + length ts + 1, kv_delete (kv_delete (kv_delete (kv_delete_all m ts)
         (TallyTurnoutKey p)) (ProposalEligibilityKey p)) (PruneKey p)))"
    by (simp add: prune_one_def Let_def batch_def ts_def ks_def)
  show thesis
  proof (cases "batch = []")
    case False
    then have r: "d' = deleted + length batch" "m' = filter (\<lambda>e. fst e \<notin> set batch) m" "set batch \<noteq> {}"
      using assms(2) one by (auto simp: kv_delete_all_filter)
    obtain x where x: "x \<in> set batch" using False by (cases batch) auto
    have "x \<in> set batch \<inter> fst ` set m" by (rule IntI [OF x subsetD [OF ks(2) subsetD [OF bs x]]])
    then have "set batch \<inter> fst ` set m \<noteq> {}" by (metis empty_iff)
    moreover have sub: "set batch \<subseteq> {k. of_proposal p k \<and> k \<noteq> PruneKey p}" by (rule subset_trans [OF bs ks(1)])
    then have "PruneKey p \<notin> set batch" "set batch \<subseteq> {k. of_proposal p k}" by (auto dest: subsetD)
    ultimately show thesis using r False by (intro that [of "set batch"]) simp_all
  next
    case True
    define K where "K = set ts \<union> {TallyTurnoutKey p, ProposalEligibilityKey p, PruneKey p}"
    have none: "ks = []" using True assms(1) by (simp add: batch_def)
    have r: "d' = deleted + length ts + 1" "m' = filter (\<lambda>e. fst e \<notin> K) m"
      using assms(2) True one by (auto simp: K_def kv_delete_all_filter kv_delete_filter intro!: filter_cong)
    have sub: "K \<subseteq> {k. of_proposal p k}" by (auto simp: K_def ts_def kv_prefix_def of_proposal_def)
    have all: "k \<in> K" if k: "k \<in> fst ` set m" "of_proposal p k" for k
    proof -
      have "\<not> prefix (CountedVotePrefixFor p) k" using none k(1) by (auto simp: ks_def kv_prefix_def filter_empty_conv)
      moreover have "k \<in> set ts" if "prefix (TallyCountPrefix @ be64 p) k" using k(1) that by (auto simp: ts_def kv_prefix_def)
      ultimately show ?thesis using k(2) by (auto simp: of_proposal_def K_def)
    qed
    have "PruneKey p \<in> K" "d' > deleted" using r(1) by (simp_all add: K_def)
    then show thesis using all sub r(2) by (intro that [of K]) simp_all
  qed
qed

definition settled :: "bytes kv \<Rightarrow> 64 word \<Rightarrow> bool" where
  "settled m p \<longleftrightarrow> PruneKey p \<in> fst ` set m \<or> (\<forall>k \<in> fst ` set m. \<not> of_proposal p k)"

lemma prune_one_settled:
  assumes "deleted < budget" "prune_one budget p deleted m = (d', m')" "settled m q"
  shows "settled m' q"
proof -
  obtain K where K: "m' = filter (\<lambda>e. fst e \<notin> K) m" "K \<subseteq> {k. of_proposal p k}"
    "PruneKey p \<in> K \<and> (\<forall>k \<in> fst ` set m. of_proposal p k \<longrightarrow> k \<in> K) \<or> PruneKey p \<notin> K"
    using prune_one_spec [OF assms(1,2)] by metis
  have m': "fst ` set m' = fst ` set m - K" unfolding K(1) by force
  show ?thesis
  proof (cases "q = p")
    case True
    then show ?thesis using assms(3) K(3) unfolding settled_def m' by blast
  next
    case False
    have "PruneKey q \<notin> K" using K(2) False of_proposal_unique [of p "PruneKey q" q] by (auto simp: of_proposal_def [of q])
    then show ?thesis using assms(3) unfolding settled_def m' by blast
  qed
qed

lemma prune_loop_spec:
  assumes "prune_loop budget ps deleted m = (d', m')"
  shows "\<forall>q. settled m q \<longrightarrow> settled m' q"
    "\<exists>K. m' = filter (\<lambda>e. fst e \<notin> K) m \<and> K \<subseteq> {k. \<exists>p \<in> set ps. of_proposal p k}"
    "ps \<noteq> [] \<Longrightarrow> deleted < budget \<Longrightarrow> PruneKey (hd ps) \<in> fst ` set m \<Longrightarrow> length m' < length m"
proof -
  have keeps: "(\<forall>q. settled m q \<longrightarrow> settled m' q)
    \<and> (\<exists>K. m' = filter (\<lambda>e. fst e \<notin> K) m \<and> K \<subseteq> {k. \<exists>p \<in> set ps. of_proposal p k})"
    if "prune_loop budget ps deleted m = (d', m')" for ps deleted m
    using that
  proof (induction ps arbitrary: deleted m)
    case Nil
    then show ?case by (intro conjI exI [of _ "{}"]) simp_all
  next
    case (Cons p ps)
    show ?case
    proof (cases "budget \<le> deleted")
      case True
      with Cons.prems show ?thesis by (intro conjI exI [of _ "{}"]) simp_all
    next
      case False
      obtain d1 m1 where one: "prune_one budget p deleted m = (d1, m1)" by force
      have lt: "deleted < budget" using False by simp
      obtain K where K: "m1 = filter (\<lambda>e. fst e \<notin> K) m" "K \<subseteq> {k. of_proposal p k}"
        using prune_one_spec [OF lt one] by metis
      have "prune_loop budget ps d1 m1 = (d', m')" using Cons.prems False one by simp
      from Cons.IH [OF this] obtain L where L: "m' = filter (\<lambda>e. fst e \<notin> L) m1" "L \<subseteq> {k. \<exists>p \<in> set ps. of_proposal p k}"
        and st: "\<forall>q. settled m1 q \<longrightarrow> settled m' q" by blast
      have "m' = filter (\<lambda>e. fst e \<notin> K \<union> L) m" unfolding L(1) K(1) by (auto intro: filter_cong)
      moreover have "K \<union> L \<subseteq> {k. \<exists>p \<in> set (p # ps). of_proposal p k}" using K(2) L(2) by auto
      ultimately show ?thesis using st prune_one_settled [OF lt one] by blast
    qed
  qed
  from keeps [OF assms] show "\<forall>q. settled m q \<longrightarrow> settled m' q"
    "\<exists>K. m' = filter (\<lambda>e. fst e \<notin> K) m \<and> K \<subseteq> {k. \<exists>p \<in> set ps. of_proposal p k}" by blast+
  assume ps: "ps \<noteq> []" "deleted < budget" "PruneKey (hd ps) \<in> fst ` set m"
  then obtain p qs where p: "ps = p # qs" by (cases ps) auto
  obtain d1 m1 where one: "prune_one budget p deleted m = (d1, m1)" by force
  have pk: "PruneKey p \<in> fst ` set m" using ps(3) p by simp
  obtain K where K: "m1 = filter (\<lambda>e. fst e \<notin> K) m"
    "PruneKey p \<in> K \<and> (\<forall>k \<in> fst ` set m. of_proposal p k \<longrightarrow> k \<in> K) \<or> PruneKey p \<notin> K \<and> K \<inter> fst ` set m \<noteq> {}"
    by (rule prune_one_spec [OF ps(2) one])
  have "\<exists>k \<in> fst ` set m. k \<in> K"
  proof (cases "PruneKey p \<in> K")
    case True
    then show ?thesis by (rule bexI [OF _ pk])
  next
    case False
    with K(2) have "K \<inter> fst ` set m \<noteq> {}" by simp
    then show ?thesis by (metis IntE ex_in_conv)
  qed
  then obtain e where e: "e \<in> set m" "fst e \<in> K" by auto
  have rest: "prune_loop budget qs d1 m1 = (d', m')" using assms ps(2) one by (simp add: p)
  have "length m' \<le> length m1" using keeps [OF rest] by (metis length_filter_le)
  moreover have "length m1 < length m" unfolding K(1) using length_filter_less [of e m "\<lambda>e. fst e \<notin> K"] e by simp
  ultimately show "length m' < length m" by simp
qed

section \<open>Blocks\<close>

lemma prune_queue_marker:
  assumes "p \<in> set (prune_queue m)"
  shows "PruneKey p \<in> fst ` set m"
proof -
  from assms obtain e where e: "e \<in> set m" "prefix PrunePrefix (fst e)" "length (fst e) = 9" "p = dec64 (drop 1 (fst e))"
    by (auto simp: prune_queue_def kv_prefix_def PrunePrefix_def)
  then obtain r where r: "fst e = CHR 0x14 # r" "length r = 8" by (auto simp: prefix_def PrunePrefix_def)
  then have "fst e = PruneKey p" using e(4) be_be_dec [of r 8] be_dec_less [of r]
    by (simp add: PruneKey_def PrunePrefix_def be64_def dec64_def unat_of_nat)
  with e(1) show ?thesis by force
qed

lemma marker_prune_queue: "PruneKey p \<in> fst ` set m \<Longrightarrow> p \<in> set (prune_queue m)"
  by (force simp: prune_queue_def kv_prefix_def PruneKey_def PrunePrefix_def)

lemma EndBlock_spec:
  fixes s :: gov_state
  defines "s' \<equiv> gov_EndBlock s"
  shows "settled (gv_store s) q \<Longrightarrow> settled (gv_store s') q"
    "\<exists>K. gv_store s' = filter (\<lambda>e. fst e \<notin> K) (gv_store s) \<and> K \<subseteq> {k. \<exists>p \<in> set (prune_queue (gv_store s)). of_proposal p k}"
    "prune_queue (gv_store s) \<noteq> [] \<Longrightarrow> length (gv_store s') < length (gv_store s)"
proof -
  obtain d m where l: "prune_loop PruneBudgetPerBlock (prune_queue (gv_store s)) 0 (gv_store s) = (d, m)" by force
  then have s': "gv_store s' = m" by (simp add: s'_def gov_EndBlock_def PruneStep_def PruneBudgetPerBlock_def)
  note spec = prune_loop_spec [OF l]
  show "settled (gv_store s) q \<Longrightarrow> settled (gv_store s') q" using spec(1) s' by simp
  show "\<exists>K. gv_store s' = filter (\<lambda>e. fst e \<notin> K) (gv_store s) \<and> K \<subseteq> {k. \<exists>p \<in> set (prune_queue (gv_store s)). of_proposal p k}"
    using spec(2) s' by simp
  assume ne: "prune_queue (gv_store s) \<noteq> []"
  then have "PruneKey (hd (prune_queue (gv_store s))) \<in> fst ` set (gv_store s)" by (intro prune_queue_marker) simp
  with spec(3) [OF ne] s' show "length (gv_store s') < length (gv_store s)" by (simp add: PruneBudgetPerBlock_def)
qed

lemma EndBlock_idle: "prune_queue (gv_store s) = [] \<Longrightarrow> gv_store (gov_EndBlock s) = gv_store s"
  by (simp add: gov_EndBlock_def PruneStep_def PruneBudgetPerBlock_def)

lemma EndBlocks_spec:
  fixes s :: gov_state and n :: nat
  defines "s' \<equiv> (gov_EndBlock ^^ n) s"
  shows "settled (gv_store s) q \<Longrightarrow> settled (gv_store s') q"
    "\<exists>K. gv_store s' = filter (\<lambda>e. fst e \<notin> K) (gv_store s) \<and> K \<subseteq> {k. \<exists>p \<in> set (prune_queue (gv_store s)). of_proposal p k}"
    "prune_queue (gv_store s') = [] \<or> length (gv_store s') + n \<le> length (gv_store s)"
proof -
  let ?t = "\<lambda>n. gv_store ((gov_EndBlock ^^ n) s)" and ?Q = "{k. \<exists>p \<in> set (prune_queue (gv_store s)). of_proposal p k}"
  have "(settled (gv_store s) q \<longrightarrow> settled (?t n) q) \<and> (\<exists>K. ?t n = filter (\<lambda>e. fst e \<notin> K) (gv_store s) \<and> K \<subseteq> ?Q)
    \<and> (prune_queue (?t n) = [] \<or> length (?t n) + n \<le> length (gv_store s))"
  proof (induction n)
    case 0
    show ?case by (intro conjI exI [of _ "{}"]) simp_all
  next
    case (Suc n)
    let ?u = "(gov_EndBlock ^^ n) s"
    note e = EndBlock_spec [of ?u]
    from Suc obtain K where K: "?t n = filter (\<lambda>e. fst e \<notin> K) (gv_store s)" "K \<subseteq> ?Q" by blast
    from e(2) obtain L where L: "?t (Suc n) = filter (\<lambda>e. fst e \<notin> L) (?t n)"
      "L \<subseteq> {k. \<exists>p \<in> set (prune_queue (?t n)). of_proposal p k}" by auto
    have "set (prune_queue (?t n)) \<subseteq> set (prune_queue (gv_store s))"
    proof
      fix p assume "p \<in> set (prune_queue (?t n))"
      from prune_queue_marker [OF this] have "PruneKey p \<in> fst ` set (gv_store s)" unfolding K(1) by auto
      then show "p \<in> set (prune_queue (gv_store s))" by (rule marker_prune_queue)
    qed
    with L(2) K(2) have sub: "K \<union> L \<subseteq> ?Q" by blast
    have eq: "?t (Suc n) = filter (\<lambda>e. fst e \<notin> K \<union> L) (gv_store s)" unfolding L(1) K(1) filter_filter
      by (rule filter_cong) simp_all
    have len: "prune_queue (?t (Suc n)) = [] \<or> length (?t (Suc n)) + Suc n \<le> length (gv_store s)"
    proof (cases "prune_queue (?t n) = []")
      case True
      with EndBlock_idle [of ?u] show ?thesis by simp
    next
      case False
      with e(3) Suc show ?thesis by auto
    qed
    have "settled (gv_store s) q \<longrightarrow> settled (?t (Suc n)) q" using Suc e(1) by simp
    with sub eq len show ?case by (intro conjI exI [of _ "K \<union> L"])
  qed
  then show "settled (gv_store s) q \<Longrightarrow> settled (gv_store s') q"
    "\<exists>K. gv_store s' = filter (\<lambda>e. fst e \<notin> K) (gv_store s) \<and> K \<subseteq> ?Q"
    "prune_queue (gv_store s') = [] \<or> length (gv_store s') + n \<le> length (gv_store s)" unfolding s'_def by blast+
qed

lemma queue_worked_off:
  assumes "length (gv_store s) \<le> n"
  shows "prune_queue (gv_store ((gov_EndBlock ^^ n) s)) = []"
proof (rule ccontr)
  let ?s = "(gov_EndBlock ^^ n) s"
  assume ne: "prune_queue (gv_store ?s) \<noteq> []"
  with EndBlocks_spec(3) [where s = s and n = n] assms have "length (gv_store ?s) = 0" by linarith
  then have "gv_store ?s = []" by simp
  with ne show False by (simp add: prune_queue_def kv_prefix_def)
qed

text \<open>
  C35: Pruning finishes and touches nothing else.  After as many blocks as the store has records
  (and at any later time) the queue is empty, every record of every queued proposal is gone, and
  every record of a proposal that was not queued is still there.
\<close>

theorem pruning_completes:
  assumes "length (gv_store s) \<le> n"
  defines "s' \<equiv> (gov_EndBlock ^^ n) s"
  shows "\<not> IsQueuedForPruning s' p
    \<and> (IsQueuedForPruning s p \<longrightarrow> (\<forall>k \<in> fst ` set (gv_store s'). \<not> of_proposal p k))
    \<and> (\<forall>e \<in> set (gv_store s). (\<forall>q. IsQueuedForPruning s q \<longrightarrow> \<not> of_proposal q (fst e)) \<longrightarrow> e \<in> set (gv_store s'))"
proof -
  note b = EndBlocks_spec [where s = s and n = n, folded s'_def]
  have has: "IsQueuedForPruning t q \<longleftrightarrow> PruneKey q \<in> fst ` set (gv_store t)" for t q
    by (simp add: IsQueuedForPruning_def kv_has_def kv_get_None_iff)
  have "prune_queue (gv_store s') = []" unfolding s'_def by (rule queue_worked_off [OF assms(1)])
  then have none: "PruneKey q \<notin> fst ` set (gv_store s')" for q using marker_prune_queue [of q "gv_store s'"] by auto
  have "\<not> of_proposal p k" if "PruneKey p \<in> fst ` set (gv_store s)" "k \<in> fst ` set (gv_store s')" for k
    using b(1) [of p] that none [of p] unfolding settled_def by blast
  moreover from b(2) obtain K where K: "gv_store s' = filter (\<lambda>e. fst e \<notin> K) (gv_store s)"
    "K \<subseteq> {k. \<exists>q \<in> set (prune_queue (gv_store s)). of_proposal q k}" by blast
  have "e \<in> set (gv_store s')" if e: "e \<in> set (gv_store s)" "\<forall>q. IsQueuedForPruning s q \<longrightarrow> \<not> of_proposal q (fst e)" for e
  proof -
    have "fst e \<notin> K" using K(2) e(2) prune_queue_marker [of _ "gv_store s"] unfolding has by blast
    with e(1) show ?thesis by (simp add: K(1))
  qed
  ultimately show ?thesis using none unfolding has by blast
qed

text \<open>Two proposals with a ballot each, the first of them finished.\<close>

definition finished_state :: gov_state where
  "finished_state = EnqueueForPruning
     (snd (RecordVote (snd (RecordVote empty_gov_state 4 ''a'' 1 True)) 9 ''a'' 3 True)) 4"

theorem pruning_completes_witness:
  "\<not> IsQueuedForPruning ((gov_EndBlock ^^ 7) finished_state) 4
    \<and> \<not> list_ex (\<lambda>e. of_proposal 4 (fst e)) (gv_store ((gov_EndBlock ^^ 7) finished_state))"
proof -
  have "length (gv_store finished_state) \<le> 7" "IsQueuedForPruning finished_state 4" by code_simp+
  with pruning_completes [of finished_state 7 4] show ?thesis by (auto simp: list_ex_iff)
qed

end
