(* ===== verification/GovRegistered.thy ===== *)
theory GovRegistered
  imports GovPrune
begin

text \<open>
  The invariant the governance module registers, seen against pruning: what it reports for a
  proposal depends on that proposal's records only, and while they are being deleted it reports
  a violation.
\<close>

section \<open>The registered invariant while a proposal is pruned\<close>

definition records :: "bytes kv \<Rightarrow> 64 word \<Rightarrow> bytes kv" where
  "records m p = filter (\<lambda>e. of_proposal p (fst e)) m"

lemma kv_get_records: "of_proposal p k \<Longrightarrow> kv_get (records m p) k = kv_get m k"
  by (induction m) (auto simp: records_def)

lemma kv_prefix_records:
  assumes "\<And>k. prefix x k \<Longrightarrow> of_proposal p k"
  shows "kv_prefix (records m p) x = kv_prefix m x"
  unfolding kv_prefix_def records_def filter_filter by (rule filter_cong) (use assms in auto)

lemma broken_local:
  assumes "records (gv_store s') p = records (gv_store s) p"
  shows "proposal_broken s' p = proposal_broken s p"
proof -
  have get: "kv_get (gv_store s') k = kv_get (gv_store s) k" if "of_proposal p k" for k
    using kv_get_records [OF that] assms by metis
  have pre: "kv_prefix (gv_store s') x = kv_prefix (gv_store s) x" if "\<And>k. prefix x k \<Longrightarrow> of_proposal p k" for x
    using kv_prefix_records [OF that] assms by metis
  have t: "kv_get (gv_store s') (TallyTurnoutKey p) = kv_get (gv_store s) (TallyTurnoutKey p)"
    "kv_get (gv_store s') (ProposalEligibilityKey p) = kv_get (gv_store s) (ProposalEligibilityKey p)"
    by (rule get, simp add: of_proposal_def)+
  have v: "kv_prefix (gv_store s') (CountedVotePrefixFor p) = kv_prefix (gv_store s) (CountedVotePrefixFor p)"
    "kv_prefix (gv_store s') (TallyCountPrefix @ be64 p) = kv_prefix (gv_store s) (TallyCountPrefix @ be64 p)"
    by (rule pre, simp add: of_proposal_def)+
  have "GetRunningTally s' p = GetRunningTally s p" by (simp add: GetRunningTally_def tally_counts_def t(1) v(2))
  moreover have "IterateCountedVotes s' p = IterateCountedVotes s p" by (simp add: IterateCountedVotes_def v(1))
  moreover have "GetProposalEligibility s' p = GetProposalEligibility s p" by (simp add: GetProposalEligibility_def t(2))
  ultimately show ?thesis by (simp add: proposal_broken_def)
qed

lemma broken_empty: "records (gv_store s) p = [] \<Longrightarrow> \<not> proposal_broken s p"
proof -
  assume "records (gv_store s) p = []"
  then have "proposal_broken s p = proposal_broken empty_gov_state p"
    by (intro broken_local) (simp add: records_def empty_gov_state_def)
  then show ?thesis
    by (simp add: proposal_broken_def empty_gov_state_def GetRunningTally_def tally_counts_def IterateCountedVotes_def
        GetProposalEligibility_def kv_prefix_def sumCounts_def decodeUint64_def)
qed

lemma broken_iff: "TurnoutWithinFrozenBasisInvariant s \<longleftrightarrow> (\<exists>p \<in> set (TalliedProposalIDs s). proposal_broken s p)"
  by (simp add: TurnoutWithinFrozenBasisInvariant_def list_ex_iff)

lemma tallied_mono:
  assumes "set (gv_store s') \<subseteq> set (gv_store s)"
  shows "set (TalliedProposalIDs s') \<subseteq> set (TalliedProposalIDs s)"
proof -
  have "set (ids_under (gv_store s') x) \<subseteq> set (ids_under (gv_store s) x)" for x
    using assms by (auto simp: ids_under_def kv_prefix_def)
  then show ?thesis unfolding TalliedProposalIDs_def by auto
qed

lemma ids_under_mem:
  assumes "(x @ be64 p @ r, v) \<in> set m"
  shows "p \<in> set (ids_under m x)"
proof -
  let ?e = "(x @ be64 p @ r, v)"
  have "?e \<in> set (filter (\<lambda>e. length x + 8 \<le> length (fst e)) (kv_prefix m x))" using assms by (simp add: kv_prefix_def)
  moreover have "p = dec64 (drop (length x) (fst ?e))" by simp
  ultimately show ?thesis unfolding ids_under_def set_map by (rule image_eqI [rotated])
qed

lemma tallied_ids:
  assumes "x \<in> {ProposalEligibilityPrefix, TallyTurnoutPrefix, CountedVotePrefix, TallyCountPrefix}" "p \<in> set (ids_under (gv_store s) x)"
  shows "p \<in> set (TalliedProposalIDs s)"
  using assms unfolding TalliedProposalIDs_def by (elim insertE) simp_all

lemma turnout_tallied:
  assumes "TallyTurnoutKey p \<in> fst ` set (gv_store s)"
  shows "p \<in> set (TalliedProposalIDs s)"
proof -
  obtain v where "(TallyTurnoutPrefix @ be64 p @ [], v) \<in> set (gv_store s)"
    using assms by (auto simp: TallyTurnoutKey_def fst_image_iff)
  from ids_under_mem [OF this] show ?thesis by (rule tallied_ids [rotated]) simp
qed

text \<open>Once the queue has been worked off, the invariant holds again.\<close>

lemma pruned_silent:
  assumes "\<not> TurnoutWithinFrozenBasisInvariant s" "length (gv_store s) \<le> n"
  shows "\<not> TurnoutWithinFrozenBasisInvariant ((gov_EndBlock ^^ n) s)"
proof -
  have intact: "\<not> proposal_broken s q" if "q \<in> set (TalliedProposalIDs s)" for q
    using assms(1) bexI [OF _ that, of "proposal_broken s"] unfolding broken_iff by (rule contrapos_nn)
  define s' where "s' = (gov_EndBlock ^^ n) s"
  note b = EndBlocks_spec [where s = s and n = n, folded s'_def]
  from b(2) obtain K where K: "gv_store s' = filter (\<lambda>e. fst e \<notin> K) (gv_store s)"
    "K \<subseteq> {k. \<exists>q \<in> set (prune_queue (gv_store s)). of_proposal q k}" by blast
  have tl: "set (TalliedProposalIDs s') \<subseteq> set (TalliedProposalIDs s)" by (rule tallied_mono) (auto simp: K(1))
  have "\<not> proposal_broken s' q" if q: "q \<in> set (TalliedProposalIDs s')" for q
  proof (cases "q \<in> set (prune_queue (gv_store s))")
    case True
    have "settled (gv_store s) q" using prune_queue_marker [OF True] by (simp add: settled_def)
    then have st: "settled (gv_store s') q" by (rule b(1))
    have "PruneKey q \<notin> fst ` set (gv_store s')"
      using queue_worked_off [OF assms(2), folded s'_def] marker_prune_queue [of q "gv_store s'"] by auto
    with st have "records (gv_store s') q = []" by (auto simp: settled_def records_def filter_empty_conv)
    then show ?thesis by (rule broken_empty)
  next
    case False
    have "fst e \<notin> K" if "of_proposal q (fst e)" for e :: "bytes \<times> bytes"
      using K(2) of_proposal_unique [OF that] False by blast
    then have "records (gv_store s') q = records (gv_store s) q"
      unfolding records_def K(1) filter_filter by (intro filter_cong) auto
    from broken_local [OF this] intact [OF subsetD [OF tl q]] show ?thesis by simp
  qed
  then show ?thesis unfolding s'_def [symmetric] broken_iff by blast
qed

lemma prune_queue_distinct:
  assumes "kv_sorted m"
  shows "distinct (prune_queue m)"
proof -
  define es where "es = filter (\<lambda>e. length (fst e) = length PrunePrefix + 8) (kv_prefix m PrunePrefix)"
  have d: "distinct (map fst m)" using assms by (rule kv.entries_distinct)
  have key: "fst e = PruneKey (dec64 (drop 1 (fst e)))" if "e \<in> set es" for e
  proof -
    from that obtain r where r: "fst e = CHR 0x14 # r" "length r = 8"
      by (auto simp: es_def kv_prefix_def prefix_def PrunePrefix_def)
    then show ?thesis using be_be_dec [of r 8] be_dec_less [of r]
      by (simp add: PruneKey_def PrunePrefix_def be64_def dec64_def unat_of_nat)
  qed
  have "distinct (map fst es)" using d by (simp add: es_def kv_prefix_def distinct_map_filter)
  then have inj: "inj_on fst (set es)" and dist: "distinct es" by (simp_all add: distinct_map)
  have "inj_on (\<lambda>e. dec64 (drop 1 (fst e))) (set es)"
  proof (rule inj_onI)
    fix e e' assume e: "e \<in> set es" "e' \<in> set es" and eq: "dec64 (drop 1 (fst e)) = dec64 (drop 1 (fst e'))"
    have "fst e = PruneKey (dec64 (drop 1 (fst e)))" by (rule key [OF e(1)])
    also have "\<dots> = fst e'" unfolding eq by (rule key [OF e(2), symmetric])
    finally show "e = e'" by (rule inj_onD [OF inj _ e])
  qed
  then show ?thesis using dist unfolding prune_queue_def es_def [symmetric] by (simp add: distinct_map)
qed

lemma EndBlock_head:
  assumes "kv_sorted (gv_store s)" "prune_queue (gv_store s) = p # ps" "kv_prefix (gv_store s) (CountedVotePrefixFor p) \<noteq> []"
  shows "records (gv_store (gov_EndBlock s)) p = filter (\<lambda>e. fst e \<notin>
      fst ` set (take PruneBudgetPerBlock (kv_prefix (gv_store s) (CountedVotePrefixFor p)))) (records (gv_store s) p)"
proof -
  let ?m = "gv_store s"
  define batch where "batch = take PruneBudgetPerBlock (map fst (kv_prefix ?m (CountedVotePrefixFor p)))"
  have ne: "batch \<noteq> []" using assms(3) by (simp add: batch_def PruneBudgetPerBlock_def)
  have one: "prune_one PruneBudgetPerBlock p 0 ?m = (length batch, kv_delete_all ?m batch)"
    using ne by (simp add: prune_one_def Let_def batch_def)
  obtain d' m' where rest: "prune_loop PruneBudgetPerBlock ps (length batch) (kv_delete_all ?m batch) = (d', m')" by force
  have st: "gv_store (gov_EndBlock s) = m'"
    using rest one by (simp add: gov_EndBlock_def PruneStep_def assms(2)) (simp add: PruneBudgetPerBlock_def)
  from prune_loop_spec(2) [OF rest] obtain K where K: "m' = filter (\<lambda>e. fst e \<notin> K) (kv_delete_all ?m batch)"
    "K \<subseteq> {k. \<exists>q \<in> set ps. of_proposal q k}" by blast
  have "p \<notin> set ps" using prune_queue_distinct [OF assms(1)] assms(2) by simp
  then have out: "k \<notin> K" if "of_proposal p k" for k using K(2) of_proposal_unique [OF that] by blast
  have "set batch = fst ` set (take PruneBudgetPerBlock (kv_prefix ?m (CountedVotePrefixFor p)))" by (simp add: batch_def take_map)
  then show ?thesis
    unfolding st K(1) kv_delete_all_filter records_def filter_filter by (intro filter_cong) (use out in auto)
qed

definition countable :: "bytes \<times> bytes \<Rightarrow> bool" where
  "countable e \<longleftrightarrow> length (snd e) = 1 \<and> hd (snd e) \<noteq> IneligibleVoteMarker"

lemma broken_by_count:
  "proposal_broken s p \<longleftrightarrow> (let counted = word_of_nat (length (filter countable (kv_prefix (gv_store s) (CountedVotePrefixFor p)))) in
     case GetProposalEligibility s p of
       None \<Rightarrow> \<not> (counted = 0 \<and> turnout_of s p = 0 \<and> sumCounts (GetRunningTally s p) = 0)
     | Some basis \<Rightarrow> fe_Denominator basis < turnout_of s p \<or> sumCounts (GetRunningTally s p) \<noteq> turnout_of s p
         \<or> counted \<noteq> turnout_of s p)"
proof -
  have "length (filter (\<lambda>(_, marker). marker \<noteq> IneligibleVoteMarker) (IterateCountedVotes s p))
      = length (filter countable (kv_prefix (gv_store s) (CountedVotePrefixFor p)))"
    by (simp add: IterateCountedVotes_def Let_def filter_map filter_filter o_def case_prod_beta)
      (simp add: countable_def [abs_def])
  moreover have "rt_Turnout (GetRunningTally s p) = turnout_of s p" by (simp add: GetRunningTally_def)
  ultimately show ?thesis unfolding proposal_broken_def by (simp add: Let_def split: option.split)
qed

lemma filter_drops:
  assumes "e \<in> set xs" "fst e \<in> B" "P e"
  shows "length (filter P (filter (\<lambda>e. fst e \<notin> B) xs)) < length (filter P xs)"
proof -
  have "filter P (filter (\<lambda>e. fst e \<notin> B) xs) = filter (\<lambda>e. fst e \<notin> B) (filter P xs)"
    unfolding filter_filter by (rule filter_cong) auto
  moreover have "e \<in> set (filter P xs)" using assms by simp
  ultimately show ?thesis using length_filter_less [of e "filter P xs" "\<lambda>e. fst e \<notin> B"] assms(2) by simp
qed

lemma kv_prefix_without:
  assumes "records m' p = filter (\<lambda>e. fst e \<notin> B) (records m p)" "\<And>k. prefix x k \<Longrightarrow> of_proposal p k"
  shows "kv_prefix m' x = filter (\<lambda>e. fst e \<notin> B) (kv_prefix m x)"
proof -
  have "kv_prefix m' x = kv_prefix (filter (\<lambda>e. fst e \<notin> B) (records m p)) x"
    using kv_prefix_records [OF assms(2), of x m'] assms(1) by simp
  also have "\<dots> = filter (\<lambda>e. fst e \<notin> B) (kv_prefix (records m p) x)"
    unfolding kv_prefix_def filter_filter by (rule filter_cong) auto
  finally show ?thesis using kv_prefix_records [OF assms(2), of x m] by simp
qed

lemma kv_get_without:
  assumes "records m' p = filter (\<lambda>e. fst e \<notin> B) (records m p)" "of_proposal p k" "k \<notin> B"
  shows "kv_get m' k = kv_get m k"
proof -
  have "kv_get (filter (\<lambda>e. fst e \<notin> B) r) k = kv_get r k" for r :: "bytes kv"
    using assms(3) by (induction r) auto
  then show ?thesis using kv_get_records [OF assms(2), of m'] kv_get_records [OF assms(2), of m] assms(1) by simp
qed

lemma vote_tallied:
  assumes "prefix (CountedVotePrefixFor p) k" "(k, v) \<in> set (gv_store s)"
  shows "p \<in> set (TalliedProposalIDs s)"
proof -
  obtain r where "k = CountedVotePrefix @ be64 p @ r" using assms(1) by (auto simp: CountedVotePrefixFor_def prefix_def)
  with assms(2) have "(CountedVotePrefix @ be64 p @ r, v) \<in> set (gv_store s)" by simp
  from ids_under_mem [OF this] show ?thesis by (rule tallied_ids [rotated]) simp
qed

text \<open>
  C36: The registered invariant does not account for pruning.  Take any consistent state (every
  proposal passes the invariant) whose next proposal to prune still has a counted ballot among the
  records one block's budget reaches.  Then the next block deletes ballot records of that proposal
  and keeps its turnout counter, so that after the block the invariant reports a violation although
  nothing is wrong; once the queue has been worked off it is silent again.
\<close>

theorem pruning_trips_invariant:
  assumes "kv_sorted (gv_store s)" "length (gv_store s) < 2 ^ 64"
    and "\<not> TurnoutWithinFrozenBasisInvariant s" "prune_queue (gv_store s) = p # ps"
    and "(k, [b]) \<in> set (take PruneBudgetPerBlock (kv_prefix (gv_store s) (CountedVotePrefixFor p)))"
    and "b \<noteq> IneligibleVoteMarker"
  shows "TurnoutWithinFrozenBasisInvariant (gov_EndBlock s)
    \<and> (\<forall>n. length (gv_store s) \<le> n \<longrightarrow> \<not> TurnoutWithinFrozenBasisInvariant ((gov_EndBlock ^^ n) s))"
proof -
  define X where "X = kv_prefix (gv_store s) (CountedVotePrefixFor p)"
  define B where "B = fst ` set (take PruneBudgetPerBlock X)"
  define s' where "s' = gov_EndBlock s"
  have X: "(k, [b]) \<in> set X" "k \<in> B" using assms(5) set_take_subset by (force simp: X_def B_def)+
  have ne: "X \<noteq> []" using X(1) by auto
  have rec: "records (gv_store s') p = filter (\<lambda>e. fst e \<notin> B) (records (gv_store s) p)"
    unfolding X_def B_def s'_def by (rule EndBlock_head [OF assms(1,4) ne [unfolded X_def]])
  have X': "kv_prefix (gv_store s') (CountedVotePrefixFor p) = filter (\<lambda>e. fst e \<notin> B) X"
    unfolding X_def by (rule kv_prefix_without [OF rec]) (simp add: of_proposal_def)
  define c where "c = length (filter countable X)"
  define c' where "c' = length (filter countable (filter (\<lambda>e. fst e \<notin> B) X))"
  have "c' < c" unfolding c_def c'_def using X(2) assms(6) by (intro filter_drops [OF X(1)]) (simp_all add: countable_def)
  moreover have "c < 2 ^ 64"
    using assms(2) length_filter_le [of countable X] length_filter_le [of "\<lambda>e. prefix (CountedVotePrefixFor p) (fst e)" "gv_store s"]
    unfolding X_def kv_prefix_def c_def by linarith
  ultimately have words: "(word_of_nat c :: 64 word) \<noteq> 0" "(word_of_nat c' :: 64 word) \<noteq> word_of_nat c"
    by (simp_all add: word_unat_eq_iff unat_of_nat)
  have "prefix (CountedVotePrefixFor p) k" "(k, [b]) \<in> set (gv_store s)" using X(1) by (auto simp: X_def kv_prefix_def)
  then have "p \<in> set (TalliedProposalIDs s)" by (rule vote_tallied)
  then have "\<not> proposal_broken s p" using assms(3) by (auto simp: broken_iff)
  then have turnout: "turnout_of s p = word_of_nat c"
    using words(1) by (auto simp: broken_by_count X_def [symmetric] c_def [symmetric] split: option.splits)
  have "fst e \<noteq> TallyTurnoutKey p" if "e \<in> set X" for e using that by (auto simp: X_def kv_prefix_def gov_key_defs)
  then have "TallyTurnoutKey p \<notin> B" using set_take_subset [of PruneBudgetPerBlock X] unfolding B_def by fastforce
  then have key: "kv_get (gv_store s') (TallyTurnoutKey p) = kv_get (gv_store s) (TallyTurnoutKey p)"
    by (intro kv_get_without [OF rec]) (simp_all add: of_proposal_def)
  have "kv_get (gv_store s) (TallyTurnoutKey p) \<noteq> None" using turnout words(1) by (cases "kv_get (gv_store s) (TallyTurnoutKey p)") (simp_all add: decodeUint64_def)
  then have "p \<in> set (TalliedProposalIDs s')" by (intro turnout_tallied) (simp add: key [symmetric] kv_get_None_iff)
  moreover have cnt: "length (filter countable (kv_prefix (gv_store s') (CountedVotePrefixFor p))) = c'"
    by (simp only: X' c'_def)
  have "proposal_broken s' p"
    using words by (auto simp: broken_by_count cnt key turnout split: option.splits)
  ultimately have "TurnoutWithinFrozenBasisInvariant s'" unfolding broken_iff by blast
  then show ?thesis using pruned_silent [OF assms(3)] by (simp add: s'_def)
qed

text \<open>One ballot within its frozen basis, its proposal finished.\<close>

definition tallied_state :: gov_state where
  "tallied_state = EnqueueForPruning (snd (RecordVote
     (SetProposalEligibility empty_gov_state 4 \<lparr>fe_Denominator = 1, fe_Cutoff = 500, fe_FrozenAt = 900\<rparr>) 4 ''a'' 1 True)) 4"

lemma tallied_checks:
  "\<not> TurnoutWithinFrozenBasisInvariant tallied_state" "prune_queue (gv_store tallied_state) = [4]"
  "take PruneBudgetPerBlock (kv_prefix (gv_store tallied_state) (CountedVotePrefixFor 4)) = [(CountedVoteKey 4 ''a'', [CHR 0x01])]"
  "length (gv_store tallied_state) = 5" "kv_sorted (gv_store tallied_state)"
  by code_simp+

theorem pruning_trips_invariant_witness:
  "TurnoutWithinFrozenBasisInvariant (gov_EndBlock tallied_state)
    \<and> \<not> TurnoutWithinFrozenBasisInvariant ((gov_EndBlock ^^ 5) tallied_state)"
  using pruning_trips_invariant [OF tallied_checks(5) _ tallied_checks(1,2), of "CountedVoteKey 4 ''a''" "CHR 0x01"]
  by (simp add: tallied_checks(3,4) IneligibleVoteMarker_def)

end
