(* ===== verification/Spec2Isabelle.thy ===== *)
theory Spec2Isabelle
  imports CoinProps InstProps InstGuards InstResidue IdProps GovProps GovRegistered
begin

text \<open>
  A verification library for PHI Chain, a Cosmos SDK application written in Go.  The chain's
  coin, counted in \<^verbatim>\<open>uphi\<close>, is issued by registered institutions against toman
  deposits, carries the age of its acquisition, and is redeemed through the institution's vault.

  \<^bold>\<open>Parts and theories.\<close>

  \<^item> \<^verbatim>\<open>Prelude\<close>, \<^verbatim>\<open>KVStore\<close>, \<^verbatim>\<open>Encoding\<close>, \<^verbatim>\<open>MathInt\<close>: results and errors, the ordered
    byte-keyed store every keeper writes to (with the interface locale
    \<^verbatim>\<open>ordered_store\<close>), big-endian and length-prefixed encodings, and the 256-bit
    decimal integers of \<^verbatim>\<open>cosmossdk.io/math\<close>.
  \<^item> \<^verbatim>\<open>Bank\<close>: the single-denomination ledger operations the modules call, the
    application's module accounts (\<^verbatim>\<open>app/app.go\<close>) and the interface locale of a ledger.
  \<^item> \<^verbatim>\<open>StoreEntry\<close>: \<^verbatim>\<open>internal/storeentry\<close> and \<^verbatim>\<open>internal/storeprefix\<close>.
  \<^item> \<^verbatim>\<open>CoinAge\<close>, \<^verbatim>\<open>Coin\<close>, \<^verbatim>\<open>CoinKeeper\<close>: \<^verbatim>\<open>x/coin\<close>, the coin-age queue, the fee table,
    transfers, revenue withdrawal, quota counters and genesis.  \<^verbatim>\<open>CoinTimes\<close> follows the
    acquisition times through spending, merging and crediting; \<^verbatim>\<open>CoinProps\<close> has the properties:
    conservation, order and bound of the queues, what a transfer does to amounts and ages, the
    fee of a transaction and its complete split, the daily quota and its pruning, and genesis.
  \<^item> \<^verbatim>\<open>InstTypes\<close>, \<^verbatim>\<open>InstKeeper\<close>, \<^verbatim>\<open>InstMsgs\<close>, \<^verbatim>\<open>InstSweep\<close>: \<^verbatim>\<open>x/institutions\<close>, the
    registry, vaults, roles and multisig, caps and counters, mint and redeem, the fx onboarding,
    the block sweeps, and the application's slash compensation and burn guard.
  \<^item> \<^verbatim>\<open>InstInv\<close>, \<^verbatim>\<open>InstSteps\<close>, \<^verbatim>\<open>InstProps\<close>, \<^verbatim>\<open>InstGuards\<close>, \<^verbatim>\<open>InstSweepProps\<close>,
    \<^verbatim>\<open>InstResidue\<close>, \<^verbatim>\<open>InstExamples\<close>: the solvency invariant of the world (bank, coin and
    institutions) over an inductive step relation, and what the module guarantees.

  \<^item> \<^verbatim>\<open>PhiCrypto\<close>, \<^verbatim>\<open>IdTypes\<close>, \<^verbatim>\<open>IdKeeper\<close>, \<^verbatim>\<open>IdMsgs\<close>: \<^verbatim>\<open>phicrypto/did.go\<close> and
    \<^verbatim>\<open>x/identity\<close>, the documents and their uniqueness markers, trusted issuers, the derived
    eligibility index, guardian sets and recovery requests with their deposits, the binding of
    validators to documents, the staking hooks and the block sweep.
  \<^item> \<^verbatim>\<open>IdInv\<close>, \<^verbatim>\<open>IdSteps\<close>, \<^verbatim>\<open>IdRecov\<close>, \<^verbatim>\<open>IdRuns\<close>, \<^verbatim>\<open>IdReach\<close>, \<^verbatim>\<open>IdChecks\<close>,
    \<^verbatim>\<open>IdWrites\<close>, \<^verbatim>\<open>IdConsent\<close>, \<^verbatim>\<open>IdExamples\<close>, \<^verbatim>\<open>IdProps\<close>: the invariant of the identity world (documents, indexes,
    eligibility, open requests, escrow, bindings), its preservation by every handler, the step
    relation \<^verbatim>\<open>id_step\<close>, what a step writes to the documents, which earlier messages the approvals
    of a request go back to, a concrete run from the empty store to an executed recovery, and the
    properties: the registered invariants hold in every reachable state, a person has one
    document for good, a recovery needs the consent of a quorum of the guardians in force, the
    incremental quorum denominator is the count it stands for, and deposits can always be settled.
    The runs start from the empty store.  Of the environment they assume that other modules do not
    lower the balance of the identity module account and that staking calls the creation hook only
    for an operator that is not bound yet.
  \<^item> \<^verbatim>\<open>LegacyDec\<close>, \<^verbatim>\<open>GovKeeper\<close>, \<^verbatim>\<open>GovTally\<close>: the SDK's fixed-point decimals and
    \<^verbatim>\<open>x/governance\<close>, the table that routes a proposal to the public or the validators' vote, the
    store of the running tally with its frozen eligibility basis, both tallies, the proposal hooks,
    the budgeted pruning, genesis and the registered invariant.
  \<^item> \<^verbatim>\<open>GovInv\<close>, \<^verbatim>\<open>GovProps\<close>, \<^verbatim>\<open>GovPrune\<close>, \<^verbatim>\<open>GovRegistered\<close>: the running tally counts the
    ballot records it summarises and agrees with the module's reference count, only listed
    messages are decided by validators, pruning empties its queue and deletes nothing else, and
    the registered invariant reports a violation while ballots are being pruned.

  \<^bold>\<open>State and effects.\<close>  A keeper's store is a record with one sorted association list per
  key prefix, keyed by the full byte keys of the source.  A handler is a function to
  \<^verbatim>\<open>err + state\<close>; a failed message carries no state, as the application discards its writes.
  Panics are the \<^verbatim>\<open>Panic\<close> error.  Events, logging and gas are not part of the state.

  \<^bold>\<open>Not modelled.\<close>  The protobuf codec, gRPC and CLI plumbing, the command line
  (\<^verbatim>\<open>cmd/phid\<close>), CometBFT, and the SDK's own modules; where a handler depends on one of
  them (address codec, hashes, signature verification, proposals) it takes it as a parameter.
  The genesis import and export of \<^verbatim>\<open>x/identity\<close> and \<^verbatim>\<open>x/institutions\<close>, the modules
  \<^verbatim>\<open>x/credentials\<close>, \<^verbatim>\<open>x/disclosure\<close> and \<^verbatim>\<open>x/voting\<close>, and the ante handlers
  (\<^verbatim>\<open>app/ante\<close>), which verify signatures and charge the fee computed here.
  The integers of \<^verbatim>\<open>cosmossdk.io/math\<close> panic in an operation whose result exceeds 256 bits,
  which aborts the transaction: the model describes the runs that do not overflow, and checks the
  bound where an amount is parsed.
\<close>

end
